(* ===== verification/Tcp_Prelude.thy ===== *)
theory Tcp_Prelude
  imports
    Main
    "HOL-Library.Word"
    "HOL-Library.Finite_Map"
    "HOL-Library.Multiset"
    "HOL-Library.List_Lexorder"
    "HOL-Library.Char_ord"
    "HOL-Library.Monad_Syntax"
begin

text \<open>
  What every component of the emitter shares.

  \<^item> The development's rule collections: \<open>shape\<close> holds the equations that read a component's
    operation field by field; \<open>contract\<close> holds the preservation facts of the operations.
  \<^item> Go maps. A Go map is a finite map (\<open>fmap\<close>), \<open>m[k]\<close> on a missing key is the zero value,
    \<open>len(m)\<close> is the number of keys. A \<open>range\<close> loop over a map visits every key once, in an
    order the language leaves open and that may differ between two loops over the same map. The
    type \<open>range_order\<close> holds exactly the choices Go may make: for each loop (named by a path) and
    each finite set of keys, a list of these keys without repetition.
  \<^item> The loop shape \<open>for x in xs { events = append(events, body(x)...) }\<close>, which the routing table
    uses everywhere, as the combinator \<open>loop_events\<close>, and its laws as locales: a body that keeps an
    invariant and emits only good events gives a loop that does (\<open>event_step\<close>), and a body whose
    events mirror its state change gives a loop that does (\<open>tracked_step\<close>).
\<close>

named_theorems shape
named_theorems contract

subsection \<open>Go integers\<close>

type_synonym uint32 = "32 word"
type_synonym uint16 = "16 word"

subsection \<open>Go maps\<close>

definition map_len :: "('k, 'v) fmap \<Rightarrow> nat" where
  "map_len m = fcard (fmdom m)"

definition map_get :: "'v \<Rightarrow> ('k, 'v) fmap \<Rightarrow> 'k \<Rightarrow> 'v" where
  "map_get zero m k = (case fmlookup m k of None \<Rightarrow> zero | Some v \<Rightarrow> v)"

lemma map_get_simps [simp]:
  "fmlookup m k = Some v \<Longrightarrow> map_get z m k = v"
  "fmlookup m k = None \<Longrightarrow> map_get z m k = z"
  "map_get z fmempty k = z"
  by (simp_all add: map_get_def)

lemma map_get_fmupd: "map_get z (fmupd k v m) k' = (if k' = k then v else map_get z m k')"
  by (simp add: map_get_def)

lemma map_len_empty [simp]: "map_len fmempty = 0"
  by (simp add: map_len_def)

lemma map_len_eq_0 [simp]: "map_len m = 0 \<longleftrightarrow> m = fmempty"
proof
  assume "map_len m = 0"
  then have "fmdom m = {||}" by (simp add: map_len_def)
  then show "m = fmempty" by (intro fmap_ext) (metis fmdom_notD fempty_iff fmempty_lookup)
qed simp

lemma map_len_pos [simp]: "0 < map_len m \<longleftrightarrow> m \<noteq> fmempty"
  by (metis map_len_eq_0 not_gr_zero)

lemma fmempty_iff_lookup: "m = fmempty \<longleftrightarrow> (\<forall>k. fmlookup m k = None)"
  by (metis fmap_ext fmempty_lookup)

lemma map_len_fmupd:
  "map_len (fmupd k v m) = (if k |\<in>| fmdom m then map_len m else Suc (map_len m))"
  by (simp add: map_len_def fcard_finsert_if)

lemma map_len_fmdrop: "k |\<in>| fmdom m \<Longrightarrow> map_len (fmdrop k m) = map_len m - 1"
  by (simp add: map_len_def)

lemma map_len_fmdrop_less: "k |\<in>| fmdom m \<Longrightarrow> map_len (fmdrop k m) < map_len m"
proof -
  assume k: "k |\<in>| fmdom m"
  then have "m \<noteq> fmempty" by auto
  then have "0 < map_len m" by simp
  with map_len_fmdrop [OF k] show ?thesis by simp
qed

subsection \<open>The order of a range loop over a map\<close>

text \<open>
  A \<open>range_order\<close> says, for every loop and every finite key set, in which order the loop visits
  the keys. The path (a list of indices) names the loop, so that two loops over the same map may
  use different orders, as Go allows.
\<close>

lemma ex_key_list: "\<exists>ks. distinct ks \<and> set ks = fset S"
  using finite_distinct_list [of "fset S"] by auto

typedef 'k range_order =
  "{f :: nat list \<Rightarrow> 'k fset \<Rightarrow> 'k list. \<forall>p S. distinct (f p S) \<and> set (f p S) = fset S}"
proof -
  define f :: "nat list \<Rightarrow> 'k fset \<Rightarrow> 'k list"
    where "f = (\<lambda>p S. SOME ks. distinct ks \<and> set ks = fset S)"
  have "distinct (f p S) \<and> set (f p S) = fset S" for p S
    unfolding f_def using ex_key_list by (rule someI_ex)
  then show ?thesis by blast
qed

setup_lifting type_definition_range_order

lift_definition visit :: "'k range_order \<Rightarrow> nat list \<Rightarrow> 'k fset \<Rightarrow> 'k list" is "\<lambda>f. f" .

lemma distinct_visit [simp]: "distinct (visit ord p S)"
  by transfer simp

lemma set_visit [simp]: "set (visit ord p S) = fset S"
  by transfer simp

text \<open>One of the orders Go may choose: the keys sorted. It instantiates the parameter in witnesses.\<close>

lift_definition sorted_order :: "('k::linorder) range_order" is "\<lambda>_ S. sorted_list_of_fset S"
  by (simp add: sorted_list_of_fset.rep_eq)

lemma visit_sorted_order [simp]: "visit sorted_order p S = sorted_list_of_fset S"
  by transfer simp

text \<open>The key/value pairs a \<open>for k, v := range m\<close> loop sees.\<close>

definition range_map :: "'k range_order \<Rightarrow> nat list \<Rightarrow> ('k, 'v) fmap \<Rightarrow> ('k \<times> 'v) list" where
  "range_map ord p m = List.map_filter (\<lambda>k. map_option (Pair k) (fmlookup m k)) (visit ord p (fmdom m))"

lemma map_filter_pairs:
  "set ks \<subseteq> fset (fmdom m) \<Longrightarrow>
   map fst (List.map_filter (\<lambda>k. map_option (Pair k) (fmlookup m k)) ks) = ks"
  by (induction ks) (auto simp: List.map_filter_simps fmlookup_dom_iff)

lemma map_fst_range_map [simp]: "map fst (range_map ord p m) = visit ord p (fmdom m)"
  unfolding range_map_def by (rule map_filter_pairs) simp

lemma distinct_range_map [simp]: "distinct (map fst (range_map ord p m))"
  by simp

lemma set_range_map [simp]: "set (range_map ord p m) = {(k, v). fmlookup m k = Some v}"
  by (auto simp: range_map_def List.map_filter_def intro!: image_eqI fmdomI)

lemma length_range_map [simp]: "length (range_map ord p m) = map_len m"
proof -
  have "length (range_map ord p m) = length (visit ord p (fmdom m))"
    by (metis length_map map_fst_range_map)
  also have "\<dots> = card (set (visit ord p (fmdom m)))"
    by (rule distinct_card [symmetric]) simp
  finally show ?thesis by (simp add: map_len_def fcard.rep_eq)
qed

lemma distinct_range_map_pairs [simp]: "distinct (range_map ord p m)"
  using distinct_range_map [of ord p m] by (simp add: distinct_map del: distinct_range_map map_fst_range_map)

lemma mset_range_map: "mset (range_map ord p m) = mset (range_map ord' p' m)"
  by (subst set_eq_iff_mset_eq_distinct [symmetric]) auto

lemma range_map_empty [simp]: "range_map ord p fmempty = []"
  using length_range_map [of ord p fmempty] by (simp del: length_range_map)

lemma range_map_single [simp]: "range_map ord p (fmupd k v fmempty) = [(k, v)]"
proof -
  have "length (range_map ord p (fmupd k v fmempty)) = Suc 0" by (simp add: map_len_fmupd)
  then obtain x where x: "range_map ord p (fmupd k v fmempty) = [x]"
    by (auto simp: length_Suc_conv simp del: length_range_map)
  have "x \<in> set (range_map ord p (fmupd k v fmempty))" unfolding x by simp
  then have "x = (k, v)" by (auto split: if_splits)
  with x show ?thesis by simp
qed

text \<open>
  A loop over a map whose result does not depend on the order is modelled with this fixed order;
  a lemma beside the definition proves that any other order gives the same result.
\<close>

definition range_any :: "('k::linorder, 'v) fmap \<Rightarrow> ('k \<times> 'v) list" where
  "range_any m = range_map sorted_order [] m"

lemma set_range_any [simp]: "set (range_any m) = {(k, v). fmlookup m k = Some v}"
  by (simp add: range_any_def)

lemma distinct_range_any [simp]: "distinct (map fst (range_any m))"
  unfolding range_any_def by (rule distinct_range_map)

subsection \<open>Loops that collect events\<close>

text \<open>
  \<open>for _, x := range xs { events = append(events, body(x)...) }\<close> over a slice, where \<open>body\<close>
  also updates the state.
\<close>

primrec loop_events :: "('a \<Rightarrow> 's \<Rightarrow> 'e list \<times> 's) \<Rightarrow> 'a list \<Rightarrow> 's \<Rightarrow> 'e list \<times> 's" where
  "loop_events body [] s = ([], s)"
| "loop_events body (x # xs) s =
     (let (es, s1) = body x s; (es', s2) = loop_events body xs s1 in (es @ es', s2))"

lemma fst_loop_Cons [simp]:
  "fst (loop_events body (x # xs) s) =
     fst (body x s) @ fst (loop_events body xs (snd (body x s)))"
  by (simp add: case_prod_beta)

lemma snd_loop_Cons [simp]:
  "snd (loop_events body (x # xs) s) = snd (loop_events body xs (snd (body x s)))"
  by (simp add: case_prod_beta)

declare loop_events.simps(2) [simp del]

lemma loop_events_append:
  "fst (loop_events body (xs @ ys) s) =
     fst (loop_events body xs s) @ fst (loop_events body ys (snd (loop_events body xs s)))"
  "snd (loop_events body (xs @ ys) s) = snd (loop_events body ys (snd (loop_events body xs s)))"
  by (induction xs arbitrary: s) simp_all

lemma loop_events_filter:
  "(\<And>x s. x \<in> set xs \<Longrightarrow> \<not> P x \<Longrightarrow> body x s = ([], s)) \<Longrightarrow>
   loop_events body xs s = loop_events body (filter P xs) s"
  by (induction xs arbitrary: s) (auto intro!: prod_eqI)

lemma loop_events_cong_body:
  "(\<And>x s. x \<in> set xs \<Longrightarrow> body x s = body' x s) \<Longrightarrow>
   loop_events body xs s = loop_events body' xs s"
  by (induction xs arbitrary: s) (auto intro!: prod_eqI)

text \<open>The same for a body that may panic (\<open>None\<close>): the first panic ends the loop.\<close>

primrec run_all :: "('a \<Rightarrow> 's \<Rightarrow> ('e list \<times> 's) option) \<Rightarrow> 'a list \<Rightarrow> 's \<Rightarrow> ('e list \<times> 's) option" where
  "run_all body [] s = Some ([], s)"
| "run_all body (x # xs) s =
     (case body x s of
        None \<Rightarrow> None
      | Some (es, s1) \<Rightarrow>
          (case run_all body xs s1 of None \<Rightarrow> None | Some (es', s2) \<Rightarrow> Some (es @ es', s2)))"

lemma run_all_Cons_Some:
  "run_all body (x # xs) s = Some (es, s2) \<longleftrightarrow>
     (\<exists>es1 s1 es2. body x s = Some (es1, s1) \<and> run_all body xs s1 = Some (es2, s2) \<and> es = es1 @ es2)"
  by (auto split: option.splits)

text \<open>
  The contract of one loop body: it keeps an invariant of the state, and every event it emits is
  good, for every legal element of the slice. The loop then has the same contract.
\<close>

locale event_step =
  fixes body :: "'a \<Rightarrow> 's \<Rightarrow> 'e list \<times> 's"
    and inv :: "'s \<Rightarrow> bool"
    and good :: "'e \<Rightarrow> bool"
    and legal :: "'a \<Rightarrow> bool"
  assumes step_inv: "inv s \<Longrightarrow> legal a \<Longrightarrow> inv (snd (body a s))"
    and step_good: "inv s \<Longrightarrow> legal a \<Longrightarrow> e \<in> set (fst (body a s)) \<Longrightarrow> good e"
begin

lemma loop_inv: "inv s \<Longrightarrow> list_all legal xs \<Longrightarrow> inv (snd (loop_events body xs s))"
  by (induction xs arbitrary: s) (simp_all add: step_inv)

lemma loop_good:
  "inv s \<Longrightarrow> list_all legal xs \<Longrightarrow> e \<in> set (fst (loop_events body xs s)) \<Longrightarrow> good e"
proof (induction xs arbitrary: s)
  case (Cons a xs)
  then show ?case by (auto dest: step_good intro: step_inv Cons.IH)
qed simp

end

text \<open>
  A stronger contract: the state has a view (what somebody else should know of it), and applying
  the emitted events to the view before the step gives the view after it.
\<close>

locale tracked_step = event_step body inv good legal
  for body :: "'a \<Rightarrow> 's \<Rightarrow> 'e list \<times> 's"
    and inv :: "'s \<Rightarrow> bool"
    and good :: "'e \<Rightarrow> bool"
    and legal :: "'a \<Rightarrow> bool" +
  fixes view :: "'s \<Rightarrow> 'l set"
    and apply_event :: "'e \<Rightarrow> 'l set \<Rightarrow> 'l set"
  assumes step_tracked:
    "inv s \<Longrightarrow> legal a \<Longrightarrow> fold apply_event (fst (body a s)) (view s) = view (snd (body a s))"
begin

lemma loop_tracked:
  "inv s \<Longrightarrow> list_all legal xs \<Longrightarrow>
   fold apply_event (fst (loop_events body xs s)) (view s) = view (snd (loop_events body xs s))"
  by (induction xs arbitrary: s) (simp_all add: step_inv step_tracked)

end

text \<open>
  A body that works on one key: it reads and writes only the state's value at its key, and doing it
  twice changes nothing more and emits nothing new. The loop then treats every key of the slice
  once, from its value before the loop, whatever the order and the repetitions.
\<close>

locale keyed_step =
  fixes body :: "'k \<Rightarrow> 's \<Rightarrow> 'e list \<times> 's"
    and val :: "'s \<Rightarrow> 'k \<Rightarrow> 'v"
    and upd :: "'k \<Rightarrow> 'v \<Rightarrow> 'v"
    and evs :: "'k \<Rightarrow> 'v \<Rightarrow> 'e set"
  assumes step_val: "val (snd (body k s)) k' = (if k' = k then upd k (val s k) else val s k')"
    and step_evs: "set (fst (body k s)) = evs k (val s k)"
    and upd_again: "upd k (upd k v) = upd k v"
    and evs_again: "evs k (upd k v) \<subseteq> evs k v"
begin

lemma loop_val:
  "val (snd (loop_events body ks s)) k = (if k \<in> set ks then upd k (val s k) else val s k)"
  by (induction ks arbitrary: s) (auto simp: step_val upd_again)

lemma loop_evs: "set (fst (loop_events body ks s)) = (\<Union>k \<in> set ks. evs k (val s k))"
proof (induction ks arbitrary: s)
  case (Cons k ks)
  let ?s = "snd (body k s)"
  have sub: "evs l (val ?s l) \<subseteq> evs l (val s l)" for l
    by (simp add: step_val evs_again)
  have eq: "evs l (val ?s l) = evs l (val s l)" if "l \<noteq> k" for l
    using that by (simp add: step_val)
  have "x \<in> (\<Union>l \<in> set ks. evs l (val ?s l)) \<union> evs k (val s k)" if "x \<in> evs l (val s l)" "l \<in> set ks" for x l
    using that eq [of l] by (cases "l = k") auto
  then have "(\<Union>l \<in> set ks. evs l (val ?s l)) \<union> evs k (val s k) =
      (\<Union>l \<in> set ks. evs l (val s l)) \<union> evs k (val s k)"
    using sub by (intro equalityI subsetI) blast+
  then show ?case by (auto simp: Cons.IH step_evs)
qed simp

end

end
