(* ===== verification/Bbs_Models.thy ===== *)
theory Bbs_Models
  imports Tcp_Prelude
begin

text \<open>
  The data the emitter receives from the BBS (package \<open>code.cloudfoundry.org/bbs/models\<close>) and
  from \<open>routing-info/tcp_routes\<close>. Their sources are not in this repository. The records hold the
  fields this repository reads; the functions it calls on them are parameters, gathered in the
  record \<open>bbs_models\<close> that every operation using them takes as an argument.

  Pointers the code dereferences without a test are options where the source type is an optional
  pointer (\<open>DesiredLRP.Routes\<close>, \<open>DesiredLRP.ModificationTag\<close>): \<open>None\<close> is nil, and reading it
  panics. A panic is the result \<open>None\<close> of an operation.
\<close>

subsection \<open>Data\<close>

record modification_tag =
  mt_Epoch :: string
  mt_Index :: uint32

type_synonym routes = "(string, string option) fmap"

record tcp_route =
  tr_RouterGroupGuid :: string
  tr_ExternalPort :: uint32
  tr_ContainerPort :: uint32

record scheduling_info =
  si_ProcessGuid :: string
  si_LogGuid :: string
  si_Routes :: routes
  si_ModificationTag :: modification_tag

record desired_lrp =
  dlrp_ProcessGuid :: string
  dlrp_LogGuid :: string
  dlrp_Ports :: "uint32 list"
  dlrp_Routes :: "routes option"
  dlrp_ModificationTag :: "modification_tag option"

record port_mapping =
  pm_HostPort :: uint32
  pm_ContainerPort :: uint32

record actual_lrp =
  alrp_ProcessGuid :: string
  alrp_Index :: int
  alrp_Domain :: string
  alrp_InstanceGuid :: string
  alrp_CellId :: string
  alrp_Address :: string
  alrp_Ports :: "port_mapping list"
  alrp_State :: string
  alrp_ModificationTag :: modification_tag

record actual_lrp_group =
  ag_Instance :: "actual_lrp option"
  ag_Evacuating :: "actual_lrp option"

text \<open>
  \<open>models.Event\<close>: the six kinds the type switch of the handler knows, and every other event with
  the name \<open>EventType()\<close> gives it. The LRPs and groups of an event are pointers, nil (\<open>None\<close>) where the
  message left the field out.
\<close>

datatype bbs_event =
    DesiredLRPCreatedEvent "desired_lrp option"
  | DesiredLRPChangedEvent "desired_lrp option" "desired_lrp option"
  | DesiredLRPRemovedEvent "desired_lrp option"
  | ActualLRPCreatedEvent "actual_lrp_group option"
  | ActualLRPChangedEvent "actual_lrp_group option" "actual_lrp_group option"
  | ActualLRPRemovedEvent "actual_lrp_group option"
  | UnrecognizedEvent string

subsection \<open>The functions the code calls\<close>

text \<open>
  \<^item> \<open>SucceededBy\<close> and \<open>TagEqual\<close>: the methods of \<open>*ModificationTag\<close>; the receiver may be nil.
  \<^item> \<open>Resolve\<close>: \<open>ActualLRPGroup.Resolve()\<close>, the LRP and whether it is the evacuating one; \<open>None\<close>
    when the call or the read of the LRP it returns panics.
  \<^item> \<open>TCPRoutesFromRoutingInfo\<close>: the routes and the error (which the code ignores).
  \<^item> The constants \<open>models.ActualLRPStateRunning\<close>, \<open>cfroutes.CF_ROUTER\<close>, \<open>tcp_routes.TCP_ROUTER\<close>.
\<close>

record bbs_models =
  SucceededBy :: "modification_tag option \<Rightarrow> modification_tag option \<Rightarrow> bool"
  TagEqual :: "modification_tag option \<Rightarrow> modification_tag option \<Rightarrow> bool"
  Resolve :: "actual_lrp_group \<Rightarrow> (actual_lrp \<times> bool) option"
  TCPRoutesFromRoutingInfo :: "routes \<Rightarrow> tcp_route list \<times> string option"
  ActualLRPStateRunning :: string
  CF_ROUTER :: string
  TCP_ROUTER :: string

subsection \<open>A concrete instance for witnesses\<close>

text \<open>
  One possible instance of the parameter, small enough to evaluate; only witnesses and examples
  mention it. Tags are ordered by index within an epoch; a group resolves to its instance where
  there is one; a route is two characters of the raw message, the external and the container port.
\<close>

fun sample_SucceededBy :: "modification_tag option \<Rightarrow> modification_tag option \<Rightarrow> bool" where
  "sample_SucceededBy None _ = True"
| "sample_SucceededBy (Some t) None = False"
| "sample_SucceededBy (Some t) (Some u) = (mt_Epoch t \<noteq> mt_Epoch u \<or> mt_Index t < mt_Index u)"

fun sample_decode :: "string \<Rightarrow> tcp_route list" where
  "sample_decode (a # b # cs) =
     \<lparr>tr_RouterGroupGuid = ''rg'', tr_ExternalPort = of_char a, tr_ContainerPort = of_char b\<rparr>
     # sample_decode cs"
| "sample_decode _ = []"

definition sample_routes :: "routes \<Rightarrow> tcp_route list \<times> string option" where
  "sample_routes r =
     (case fmlookup r ''tcp'' of Some (Some raw) \<Rightarrow> (sample_decode raw, None) | _ \<Rightarrow> ([], None))"

fun sample_Resolve :: "actual_lrp_group \<Rightarrow> (actual_lrp \<times> bool) option" where
  "sample_Resolve g =
     (case ag_Instance g of
        Some a \<Rightarrow> Some (a, False)
      | None \<Rightarrow> map_option (\<lambda>a. (a, True)) (ag_Evacuating g))"

definition sample_bbs :: bbs_models where
  "sample_bbs =
     \<lparr>SucceededBy = sample_SucceededBy,
      TagEqual = (\<lambda>t u. t \<noteq> None \<and> t = u),
      Resolve = sample_Resolve,
      TCPRoutesFromRoutingInfo = sample_routes,
      ActualLRPStateRunning = ''RUNNING'',
      CF_ROUTER = ''cf'',
      TCP_ROUTER = ''tcp''\<rparr>"

definition raw_routes :: "string \<Rightarrow> routes" where
  "raw_routes raw = fmupd ''tcp'' (Some raw) fmempty"

lemma sample_bbs_simps [simp]:
  "SucceededBy sample_bbs = sample_SucceededBy"
  "TagEqual sample_bbs = (\<lambda>t u. t \<noteq> None \<and> t = u)"
  "Resolve sample_bbs = sample_Resolve"
  "TCPRoutesFromRoutingInfo sample_bbs = sample_routes"
  "ActualLRPStateRunning sample_bbs = ''RUNNING''"
  by (simp_all add: sample_bbs_def)

lemma sample_routes_raw [simp]: "sample_routes (raw_routes raw) = (sample_decode raw, None)"
  by (simp add: sample_routes_def raw_routes_def)

text \<open>A desired LRP and an actual LRP of the process \<open>''p''\<close>, for witnesses.\<close>

definition sample_tag :: "uint32 \<Rightarrow> modification_tag" where
  "sample_tag i = \<lparr>mt_Epoch = ''e'', mt_Index = i\<rparr>"

definition sample_info :: "string \<Rightarrow> uint32 \<Rightarrow> scheduling_info" where
  "sample_info raw i =
     \<lparr>si_ProcessGuid = ''p'', si_LogGuid = ''log'', si_Routes = raw_routes raw,
      si_ModificationTag = sample_tag i\<rparr>"

definition sample_desired :: "string \<Rightarrow> uint32 \<Rightarrow> desired_lrp" where
  "sample_desired raw i =
     \<lparr>dlrp_ProcessGuid = ''p'', dlrp_LogGuid = ''log'', dlrp_Ports = [],
      dlrp_Routes = Some (raw_routes raw), dlrp_ModificationTag = Some (sample_tag i)\<rparr>"

definition sample_lrp :: "string \<Rightarrow> uint32 \<Rightarrow> actual_lrp" where
  "sample_lrp inst i =
     \<lparr>alrp_ProcessGuid = ''p'', alrp_Index = 0, alrp_Domain = ''d'', alrp_InstanceGuid = inst,
      alrp_CellId = ''c'', alrp_Address = ''10.0.0.1'',
      alrp_Ports = [\<lparr>pm_HostPort = 9000, pm_ContainerPort = 66\<rparr>],
      alrp_State = ''RUNNING'', alrp_ModificationTag = sample_tag i\<rparr>"

definition sample_group :: "string \<Rightarrow> uint32 \<Rightarrow> actual_lrp_group" where
  "sample_group inst i = \<lparr>ag_Instance = Some (sample_lrp inst i), ag_Evacuating = None\<rparr>"

lemmas sample_defs = sample_tag_def sample_info_def sample_desired_def sample_lrp_def sample_group_def

end
