(* ===== verification/Endpoint.thy ===== *)
theory Endpoint
  imports Bbs_Models
begin

text \<open>
  \<open>routing_table/schema/endpoint/endpoint.go\<close>: endpoints, external endpoints, routing keys and
  the table entry \<open>RoutableEndpoints\<close>. The two structs that serve as map keys are datatypes with
  the struct's fields as selectors, ordered field by field. A nil slice and an empty one are the
  same list, a nil map and an empty one the same finite map: no operation tells them apart, and
  every write goes to a map \<open>Copy\<close> made.
\<close>

subsection \<open>Map keys\<close>

datatype endpoint_key = EndpointKey (ek_InstanceGUID: string) (ek_Evacuating: bool)

datatype routing_key = RoutingKey (rk_ProcessGUID: string) (rk_ContainerPort: uint32)

instantiation endpoint_key :: linorder
begin

definition less_endpoint_key :: "endpoint_key \<Rightarrow> endpoint_key \<Rightarrow> bool" where
  "a < b \<longleftrightarrow> ek_InstanceGUID a < ek_InstanceGUID b \<or>
     ek_InstanceGUID a = ek_InstanceGUID b \<and> ek_Evacuating a < ek_Evacuating b"

definition less_eq_endpoint_key :: "endpoint_key \<Rightarrow> endpoint_key \<Rightarrow> bool" where
  "a \<le> b \<longleftrightarrow> a < b \<or> a = (b :: endpoint_key)"

instance
  by standard
    (auto simp: less_endpoint_key_def less_eq_endpoint_key_def intro: endpoint_key.expand)

end

instantiation routing_key :: linorder
begin

definition less_routing_key :: "routing_key \<Rightarrow> routing_key \<Rightarrow> bool" where
  "a < b \<longleftrightarrow> rk_ProcessGUID a < rk_ProcessGUID b \<or>
     rk_ProcessGUID a = rk_ProcessGUID b \<and> rk_ContainerPort a < rk_ContainerPort b"

definition less_eq_routing_key :: "routing_key \<Rightarrow> routing_key \<Rightarrow> bool" where
  "a \<le> b \<longleftrightarrow> a < b \<or> a = (b :: routing_key)"

instance
  by standard
    (auto simp: less_routing_key_def less_eq_routing_key_def intro: routing_key.expand)

end

definition NewEndpointKey :: "string \<Rightarrow> bool \<Rightarrow> endpoint_key" where
  "NewEndpointKey instanceGUID evacuating = EndpointKey instanceGUID evacuating"

definition NewRoutingKey :: "string \<Rightarrow> uint32 \<Rightarrow> routing_key" where
  "NewRoutingKey processGUID containerPort = RoutingKey processGUID containerPort"

subsection \<open>Endpoints and entries\<close>

record endpoint =
  ep_InstanceGUID :: string
  ep_Host :: string
  ep_Port :: uint32
  ep_ContainerPort :: uint32
  ep_Evacuating :: bool
  ep_ModificationTag :: "modification_tag option"

definition endpoint_Key :: "endpoint \<Rightarrow> endpoint_key" where
  "endpoint_Key e = EndpointKey (ep_InstanceGUID e) (ep_Evacuating e)"

definition NewEndpoint ::
  "string \<Rightarrow> bool \<Rightarrow> string \<Rightarrow> uint32 \<Rightarrow> uint32 \<Rightarrow> modification_tag option \<Rightarrow> endpoint" where
  "NewEndpoint instanceGUID evacuating host port containerPort modificationTag =
     \<lparr>ep_InstanceGUID = instanceGUID, ep_Host = host, ep_Port = port,
      ep_ContainerPort = containerPort, ep_Evacuating = evacuating,
      ep_ModificationTag = modificationTag\<rparr>"

record external_endpoint_info =
  ee_RouterGroupGUID :: string
  ee_Port :: uint32

definition NewExternalEndpointInfo :: "string \<Rightarrow> uint32 \<Rightarrow> external_endpoint_info" where
  "NewExternalEndpointInfo routerGroupGUID port =
     \<lparr>ee_RouterGroupGUID = routerGroupGUID, ee_Port = port\<rparr>"

record routable_endpoints =
  re_ExternalEndpoints :: "external_endpoint_info list"
  re_Endpoints :: "(endpoint_key, endpoint) fmap"
  re_LogGUID :: string
  re_ModificationTag :: "modification_tag option"

definition NewRoutableEndpoints ::
  "external_endpoint_info list \<Rightarrow> (endpoint_key, endpoint) fmap \<Rightarrow> string \<Rightarrow>
   modification_tag option \<Rightarrow> routable_endpoints" where
  "NewRoutableEndpoints externalEndPoint endpoints logGUID modificationTag =
     \<lparr>re_ExternalEndpoints = externalEndPoint, re_Endpoints = endpoints,
      re_LogGUID = logGUID, re_ModificationTag = modificationTag\<rparr>"

text \<open>The zero value of the struct: what \<open>table.entries[key]\<close> gives for a missing key.\<close>

definition zero_entry :: routable_endpoints where
  "zero_entry = NewRoutableEndpoints [] fmempty '''' None"

subsection \<open>Copy\<close>

text \<open>\<open>for k, v := range entry.Endpoints { clone.Endpoints[k] = v }\<close>\<close>

definition copy_endpoints ::
  "(endpoint_key \<times> endpoint) list \<Rightarrow> (endpoint_key, endpoint) fmap" where
  "copy_endpoints kvs = fold (\<lambda>(k, v) clone. fmupd k v clone) kvs fmempty"

definition Copy :: "routable_endpoints \<Rightarrow> routable_endpoints" where
  "Copy entry =
     \<lparr>re_ExternalEndpoints = re_ExternalEndpoints entry,
      re_Endpoints = copy_endpoints (range_any (re_Endpoints entry)),
      re_LogGUID = re_LogGUID entry,
      re_ModificationTag = re_ModificationTag entry\<rparr>"

subsection \<open>Conversions from the BBS data\<close>

definition NewEndpointsFromActual ::
  "bbs_models \<Rightarrow> actual_lrp_group \<Rightarrow> (uint32, endpoint) fmap option" where
  "NewEndpointsFromActual bbs actualGrp = do {
     (actual, evacuating) \<leftarrow> Resolve bbs actualGrp;
     Some (fold (\<lambda>portMapping endpoints.
              fmupd (pm_ContainerPort portMapping)
                (NewEndpoint (alrp_InstanceGuid actual) evacuating (alrp_Address actual)
                   (pm_HostPort portMapping) (pm_ContainerPort portMapping)
                   (Some (alrp_ModificationTag actual)))
                endpoints)
            (alrp_Ports actual) fmempty)
   }"

definition NewRoutingKeysFromActual ::
  "bbs_models \<Rightarrow> actual_lrp_group \<Rightarrow> routing_key list option" where
  "NewRoutingKeysFromActual bbs actualGrp = do {
     (actual, _) \<leftarrow> Resolve bbs actualGrp;
     Some (map (\<lambda>portMapping. NewRoutingKey (alrp_ProcessGuid actual) (pm_ContainerPort portMapping))
            (alrp_Ports actual))
   }"

definition NewRoutingKeysFromDesired :: "string \<Rightarrow> tcp_route list \<Rightarrow> routing_key list" where
  "NewRoutingKeysFromDesired processGuid routes =
     map (\<lambda>route. NewRoutingKey processGuid (tr_ContainerPort route)) routes"

subsection \<open>Tests and set operations\<close>

definition HasNoExternalPorts :: "external_endpoint_info list \<Rightarrow> bool" where
  "HasNoExternalPorts e \<longleftrightarrow> length e = 0"

definition HaveEndpointsChanged ::
  "bbs_models \<Rightarrow> routable_endpoints \<Rightarrow> routable_endpoints \<Rightarrow> bool" where
  "HaveEndpointsChanged bbs e newEntry =
     (if map_len (re_Endpoints e) \<noteq> map_len (re_Endpoints newEntry) then True
      else list_ex
        (\<lambda>(key, newEndpoint).
           case fmlookup (re_Endpoints e) key of
             None \<Rightarrow> True
           | Some existingEndpoint \<Rightarrow>
               SucceededBy bbs (ep_ModificationTag existingEndpoint) (ep_ModificationTag newEndpoint))
        (range_any (re_Endpoints newEntry)))"

definition HaveExternalEndpointsChanged :: "routable_endpoints \<Rightarrow> routable_endpoints \<Rightarrow> bool" where
  "HaveExternalEndpointsChanged e newEntry =
     (if length (re_ExternalEndpoints e) \<noteq> length (re_ExternalEndpoints newEntry) then True
      else list_ex
        (\<lambda>existing. \<not> list_ex (\<lambda>proposed. ee_Port proposed = ee_Port existing)
                          (re_ExternalEndpoints newEntry))
        (re_ExternalEndpoints e))"

fun ContainsExternalPort :: "external_endpoint_info list \<Rightarrow> uint32 \<Rightarrow> bool" where
  "ContainsExternalPort [] port = False"
| "ContainsExternalPort (existing # e) port =
     (if ee_Port existing = port then True else ContainsExternalPort e port)"

fun ext_Remove ::
  "external_endpoint_info list \<Rightarrow> external_endpoint_info list \<Rightarrow> external_endpoint_info list" where
  "ext_Remove [] setB = []"
| "ext_Remove (externalEndpoint # setA) setB =
     (if \<not> ContainsExternalPort setB (ee_Port externalEndpoint)
      then NewExternalEndpointInfo (ee_RouterGroupGUID externalEndpoint) (ee_Port externalEndpoint)
           # ext_Remove setA setB
      else ext_Remove setA setB)"

definition RemoveExternalEndpoints ::
  "routable_endpoints \<Rightarrow> external_endpoint_info list \<Rightarrow> routable_endpoints" where
  "RemoveExternalEndpoints entry externalEndpoints =
     (Copy entry)\<lparr>re_ExternalEndpoints := ext_Remove (re_ExternalEndpoints entry) externalEndpoints\<rparr>"

fun containsRoutingKey :: "routing_key list \<Rightarrow> routing_key \<Rightarrow> bool" where
  "containsRoutingKey [] routingKey = False"
| "containsRoutingKey (lhsKey # lhs) routingKey =
     (if lhsKey = routingKey then True else containsRoutingKey lhs routingKey)"

fun keys_Remove :: "routing_key list \<Rightarrow> routing_key list \<Rightarrow> routing_key list" where
  "keys_Remove [] rhs = []"
| "keys_Remove (lhsKey # lhs) rhs =
     (if \<not> containsRoutingKey rhs lhsKey then lhsKey # keys_Remove lhs rhs
      else keys_Remove lhs rhs)"

subsection \<open>Lemmas: ports and keys as sets\<close>

definition ports :: "external_endpoint_info list \<Rightarrow> uint32 set" where
  "ports e = ee_Port ` set e"

lemma ports_simps [simp]:
  "ports [] = {}"
  "ports (x # xs) = insert (ee_Port x) (ports xs)"
  "ports (xs @ ys) = ports xs \<union> ports ys"
  by (auto simp: ports_def)

lemma ports_empty_iff [simp]: "ports e = {} \<longleftrightarrow> e = []"
  by (simp add: ports_def)

lemma ports_iff: "p \<in> ports e \<longleftrightarrow> (\<exists>x \<in> set e. ee_Port x = p)"
  by (auto simp: ports_def)

lemma ports_subset: "ports e \<subseteq> ports e' \<longleftrightarrow> (\<forall>x \<in> set e. ee_Port x \<in> ports e')"
  by (auto simp: ports_def)

lemma ContainsExternalPort_iff [simp]: "ContainsExternalPort e p \<longleftrightarrow> p \<in> ports e"
  by (induction e) auto

lemma ext_Remove_filter: "ext_Remove a b = filter (\<lambda>x. ee_Port x \<notin> ports b) a"
  by (induction a) (auto simp: NewExternalEndpointInfo_def)

lemma ports_ext_Remove [simp]: "ports (ext_Remove a b) = ports a - ports b"
  by (auto simp: ext_Remove_filter ports_def)

lemma ext_Remove_eq_Nil: "ext_Remove a b = [] \<longleftrightarrow> ports a \<subseteq> ports b"
  by (auto simp: ext_Remove_filter filter_empty_conv ports_def)

lemma ext_Remove_Nil2 [simp]: "ext_Remove a [] = a"
  by (simp add: ext_Remove_filter)

lemma containsRoutingKey_iff [simp]: "containsRoutingKey ks k \<longleftrightarrow> k \<in> set ks"
  by (induction ks) auto

lemma keys_Remove_filter: "keys_Remove ks ls = filter (\<lambda>k. k \<notin> set ls) ks"
  by (induction ks) auto

lemma HasNoExternalPorts_iff [simp]: "HasNoExternalPorts e \<longleftrightarrow> e = []"
  by (simp add: HasNoExternalPorts_def)

lemma NewEndpoint_simps [simp]:
  "ep_InstanceGUID (NewEndpoint g v h p c t) = g" "ep_Evacuating (NewEndpoint g v h p c t) = v"
  "ep_Host (NewEndpoint g v h p c t) = h" "ep_Port (NewEndpoint g v h p c t) = p"
  "ep_ContainerPort (NewEndpoint g v h p c t) = c"
  "ep_ModificationTag (NewEndpoint g v h p c t) = t"
  by (simp_all add: NewEndpoint_def)

lemma NewExternalEndpointInfo_simps [simp]:
  "ee_RouterGroupGUID (NewExternalEndpointInfo g p) = g" "ee_Port (NewExternalEndpointInfo g p) = p"
  by (simp_all add: NewExternalEndpointInfo_def)

lemma NewRoutingKey_simps [simp]:
  "rk_ProcessGUID (NewRoutingKey g p) = g" "rk_ContainerPort (NewRoutingKey g p) = p"
  by (simp_all add: NewRoutingKey_def)

lemma NewRoutingKey_eq_iff [simp]: "NewRoutingKey g p = NewRoutingKey g' p' \<longleftrightarrow> g = g' \<and> p = p'"
  by (simp add: NewRoutingKey_def)

lemma NewRoutingKey_sel: "k = NewRoutingKey g p \<longleftrightarrow> rk_ProcessGUID k = g \<and> rk_ContainerPort k = p"
  by (cases k) (auto simp: NewRoutingKey_def)

lemma zero_entry_simps [simp]:
  "re_ExternalEndpoints zero_entry = []" "re_Endpoints zero_entry = fmempty"
  "re_LogGUID zero_entry = ''''" "re_ModificationTag zero_entry = None"
  by (simp_all add: zero_entry_def NewRoutableEndpoints_def)

subsection \<open>Lemmas: Copy\<close>

lemma fold_fmupd_lookup:
  "distinct (map fst kvs) \<Longrightarrow>
   fmlookup (fold (\<lambda>(k, v) m. fmupd k v m) kvs m) k =
     (case map_of kvs k of None \<Rightarrow> fmlookup m k | Some v \<Rightarrow> Some v)"
proof (induction kvs arbitrary: m)
  case (Cons kv kvs)
  obtain a b where kv: "kv = (a, b)" by (cases kv)
  with Cons.prems have "map_of kvs a = None" by (simp add: map_of_eq_None_iff)
  with Cons kv show ?case by (auto split: option.splits simp del: map_of_eq_Some_iff)
qed simp

lemma map_of_range_map: "map_of (range_map ord p m) k = fmlookup m k"
proof (cases "fmlookup m k")
  case None
  then have "k \<notin> fst ` set (range_map ord p m)" by auto
  with None show ?thesis by (simp add: map_of_eq_None_iff)
next
  case (Some v)
  then have "(k, v) \<in> set (range_map ord p m)" by simp
  with Some show ?thesis by (simp add: map_of_is_SomeI)
qed

lemma copy_range_map: "copy_endpoints (range_map ord p m) = m"
proof (rule fmap_ext)
  fix k
  have "fmlookup (copy_endpoints (range_map ord p m)) k =
      (case map_of (range_map ord p m) k of None \<Rightarrow> fmlookup fmempty k | Some v \<Rightarrow> Some v)"
    unfolding copy_endpoints_def by (rule fold_fmupd_lookup) simp
  then show "fmlookup (copy_endpoints (range_map ord p m)) k = fmlookup m k"
    by (simp add: map_of_range_map split: option.splits)
qed

lemma Copy_id [simp]: "Copy entry = entry"
  by (simp add: Copy_def range_any_def copy_range_map)

lemma RemoveExternalEndpoints_simps [simp]:
  "re_ExternalEndpoints (RemoveExternalEndpoints e x) = ext_Remove (re_ExternalEndpoints e) x"
  "re_Endpoints (RemoveExternalEndpoints e x) = re_Endpoints e"
  "re_LogGUID (RemoveExternalEndpoints e x) = re_LogGUID e"
  "re_ModificationTag (RemoveExternalEndpoints e x) = re_ModificationTag e"
  by (simp_all add: RemoveExternalEndpoints_def)

subsection \<open>Lemmas: endpoints of an actual LRP\<close>

text \<open>The endpoint an LRP's port mapping gives.\<close>

definition lrp_endpoint :: "actual_lrp \<Rightarrow> bool \<Rightarrow> port_mapping \<Rightarrow> endpoint" where
  "lrp_endpoint a ev pm =
     NewEndpoint (alrp_InstanceGuid a) ev (alrp_Address a) (pm_HostPort pm) (pm_ContainerPort pm)
       (Some (alrp_ModificationTag a))"

lemma lrp_endpoint_simps [simp]:
  "ep_ContainerPort (lrp_endpoint a ev pm) = pm_ContainerPort pm"
  "ep_ModificationTag (lrp_endpoint a ev pm) = Some (alrp_ModificationTag a)"
  "endpoint_Key (lrp_endpoint a ev pm) = EndpointKey (alrp_InstanceGuid a) ev"
  by (simp_all add: lrp_endpoint_def endpoint_Key_def)

lemma fold_fmupd_last:
  "fmlookup (fold (\<lambda>x m. fmupd (key x) (val x) m) xs m0) k =
     (case find (\<lambda>x. key x = k) (rev xs) of None \<Rightarrow> fmlookup m0 k | Some x \<Rightarrow> Some (val x))"
  by (induction xs rule: rev_induct) auto

lemma NewEndpointsFromActual_lookup:
  "Resolve bbs g = Some (a, ev) \<Longrightarrow>
   \<exists>m. NewEndpointsFromActual bbs g = Some m \<and>
     (\<forall>p. fmlookup m p =
        map_option (lrp_endpoint a ev) (find (\<lambda>pm. pm_ContainerPort pm = p) (rev (alrp_Ports a))))"
  by (simp add: NewEndpointsFromActual_def lrp_endpoint_def fold_fmupd_last split: option.splits)

subsection \<open>Lemmas: change tests\<close>

lemma HaveEndpointsChanged_iff:
  "HaveEndpointsChanged bbs e e' \<longleftrightarrow>
     map_len (re_Endpoints e) \<noteq> map_len (re_Endpoints e') \<or>
     (\<exists>k n. fmlookup (re_Endpoints e') k = Some n \<and>
        (case fmlookup (re_Endpoints e) k of None \<Rightarrow> True
         | Some x \<Rightarrow> SucceededBy bbs (ep_ModificationTag x) (ep_ModificationTag n)))"
  by (auto simp: HaveEndpointsChanged_def list_ex_iff)

lemma HaveExternalEndpointsChanged_iff:
  "HaveExternalEndpointsChanged e e' \<longleftrightarrow>
     length (re_ExternalEndpoints e) \<noteq> length (re_ExternalEndpoints e') \<or>
     \<not> ports (re_ExternalEndpoints e) \<subseteq> ports (re_ExternalEndpoints e')"
  by (auto simp: HaveExternalEndpointsChanged_def list_ex_iff ports_subset ports_iff)

subsection \<open>Properties\<close>

text \<open>
  \<open>Copy\<close> gives an entry equal to the original in every field, and its copying loop rebuilds
  the endpoint map whatever order Go's \<open>range\<close> takes. Mutating the copy's map instead of the
  original's is therefore the only difference the callers can see.
\<close>

lemma Copy_faithful:
  "Copy entry = entry \<and> copy_endpoints (range_map ord p (re_Endpoints entry)) = re_Endpoints entry"
  by (simp add: copy_range_map)

text \<open>
  \<open>RemoveExternalEndpoints\<close> subtracts by port and by port only: it keeps, in order and with
  their router groups, the external endpoints whose port is not among the given ones, and no other
  field of the entry changes.
\<close>

lemma RemoveExternalEndpoints_spec:
  "RemoveExternalEndpoints entry b =
     entry\<lparr>re_ExternalEndpoints :=
       filter (\<lambda>x. ee_Port x \<notin> ee_Port ` set b) (re_ExternalEndpoints entry)\<rparr>"
  by (simp add: RemoveExternalEndpoints_def ext_Remove_filter ports_def)

text \<open>
  \<open>HaveExternalEndpointsChanged\<close> reports no change exactly when the two lists have the same
  length and every old port is still among the new ones. It does not look for new ports: with a
  port listed twice before, a new port that replaces the duplicate goes unreported.
\<close>

lemma HaveExternalEndpointsChanged_spec:
  "(\<not> HaveExternalEndpointsChanged e e' \<longleftrightarrow>
      length (re_ExternalEndpoints e) = length (re_ExternalEndpoints e') \<and>
      ee_Port ` set (re_ExternalEndpoints e) \<subseteq> ee_Port ` set (re_ExternalEndpoints e'))
   \<and> \<not> HaveExternalEndpointsChanged
        (zero_entry\<lparr>re_ExternalEndpoints := [NewExternalEndpointInfo g p, NewExternalEndpointInfo g p]\<rparr>)
        (zero_entry\<lparr>re_ExternalEndpoints := [NewExternalEndpointInfo g p, NewExternalEndpointInfo g q]\<rparr>)"
  by (auto simp: HaveExternalEndpointsChanged_iff ports_def)

text \<open>
  \<open>NewEndpointsFromActual\<close> panics exactly where \<open>Resolve\<close> does. Otherwise it maps exactly the
  container ports of the resolved LRP, each to an endpoint with that container port, the LRP's
  instance guid, address, evacuation flag and tag, and the host port of the last mapping of that
  container port.
\<close>

lemma NewEndpointsFromActual_spec:
  "case Resolve bbs g of
     None \<Rightarrow> NewEndpointsFromActual bbs g = None
   | Some (a, ev) \<Rightarrow>
       (\<exists>m. NewEndpointsFromActual bbs g = Some m \<and>
          (\<forall>p. fmlookup m p =
             map_option
               (\<lambda>pm. NewEndpoint (alrp_InstanceGuid a) ev (alrp_Address a) (pm_HostPort pm) p
                       (Some (alrp_ModificationTag a)))
               (find (\<lambda>pm. pm_ContainerPort pm = p) (rev (alrp_Ports a)))))"
proof (cases "Resolve bbs g")
  case None
  then show ?thesis by (simp add: NewEndpointsFromActual_def)
next
  case (Some r)
  obtain a ev where r: "r = (a, ev)" by (cases r)
  from Some r obtain m where m: "NewEndpointsFromActual bbs g = Some m"
    and look: "\<And>p. fmlookup m p = map_option (lrp_endpoint a ev)
      (find (\<lambda>pm. pm_ContainerPort pm = p) (rev (alrp_Ports a)))"
    using NewEndpointsFromActual_lookup [of bbs g a ev] by auto
  have found: "find (\<lambda>pm. pm_ContainerPort pm = p) xs = Some pm \<Longrightarrow> pm_ContainerPort pm = p" for p pm xs
    by (auto simp: find_Some_iff)
  then show ?thesis
    using Some r m look by (auto simp: lrp_endpoint_def option.map_sel dest: found intro!: option.map_cong)
qed

end
