(* ===== verification/Routing_Event.thy ===== *)
theory Routing_Event
  imports Endpoint
begin

text \<open>
  \<open>routing_table/schema/event/event.go\<close>: routing events and their translation to the requests of
  the routing API. \<open>models.NewTcpRouteMapping\<close> (routing-api) is the parameter \<open>mk\<close>. The loops over
  the endpoint map take the iteration order as an argument; the path \<open>[batch, event, port]\<close> names
  the loop, so every one of them may use its own order.
\<close>

type_synonym routing_event_type = string

definition RouteRegistrationEvent :: routing_event_type where
  "RouteRegistrationEvent = ''RouteRegistrationEvent''"

definition RouteUnregistrationEvent :: routing_event_type where
  "RouteUnregistrationEvent = ''RouteUnregistrationEvent''"

record routing_event =
  ev_EventType :: routing_event_type
  ev_Key :: routing_key
  ev_Entry :: routable_endpoints

definition mk_event :: "routing_event_type \<Rightarrow> routing_key \<Rightarrow> routable_endpoints \<Rightarrow> routing_event" where
  "mk_event t k e = \<lparr>ev_EventType = t, ev_Key = k, ev_Entry = e\<rparr>"

definition Valid :: "routing_event \<Rightarrow> bool" where
  "Valid r =
     (if map_len (re_Endpoints (ev_Entry r)) = 0 then False
      else if length (re_ExternalEndpoints (ev_Entry r)) = 0 then False
      else \<not> list_ex (\<lambda>externalEndpoint. ee_Port externalEndpoint = 0)
               (re_ExternalEndpoints (ev_Entry r)))"

type_synonym 'm mapping_maker = "string \<Rightarrow> uint16 \<Rightarrow> string \<Rightarrow> uint16 \<Rightarrow> int \<Rightarrow> 'm"

text \<open>\<open>uint16(x)\<close> of Go keeps the low sixteen bits, as \<open>ucast\<close> does.\<close>

fun map_ext_loop ::
  "'m mapping_maker \<Rightarrow> endpoint_key range_order \<Rightarrow> nat list \<Rightarrow> int \<Rightarrow>
   (endpoint_key, endpoint) fmap \<Rightarrow> nat \<Rightarrow> external_endpoint_info list \<Rightarrow> 'm list" where
  "map_ext_loop mk ord path ttl eps j [] = []"
| "map_ext_loop mk ord path ttl eps j (x # xs) =
     map (\<lambda>(_, e). mk (ee_RouterGroupGUID x) (ucast (ee_Port x)) (ep_Host e) (ucast (ep_Port e)) ttl)
       (range_map ord (path @ [j]) eps)
     @ map_ext_loop mk ord path ttl eps (Suc j) xs"

definition mapRoutingEvent ::
  "'m mapping_maker \<Rightarrow> endpoint_key range_order \<Rightarrow> nat list \<Rightarrow> routing_event \<Rightarrow> int \<Rightarrow>
   'm list option" where
  "mapRoutingEvent mk ord path routingEvent ttl =
     Some (map_ext_loop mk ord path ttl (re_Endpoints (ev_Entry routingEvent)) 0
             (re_ExternalEndpoints (ev_Entry routingEvent)))"

fun build_loop ::
  "'m mapping_maker \<Rightarrow> endpoint_key range_order \<Rightarrow> nat list \<Rightarrow> int \<Rightarrow> nat \<Rightarrow>
   routing_event list \<Rightarrow> 'm list" where
  "build_loop mk ord path ttl i [] = []"
| "build_loop mk ord path ttl i (r # rs) =
     (case mapRoutingEvent mk ord (path @ [i]) r ttl of
        None \<Rightarrow> build_loop mk ord path ttl (Suc i) rs
      | Some mappingRequest \<Rightarrow> mappingRequest @ build_loop mk ord path ttl (Suc i) rs)"

definition buildMappingRequests ::
  "'m mapping_maker \<Rightarrow> endpoint_key range_order \<Rightarrow> nat list \<Rightarrow> routing_event list \<Rightarrow> int \<Rightarrow>
   'm list" where
  "buildMappingRequests mk ord path routingEvents ttl = build_loop mk ord path ttl 0 routingEvents"

text \<open>The first loop of \<open>ToMappingRequests\<close>: the valid events, sorted by type.\<close>

fun classify :: "routing_event list \<Rightarrow> routing_event list \<times> routing_event list" where
  "classify [] = ([], [])"
| "classify (r # rs) =
     (let (registrationEvents, unregistrationEvents) = classify rs in
      if \<not> Valid r then (registrationEvents, unregistrationEvents)
      else if ev_EventType r = RouteRegistrationEvent
      then (r # registrationEvents, unregistrationEvents)
      else if ev_EventType r = RouteUnregistrationEvent
      then (registrationEvents, r # unregistrationEvents)
      else (registrationEvents, unregistrationEvents))"

definition ToMappingRequests ::
  "'m mapping_maker \<Rightarrow> endpoint_key range_order \<Rightarrow> routing_event list \<Rightarrow> int \<Rightarrow>
   'm list \<times> 'm list" where
  "ToMappingRequests mk ord routingEvents ttl =
     (let (registrationEvents, unregistrationEvents) = classify routingEvents in
      (buildMappingRequests mk ord [0] registrationEvents ttl,
       buildMappingRequests mk ord [1] unregistrationEvents ttl))"

subsection \<open>Lemmas\<close>

lemma event_types_distinct [simp]:
  "RouteRegistrationEvent \<noteq> RouteUnregistrationEvent"
  "RouteUnregistrationEvent \<noteq> RouteRegistrationEvent"
  by (simp_all add: RouteRegistrationEvent_def RouteUnregistrationEvent_def)

lemma mk_event_simps [simp]:
  "ev_EventType (mk_event t k e) = t" "ev_Key (mk_event t k e) = k" "ev_Entry (mk_event t k e) = e"
  by (simp_all add: mk_event_def)

lemma mk_event_eq_iff [simp]: "mk_event t k e = mk_event t' k' e' \<longleftrightarrow> t = t' \<and> k = k' \<and> e = e'"
  by (simp add: mk_event_def)

lemma Valid_iff:
  "Valid r \<longleftrightarrow> re_Endpoints (ev_Entry r) \<noteq> fmempty \<and> re_ExternalEndpoints (ev_Entry r) \<noteq> [] \<and>
     0 \<notin> ports (re_ExternalEndpoints (ev_Entry r))"
  by (auto simp: Valid_def list_ex_iff ports_iff)

definition valid_events :: "routing_event_type \<Rightarrow> routing_event list \<Rightarrow> routing_event list" where
  "valid_events t rs = filter (\<lambda>r. Valid r \<and> ev_EventType r = t) rs"

definition request_count :: "routing_event \<Rightarrow> nat" where
  "request_count r = length (re_ExternalEndpoints (ev_Entry r)) * map_len (re_Endpoints (ev_Entry r))"

text \<open>An event of an entry with one external endpoint and one backend.\<close>

definition single_event :: "routing_key \<Rightarrow> string \<Rightarrow> uint32 \<Rightarrow> endpoint \<Rightarrow> routing_event" where
  "single_event k g p e = mk_event RouteRegistrationEvent k
     (NewRoutableEndpoints [NewExternalEndpointInfo g p] (fmupd (endpoint_Key e) e fmempty) [] None)"

lemma classify_eq:
  "classify rs = (valid_events RouteRegistrationEvent rs, valid_events RouteUnregistrationEvent rs)"
  by (induction rs) (auto simp: valid_events_def)

text \<open>The request for one external endpoint and one backend.\<close>

definition request_of ::
  "'m mapping_maker \<Rightarrow> int \<Rightarrow> external_endpoint_info \<Rightarrow> endpoint \<Rightarrow> 'm" where
  "request_of mk ttl x e =
     mk (ee_RouterGroupGUID x) (ucast (ee_Port x)) (ep_Host e) (ucast (ep_Port e)) ttl"

definition event_requests :: "'m mapping_maker \<Rightarrow> int \<Rightarrow> routing_event \<Rightarrow> 'm set" where
  "event_requests mk ttl r =
     {request_of mk ttl x e | x k e. x \<in> set (re_ExternalEndpoints (ev_Entry r)) \<and>
        fmlookup (re_Endpoints (ev_Entry r)) k = Some e}"

lemma set_map_ext_loop:
  "set (map_ext_loop mk ord path ttl eps j xs) =
     {request_of mk ttl x e | x k e. x \<in> set xs \<and> fmlookup eps k = Some e}"
proof (induction xs arbitrary: j)
  case (Cons x xs)
  have "set (map_ext_loop mk ord path ttl eps j (x # xs)) =
      {request_of mk ttl x e | k e. fmlookup eps k = Some e} \<union>
      {request_of mk ttl y e | y k e. y \<in> set xs \<and> fmlookup eps k = Some e}"
    by (simp add: Cons.IH) (auto simp: request_of_def)
  then show ?case by auto
qed simp

lemma mset_map_ext_loop:
  "mset (map_ext_loop mk ord path ttl eps j xs) = mset (map_ext_loop mk ord' path' ttl eps j' xs)"
proof (induction xs arbitrary: j j')
  case (Cons x xs)
  show ?case
    using Cons.IH [of "Suc j" "Suc j'"] mset_range_map [of ord "path @ [j]" eps ord' "path' @ [j']"]
    by simp
qed simp

lemma length_map_ext_loop:
  "length (map_ext_loop mk ord path ttl eps j xs) = length xs * map_len eps"
  by (induction xs arbitrary: j) simp_all

lemma set_build:
  "set (buildMappingRequests mk ord path rs ttl) = (\<Union>r \<in> set rs. event_requests mk ttl r)"
proof -
  have "set (build_loop mk ord path ttl i rs) = (\<Union>r \<in> set rs. event_requests mk ttl r)" for i
    by (induction rs arbitrary: i)
      (simp_all add: mapRoutingEvent_def set_map_ext_loop event_requests_def)
  then show ?thesis by (simp add: buildMappingRequests_def)
qed

lemma mset_build:
  "mset (buildMappingRequests mk ord path rs ttl) = mset (buildMappingRequests mk ord' path' rs ttl)"
proof -
  have "mset (build_loop mk ord path ttl i rs) = mset (build_loop mk ord' path' ttl i' rs)" for i i'
    by (induction rs arbitrary: i i')
      (simp_all add: mapRoutingEvent_def, metis mset_map_ext_loop)
  then show ?thesis by (simp add: buildMappingRequests_def)
qed

lemma length_build:
  "length (buildMappingRequests mk ord path rs ttl) = (\<Sum>r\<leftarrow>rs. request_count r)"
proof -
  have "length (build_loop mk ord path ttl i rs) = (\<Sum>r\<leftarrow>rs. request_count r)" for i
    by (induction rs arbitrary: i)
      (simp_all add: mapRoutingEvent_def length_map_ext_loop request_count_def)
  then show ?thesis by (simp add: buildMappingRequests_def)
qed

lemma build_Nil [simp]: "buildMappingRequests mk ord path [] ttl = []"
  by (simp add: buildMappingRequests_def)

lemma build_eq_Nil_iff:
  "buildMappingRequests mk ord path rs ttl = [] \<longleftrightarrow>
     (\<forall>r \<in> set rs. re_ExternalEndpoints (ev_Entry r) = [] \<or> re_Endpoints (ev_Entry r) = fmempty)"
proof -
  have "buildMappingRequests mk ord path rs ttl = [] \<longleftrightarrow>
      length (buildMappingRequests mk ord path rs ttl) = 0" by simp
  also have "\<dots> \<longleftrightarrow> (\<forall>r \<in> set rs. length (re_ExternalEndpoints (ev_Entry r)) = 0 \<or>
      map_len (re_Endpoints (ev_Entry r)) = 0)"
    unfolding length_build by (auto simp: sum_list_eq_0_iff request_count_def)
  finally show ?thesis by simp
qed

subsection \<open>Properties\<close>

text \<open>
  C38: \<open>ToMappingRequests\<close> translates exactly the valid events: the registration requests are, for
  every valid registration event, one request per external endpoint and backend; the
  unregistration requests likewise. The numbers of requests are the products of the two counts,
  summed over the events, so none is repeated or lost.
\<close>

theorem ToMappingRequests_exact:
  "set (fst (ToMappingRequests mk ord rs ttl)) =
     (\<Union>r \<in> set (valid_events RouteRegistrationEvent rs). event_requests mk ttl r) \<and>
   set (snd (ToMappingRequests mk ord rs ttl)) =
     (\<Union>r \<in> set (valid_events RouteUnregistrationEvent rs). event_requests mk ttl r) \<and>
   length (fst (ToMappingRequests mk ord rs ttl)) =
     (\<Sum>r\<leftarrow>valid_events RouteRegistrationEvent rs. request_count r) \<and>
   length (snd (ToMappingRequests mk ord rs ttl)) =
     (\<Sum>r\<leftarrow>valid_events RouteUnregistrationEvent rs. request_count r)"
  by (simp add: ToMappingRequests_def classify_eq set_build length_build)

text \<open>
  The order in which Go iterates over the endpoint maps only permutes the requests: any two
  iteration orders give the same registration requests and the same unregistration requests with
  the same multiplicities.
\<close>

lemma ToMappingRequests_order_independent:
  "mset (fst (ToMappingRequests mk ord rs ttl)) = mset (fst (ToMappingRequests mk ord' rs ttl)) \<and>
   mset (snd (ToMappingRequests mk ord rs ttl)) = mset (snd (ToMappingRequests mk ord' rs ttl))"
  by (auto simp: ToMappingRequests_def classify_eq intro: mset_build)

text \<open>
  One external port 0 hides its whole entry: an event whose entry has such a port is as if it were
  not there, so none of the entry's other ports is registered, or unregistered, either.
\<close>

lemma zero_port_hides_entry:
  assumes "0 \<in> ports (re_ExternalEndpoints e)"
  shows "ToMappingRequests mk ord (rs @ mk_event ty key e # rs') ttl = ToMappingRequests mk ord (rs @ rs') ttl"
  using assms by (simp add: ToMappingRequests_def classify_eq valid_events_def Valid_iff)

lemma zero_port_hides_entry_witness:
  "fst (ToMappingRequests (\<lambda>g p h hp ttl. (g, p, h, hp, ttl)) sorted_order
     [mk_event RouteRegistrationEvent (RoutingKey ''p'' 66)
        (NewRoutableEndpoints [NewExternalEndpointInfo ''rg'' 65, NewExternalEndpointInfo ''rg'' 0]
           (fmupd (EndpointKey ''i'' False) (NewEndpoint ''i'' False ''h'' 9000 66 None) fmempty) [] None)] 120) = []"
proof -
  let ?e = "NewRoutableEndpoints [NewExternalEndpointInfo ''rg'' 65, NewExternalEndpointInfo ''rg'' 0]
      (fmupd (EndpointKey ''i'' False) (NewEndpoint ''i'' False ''h'' 9000 66 None) fmempty) [] None"
  have "0 \<in> ports (re_ExternalEndpoints ?e)" by (simp add: NewRoutableEndpoints_def)
  note hidden = zero_port_hides_entry [OF this, where rs = "[]" and rs' = "[]", simplified append_Nil]
  have "fst (ToMappingRequests mk ord [] ttl) = []" for mk ord ttl
    by (simp add: ToMappingRequests_def)
  then show ?thesis unfolding hidden .
qed

text \<open>
  C39: The ports are 32-bit in the table and 16-bit in the request. \<open>Valid\<close> rejects the external
  port 0 only, so an external port of 65536 passes and is requested as port 0, and any external
  port \<open>p\<close> is requested as \<open>p mod 65536\<close>.
\<close>

theorem external_port_truncated:
  "Valid (single_event k g p e) = (p \<noteq> 0) \<and>
   fst (ToMappingRequests mk ord [single_event k g p e] ttl) =
     (if p = 0 then []
      else [mk g (word_of_nat (unat p mod 65536)) (ep_Host e) (ucast (ep_Port e)) ttl]) \<and>
   fst (ToMappingRequests mk ord [single_event k g 65536 e] ttl) =
     [mk g 0 (ep_Host e) (ucast (ep_Port e)) ttl]"
proof -
  have low: "(ucast p :: uint16) = word_of_nat (unat p mod 65536)" for p :: uint32
    by (simp add: word_unat_eq_iff unsigned_ucast_eq unsigned_of_nat take_bit_eq_mod)
  have wrap: "(65536 :: uint16) = 0" by (simp add: word_unat_eq_iff)
  show ?thesis
    by (simp add: wrap low [of p] single_event_def valid_events_def Valid_iff ToMappingRequests_def classify_eq
        buildMappingRequests_def mapRoutingEvent_def NewRoutableEndpoints_def)
qed

end
