(* ===== verification/Routing_Table.thy ===== *)
theory Routing_Table
  imports Routing_Event
begin

text \<open>
  \<open>routing_table/schema/routing_table.go\<close>: the routing table, one definition per method. The state
  is the map of entries; the mutex and the logger are left out. An operation returns the routing
  events and the new table. \<open>AddEndpoint\<close> and \<open>RemoveEndpoint\<close> return \<open>None\<close> where resolving the
  LRP group panics. The loops of \<open>Swap\<close> and \<open>GetRoutingEvents\<close> over the entries take the iteration
  order as an argument.
\<close>

record routing_table =
  entries :: "(routing_key, routable_endpoints) fmap"

type_synonym table_step = "routing_table \<Rightarrow> routing_event list \<times> routing_table"

definition NewTable :: "(routing_key, routable_endpoints) fmap option \<Rightarrow> routing_table" where
  "NewTable es = \<lparr>entries = (case es of None \<Rightarrow> fmempty | Some m \<Rightarrow> m)\<rparr>"

text \<open>\<open>table.entries[key]\<close> and \<open>table.entries[key] = entry\<close>.\<close>

definition entry_at :: "routing_table \<Rightarrow> routing_key \<Rightarrow> routable_endpoints" where
  "entry_at table key = map_get zero_entry (entries table) key"

definition set_entry ::
  "routing_key \<Rightarrow> routable_endpoints \<Rightarrow> routing_table \<Rightarrow> routing_table" where
  "set_entry key entry table = table\<lparr>entries := fmupd key entry (entries table)\<rparr>"

definition RouteCount :: "routing_table \<Rightarrow> nat" where
  "RouteCount table = map_len (entries table)"

subsection \<open>Events of one entry\<close>

definition createRoutingEvent ::
  "routing_key \<Rightarrow> routable_endpoints \<Rightarrow> routing_event_type \<Rightarrow> routing_event list" where
  "createRoutingEvent key entry eventType =
     (if HasNoExternalPorts (re_ExternalEndpoints entry) then []
      else if map_len (re_Endpoints entry) > 0 then [mk_event eventType key entry]
      else [])"

definition getRegistrationEvents ::
  "bbs_models \<Rightarrow> routing_key \<Rightarrow> routable_endpoints \<Rightarrow> routable_endpoints \<Rightarrow> routing_event list" where
  "getRegistrationEvents bbs key existingEntry newEntry =
     (if HasNoExternalPorts (re_ExternalEndpoints newEntry) then []
      else if \<not> HaveExternalEndpointsChanged existingEntry newEntry \<and>
              \<not> HaveEndpointsChanged bbs existingEntry newEntry then []
      else if map_len (re_Endpoints newEntry) > 0
      then [mk_event RouteRegistrationEvent key newEntry]
      else [])"

text \<open>The body of the loop of \<open>getDeletedEntry\<close>, and \<open>getDeletedEntry\<close>.\<close>

definition drop_if_present ::
  "routable_endpoints \<Rightarrow> endpoint_key \<times> endpoint \<Rightarrow> routable_endpoints \<Rightarrow> routable_endpoints" where
  "drop_if_present newEntry kv gapEntry =
     (case fmlookup (re_Endpoints newEntry) (fst kv) of
        Some _ \<Rightarrow> gapEntry\<lparr>re_Endpoints := fmdrop (fst kv) (re_Endpoints gapEntry)\<rparr>
      | None \<Rightarrow> gapEntry)"

definition getDeletedEntry ::
  "routable_endpoints \<Rightarrow> routable_endpoints \<Rightarrow> routable_endpoints" where
  "getDeletedEntry existingEntry newEntry =
     fold (drop_if_present newEntry) (range_any (re_Endpoints existingEntry)) (Copy existingEntry)"

subsection \<open>GetRoutingEvents and Swap\<close>

definition GetRoutingEvents ::
  "routing_key range_order \<Rightarrow> routing_table \<Rightarrow> routing_event list" where
  "GetRoutingEvents ord table =
     concat (map (\<lambda>(key, entry). createRoutingEvent key entry RouteRegistrationEvent)
       (range_map ord [0] (entries table)))"

text \<open>The argument of \<open>Swap\<close> is any \<open>RoutingTable\<close>; only this package's type passes the assertion.\<close>

datatype routing_table_value = IsRoutingTable routing_table | OtherRoutingTable

definition Swap ::
  "routing_key range_order \<Rightarrow> routing_table_value \<Rightarrow> table_step" where
  "Swap ord t table =
     (case t of
        OtherRoutingTable \<Rightarrow> ([], table)
      | IsRoutingTable newTable \<Rightarrow>
          (let newEntries = entries newTable;
               registrations = concat (map (\<lambda>(key, newEntry).
                 let newExternalEndpoints = re_ExternalEndpoints newEntry;
                     existingEntry = entry_at table key;
                     unregistrationEntry = RemoveExternalEndpoints existingEntry newExternalEndpoints
                 in createRoutingEvent key newEntry RouteRegistrationEvent
                    @ createRoutingEvent key unregistrationEntry RouteUnregistrationEvent)
                 (range_map ord [0] newEntries));
               removals = concat (map (\<lambda>(key, existingEntry).
                 if fmlookup newEntries key = None
                 then createRoutingEvent key existingEntry RouteUnregistrationEvent
                 else [])
                 (range_map ord [1] (entries table)))
           in (registrations @ removals, table\<lparr>entries := newEntries\<rparr>)))"

subsection \<open>Routes of desired LRPs\<close>

text \<open>The loop of \<open>mergeRoutes\<close>: whether a registration is needed, and the new external endpoints.\<close>

fun merge_loop ::
  "routable_endpoints \<Rightarrow> routing_key \<Rightarrow> tcp_route list \<Rightarrow> bool \<Rightarrow> external_endpoint_info list \<Rightarrow>
   bool \<times> external_endpoint_info list" where
  "merge_loop existingEntry key [] registrationNeeded newExternalEndpoints =
     (registrationNeeded, newExternalEndpoints)"
| "merge_loop existingEntry key (route # routes) registrationNeeded newExternalEndpoints =
     (if rk_ContainerPort key = tr_ContainerPort route
      then (if \<not> ContainsExternalPort (re_ExternalEndpoints existingEntry) (tr_ExternalPort route)
            then merge_loop existingEntry key routes True
              (newExternalEndpoints @
                [NewExternalEndpointInfo (tr_RouterGroupGuid route) (tr_ExternalPort route)])
            else merge_loop existingEntry key routes registrationNeeded
              (newExternalEndpoints @
                [NewExternalEndpointInfo (tr_RouterGroupGuid route) (tr_ExternalPort route)]))
      else merge_loop existingEntry key routes registrationNeeded newExternalEndpoints)"

definition mergeRoutes ::
  "routable_endpoints \<Rightarrow> tcp_route list \<Rightarrow> routing_key \<Rightarrow> string \<Rightarrow> modification_tag option \<Rightarrow>
   table_step" where
  "mergeRoutes existingEntry routes key logGUID modificationTag table =
     (let (registrationNeeded, newExternalEndpoints) = merge_loop existingEntry key routes False [];
          updatedEntry = (Copy existingEntry)
            \<lparr>re_ExternalEndpoints := newExternalEndpoints,
             re_LogGUID := logGUID,
             re_ModificationTag := modificationTag\<rparr>;
          (registrations, table1) =
            (if registrationNeeded
             then (createRoutingEvent key updatedEntry RouteRegistrationEvent,
                   set_entry key updatedEntry table)
             else ([], table));
          unregistrationEntry = RemoveExternalEndpoints existingEntry newExternalEndpoints
      in (registrations @ createRoutingEvent key unregistrationEntry RouteUnregistrationEvent,
          table1))"

text \<open>The body of the loop of \<open>addRoutes\<close>, and \<open>addRoutes\<close>.\<close>

definition add_route ::
  "bbs_models \<Rightarrow> scheduling_info \<Rightarrow> tcp_route list \<Rightarrow> routing_key \<Rightarrow> table_step" where
  "add_route bbs info routes key table =
     (let existingEntry = entry_at table key in
      if \<not> SucceededBy bbs (re_ModificationTag existingEntry) (Some (si_ModificationTag info))
      then ([], table)
      else mergeRoutes existingEntry routes key (si_LogGuid info) (Some (si_ModificationTag info)) table)"

definition addRoutes :: "bbs_models \<Rightarrow> scheduling_info \<Rightarrow> table_step" where
  "addRoutes bbs info table =
     (let routes = fst (TCPRoutesFromRoutingInfo bbs (si_Routes info));
          routingKeys = NewRoutingKeysFromDesired (si_ProcessGuid info) routes
      in loop_events (add_route bbs info routes) routingKeys table)"

definition AddRoutes :: "bbs_models \<Rightarrow> scheduling_info \<Rightarrow> table_step" where
  "AddRoutes bbs info table = addRoutes bbs info table"

text \<open>The body of the loop of \<open>removeRoutingKeys\<close>, and \<open>removeRoutingKeys\<close>.\<close>

definition remove_key ::
  "bbs_models \<Rightarrow> modification_tag option \<Rightarrow> routing_key \<Rightarrow> table_step" where
  "remove_key bbs modificationTag key table =
     (case fmlookup (entries table) key of
        None \<Rightarrow> ([], table)
      | Some existingEntry \<Rightarrow>
          if \<not> SucceededBy bbs (re_ModificationTag existingEntry) modificationTag then ([], table)
          else
            ((if map_len (re_Endpoints existingEntry) > 0 \<and>
                 length (re_ExternalEndpoints existingEntry) > 0
              then [mk_event RouteUnregistrationEvent key existingEntry] else []),
             table\<lparr>entries := fmdrop key (entries table)\<rparr>))"

definition removeRoutingKeys ::
  "bbs_models \<Rightarrow> routing_key list \<Rightarrow> modification_tag option \<Rightarrow> table_step" where
  "removeRoutingKeys bbs routingKeys modificationTag table =
     loop_events (remove_key bbs modificationTag) routingKeys table"

definition desired_keys :: "bbs_models \<Rightarrow> scheduling_info \<Rightarrow> routing_key list" where
  "desired_keys bbs info =
     NewRoutingKeysFromDesired (si_ProcessGuid info)
       (fst (TCPRoutesFromRoutingInfo bbs (si_Routes info)))"

definition UpdateRoutes ::
  "bbs_models \<Rightarrow> scheduling_info \<Rightarrow> scheduling_info \<Rightarrow> table_step" where
  "UpdateRoutes bbs before after table =
     (let beforeRoutingKeys = desired_keys bbs before;
          afterRoutingKeys = desired_keys bbs after;
          deletedRoutingKeys = keys_Remove beforeRoutingKeys afterRoutingKeys;
          (added, table1) = addRoutes bbs after table;
          (removed, table2) =
            removeRoutingKeys bbs deletedRoutingKeys (Some (si_ModificationTag after)) table1
      in (added @ removed, table2))"

definition RemoveRoutes :: "bbs_models \<Rightarrow> scheduling_info \<Rightarrow> table_step" where
  "RemoveRoutes bbs info table =
     removeRoutingKeys bbs (desired_keys bbs info) (Some (si_ModificationTag info)) table"

subsection \<open>Endpoints of actual LRPs\<close>

definition addEndpoint :: "bbs_models \<Rightarrow> routing_key \<Rightarrow> endpoint \<Rightarrow> table_step" where
  "addEndpoint bbs key ep table =
     (let currentEntry = entry_at table key;
          newEntry = (Copy currentEntry)
            \<lparr>re_Endpoints := fmupd (endpoint_Key ep) ep (re_Endpoints (Copy currentEntry))\<rparr>;
          accept = (getRegistrationEvents bbs key currentEntry newEntry,
                    set_entry key newEntry table)
      in case fmlookup (re_Endpoints currentEntry) (endpoint_Key ep) of
           Some existingEndpoint \<Rightarrow>
             if \<not> SucceededBy bbs (ep_ModificationTag existingEndpoint) (ep_ModificationTag ep)
             then ([], table) else accept
         | None \<Rightarrow> accept)"

definition removeEndpoint :: "bbs_models \<Rightarrow> routing_key \<Rightarrow> endpoint \<Rightarrow> table_step" where
  "removeEndpoint bbs key ep table =
     (let currentEntry = entry_at table key;
          endpointKey = endpoint_Key ep
      in case fmlookup (re_Endpoints currentEntry) endpointKey of
           None \<Rightarrow> ([], table)
         | Some currentEndpoint \<Rightarrow>
             if \<not> (TagEqual bbs (ep_ModificationTag currentEndpoint) (ep_ModificationTag ep) \<or>
                   SucceededBy bbs (ep_ModificationTag currentEndpoint) (ep_ModificationTag ep))
             then ([], table)
             else
               (let newEntry = (Copy currentEntry)
                      \<lparr>re_Endpoints := fmdrop endpointKey (re_Endpoints (Copy currentEntry))\<rparr>;
                    table1 = set_entry key newEntry table
                in if \<not> HaveExternalEndpointsChanged currentEntry newEntry \<and>
                      \<not> HaveEndpointsChanged bbs currentEntry newEntry
                   then ([], table1)
                   else (createRoutingEvent key (getDeletedEntry currentEntry newEntry)
                           RouteUnregistrationEvent, table1)))"

text \<open>
  The two nested loops \<open>AddEndpoint\<close> and \<open>RemoveEndpoint\<close> share: for every routing key of the LRP,
  every endpoint of the same container port.
\<close>

definition matching_endpoint ::
  "(routing_key \<Rightarrow> endpoint \<Rightarrow> table_step) \<Rightarrow> routing_key \<Rightarrow> uint32 \<times> endpoint \<Rightarrow> table_step" where
  "matching_endpoint op key pe table =
     (if rk_ContainerPort key = ep_ContainerPort (snd pe) then op key (snd pe) table
      else ([], table))"

definition for_each_endpoint ::
  "(routing_key \<Rightarrow> endpoint \<Rightarrow> table_step) \<Rightarrow> (uint32 \<times> endpoint) list \<Rightarrow> routing_key list \<Rightarrow>
   table_step" where
  "for_each_endpoint op endpoints keys table =
     loop_events (\<lambda>key. loop_events (matching_endpoint op key) endpoints) keys table"

definition AddEndpoint ::
  "bbs_models \<Rightarrow> actual_lrp_group \<Rightarrow> routing_table \<Rightarrow> (routing_event list \<times> routing_table) option"
where
  "AddEndpoint bbs actualLRP table = do {
     endpoints \<leftarrow> NewEndpointsFromActual bbs actualLRP;
     keys \<leftarrow> NewRoutingKeysFromActual bbs actualLRP;
     Some (for_each_endpoint (addEndpoint bbs) (range_any endpoints) keys table)
   }"

definition RemoveEndpoint ::
  "bbs_models \<Rightarrow> actual_lrp_group \<Rightarrow> routing_table \<Rightarrow> (routing_event list \<times> routing_table) option"
where
  "RemoveEndpoint bbs actualLRP table = do {
     endpoints \<leftarrow> NewEndpointsFromActual bbs actualLRP;
     keys \<leftarrow> NewRoutingKeysFromActual bbs actualLRP;
     Some (for_each_endpoint (removeEndpoint bbs) (range_any endpoints) keys table)
   }"

subsection \<open>Lemmas: reading and writing entries\<close>

lemma entries_set_entry [simp]: "entries (set_entry key e t) = fmupd key e (entries t)"
  by (simp add: set_entry_def)

lemma entry_at_set_entry [simp]: "entry_at (set_entry key e t) k = (if k = key then e else entry_at t k)"
  by (simp add: entry_at_def map_get_fmupd)

lemma entry_at_Some: "fmlookup (entries t) key = Some e \<Longrightarrow> entry_at t key = e"
  by (simp add: entry_at_def)

lemma entry_at_None: "fmlookup (entries t) key = None \<Longrightarrow> entry_at t key = zero_entry"
  by (simp add: entry_at_def)

lemma entry_at_cases:
  obtains (zero) "fmlookup (entries t) key = None" "entry_at t key = zero_entry"
  | (entry) "fmlookup (entries t) key = Some (entry_at t key)"
  by (cases "fmlookup (entries t) key") (auto simp: entry_at_def)

lemma NewTable_simps [simp]: "entries (NewTable None) = fmempty" "entries (NewTable (Some m)) = m"
  by (simp_all add: NewTable_def)

lemma entry_at_NewTable [simp]: "entry_at (NewTable None) key = zero_entry"
  by (simp add: entry_at_def)

subsection \<open>Lemmas: each operation as one equation\<close>

text \<open>An entry is deliverable when it has something to route from and something to route to.\<close>

definition deliverable :: "routable_endpoints \<Rightarrow> bool" where
  "deliverable e \<longleftrightarrow> re_ExternalEndpoints e \<noteq> [] \<and> re_Endpoints e \<noteq> fmempty"

lemma createRoutingEvent_eq [shape]:
  "createRoutingEvent key e ty = (if deliverable e then [mk_event ty key e] else [])"
  by (simp add: createRoutingEvent_def deliverable_def)

lemma in_createRoutingEvent [simp]:
  "r \<in> set (createRoutingEvent key e ty) \<longleftrightarrow> deliverable e \<and> r = mk_event ty key e"
  by (auto simp: createRoutingEvent_eq)

text \<open>The external endpoints the routes give a key.\<close>

definition route_exts :: "routing_key \<Rightarrow> tcp_route list \<Rightarrow> external_endpoint_info list" where
  "route_exts key routes =
     map (\<lambda>r. NewExternalEndpointInfo (tr_RouterGroupGuid r) (tr_ExternalPort r))
       (filter (\<lambda>r. tr_ContainerPort r = rk_ContainerPort key) routes)"

lemma route_exts_simps [simp]:
  "route_exts key [] = []"
  "route_exts key (r # rs) =
     (if tr_ContainerPort r = rk_ContainerPort key
      then NewExternalEndpointInfo (tr_RouterGroupGuid r) (tr_ExternalPort r) # route_exts key rs
      else route_exts key rs)"
  by (simp_all add: route_exts_def)

lemma merge_loop_eq:
  "merge_loop e key routes b acc =
     (b \<or> \<not> ports (route_exts key routes) \<subseteq> ports (re_ExternalEndpoints e), acc @ route_exts key routes)"
  by (induction routes arbitrary: b acc) auto

lemma mergeRoutes_eq [shape]:
  "mergeRoutes e routes key logGUID tag t =
     (let exts = route_exts key routes;
          new = e\<lparr>re_ExternalEndpoints := exts, re_LogGUID := logGUID, re_ModificationTag := tag\<rparr>;
          needed = (\<not> ports exts \<subseteq> ports (re_ExternalEndpoints e))
      in ((if needed then createRoutingEvent key new RouteRegistrationEvent else [])
          @ createRoutingEvent key (RemoveExternalEndpoints e exts) RouteUnregistrationEvent,
          if needed then set_entry key new t else t))"
  by (simp add: mergeRoutes_def merge_loop_eq Let_def)

lemma add_route_eq [shape]:
  "add_route bbs info routes key t =
     (if SucceededBy bbs (re_ModificationTag (entry_at t key)) (Some (si_ModificationTag info))
      then mergeRoutes (entry_at t key) routes key (si_LogGuid info) (Some (si_ModificationTag info)) t
      else ([], t))"
  by (simp add: add_route_def Let_def)

lemma remove_key_eq [shape]:
  "remove_key bbs tag key t =
     (case fmlookup (entries t) key of
        None \<Rightarrow> ([], t)
      | Some e \<Rightarrow>
          if SucceededBy bbs (re_ModificationTag e) tag
          then (createRoutingEvent key e RouteUnregistrationEvent,
                t\<lparr>entries := fmdrop key (entries t)\<rparr>)
          else ([], t))"
  by (simp add: remove_key_def createRoutingEvent_eq deliverable_def split: option.splits)

definition absent_in :: "routable_endpoints \<Rightarrow> endpoint_key \<Rightarrow> bool" where
  "absent_in n k \<longleftrightarrow> fmlookup (re_Endpoints n) k = None"

lemma fold_drop_if_present:
  "fold (drop_if_present n) kvs g =
   g\<lparr>re_Endpoints := fmfilter (\<lambda>k. k \<notin> fst ` set kvs \<or> absent_in n k) (re_Endpoints g)\<rparr>"
proof (induction kvs arbitrary: g)
  case Nil
  have "fmfilter (\<lambda>_. True) m = m" for m :: "(endpoint_key, endpoint) fmap"
    by (rule fmap_ext) simp
  then show ?case by simp
next
  case (Cons kv kvs)
  let ?rest = "\<lambda>k. k \<notin> fst ` set kvs \<or> absent_in n k"
    and ?all = "\<lambda>k. k \<notin> fst ` set (kv # kvs) \<or> absent_in n k"
  have "re_Endpoints (drop_if_present n kv g) =
      (if absent_in n (fst kv) then re_Endpoints g else fmdrop (fst kv) (re_Endpoints g))"
    by (simp add: drop_if_present_def absent_in_def split: option.splits)
  then have "fmfilter ?rest (re_Endpoints (drop_if_present n kv g)) = fmfilter ?all (re_Endpoints g)"
    by (intro fmap_ext) auto
  moreover have "(drop_if_present n kv g)\<lparr>re_Endpoints := m\<rparr> = g\<lparr>re_Endpoints := m\<rparr>" for m
    by (simp add: drop_if_present_def split: option.splits)
  ultimately show ?case by (simp add: Cons.IH)
qed

lemma getDeletedEntry_eq [shape]:
  "getDeletedEntry e n = e\<lparr>re_Endpoints := fmfilter (absent_in n) (re_Endpoints e)\<rparr>"
proof -
  have "fmfilter (\<lambda>k. k \<notin> fst ` set (range_any (re_Endpoints e)) \<or> absent_in n k) (re_Endpoints e) =
      fmfilter (absent_in n) (re_Endpoints e)"
    by (rule fmap_ext) (auto simp: image_iff)
  then show ?thesis by (simp only: getDeletedEntry_def fold_drop_if_present Copy_id)
qed
text \<open>An endpoint update is accepted unless the table holds the instance with a tag it does not succeed.\<close>

definition accepts_endpoint :: "bbs_models \<Rightarrow> routing_table \<Rightarrow> routing_key \<Rightarrow> endpoint \<Rightarrow> bool" where
  "accepts_endpoint bbs t key ep =
     (case fmlookup (re_Endpoints (entry_at t key)) (endpoint_Key ep) of
        None \<Rightarrow> True
      | Some x \<Rightarrow> SucceededBy bbs (ep_ModificationTag x) (ep_ModificationTag ep))"

definition with_endpoint :: "endpoint \<Rightarrow> routable_endpoints \<Rightarrow> routable_endpoints" where
  "with_endpoint ep e = e\<lparr>re_Endpoints := fmupd (endpoint_Key ep) ep (re_Endpoints e)\<rparr>"

lemma with_endpoint_simps [simp]:
  "re_ExternalEndpoints (with_endpoint ep e) = re_ExternalEndpoints e"
  "re_Endpoints (with_endpoint ep e) = fmupd (endpoint_Key ep) ep (re_Endpoints e)"
  "re_LogGUID (with_endpoint ep e) = re_LogGUID e"
  "re_ModificationTag (with_endpoint ep e) = re_ModificationTag e"
  by (simp_all add: with_endpoint_def)

lemma fmupd_not_empty [simp]: "fmupd k v m \<noteq> fmempty"
  by (metis fmempty_iff_lookup fmupd_lookup option.distinct(1))

lemma accepted_is_change:
  assumes "accepts_endpoint bbs t key ep"
  shows "HaveEndpointsChanged bbs (entry_at t key) (with_endpoint ep (entry_at t key))"
  using assms
  by (auto simp: HaveEndpointsChanged_iff accepts_endpoint_def map_len_fmupd fmlookup_dom_iff
      split: option.splits)

lemma addEndpoint_eq [shape]:
  "addEndpoint bbs key ep t =
     (if accepts_endpoint bbs t key ep
      then (createRoutingEvent key (with_endpoint ep (entry_at t key)) RouteRegistrationEvent,
            set_entry key (with_endpoint ep (entry_at t key)) t)
      else ([], t))"
proof -
  have "getRegistrationEvents bbs key (entry_at t key) (with_endpoint ep (entry_at t key)) =
      createRoutingEvent key (with_endpoint ep (entry_at t key)) RouteRegistrationEvent"
    if "accepts_endpoint bbs t key ep"
    using accepted_is_change [OF that]
    by (simp add: getRegistrationEvents_def createRoutingEvent_def)
  then show ?thesis
    by (auto simp: addEndpoint_def accepts_endpoint_def with_endpoint_def Let_def split: option.splits)
qed

text \<open>An endpoint is removed when the table holds the instance and the tags are equal or newer.\<close>

definition removable_endpoint ::
  "bbs_models \<Rightarrow> routing_table \<Rightarrow> routing_key \<Rightarrow> endpoint \<Rightarrow> endpoint option" where
  "removable_endpoint bbs t key ep =
     (case fmlookup (re_Endpoints (entry_at t key)) (endpoint_Key ep) of
        None \<Rightarrow> None
      | Some x \<Rightarrow>
          if TagEqual bbs (ep_ModificationTag x) (ep_ModificationTag ep) \<or>
             SucceededBy bbs (ep_ModificationTag x) (ep_ModificationTag ep)
          then Some x else None)"

definition without_endpoint :: "endpoint_key \<Rightarrow> routable_endpoints \<Rightarrow> routable_endpoints" where
  "without_endpoint k e = e\<lparr>re_Endpoints := fmdrop k (re_Endpoints e)\<rparr>"

definition only_endpoint ::
  "endpoint_key \<Rightarrow> endpoint \<Rightarrow> routable_endpoints \<Rightarrow> routable_endpoints" where
  "only_endpoint k x e = e\<lparr>re_Endpoints := fmupd k x fmempty\<rparr>"

lemma endpoint_change_simps [simp]:
  "re_ExternalEndpoints (without_endpoint k e) = re_ExternalEndpoints e"
  "re_Endpoints (without_endpoint k e) = fmdrop k (re_Endpoints e)"
  "re_ModificationTag (without_endpoint k e) = re_ModificationTag e"
  "re_ExternalEndpoints (only_endpoint k x e) = re_ExternalEndpoints e"
  "re_Endpoints (only_endpoint k x e) = fmupd k x fmempty"
  by (simp_all add: without_endpoint_def only_endpoint_def)

lemma removal_is_change:
  "fmlookup (re_Endpoints e) k = Some x \<Longrightarrow> HaveEndpointsChanged bbs e (without_endpoint k e)"
  using map_len_fmdrop_less [of k "re_Endpoints e"]
  by (simp add: HaveEndpointsChanged_iff fmdomI)

lemma deleted_is_only:
  assumes "fmlookup (re_Endpoints e) k = Some x"
  shows "getDeletedEntry e (without_endpoint k e) = only_endpoint k x e"
proof -
  have "fmfilter (absent_in (without_endpoint k e)) (re_Endpoints e) = fmupd k x fmempty"
    by (rule fmap_ext) (use assms in \<open>auto simp: absent_in_def\<close>)
  then show ?thesis by (simp add: getDeletedEntry_eq only_endpoint_def)
qed

lemma removeEndpoint_eq [shape]:
  "removeEndpoint bbs key ep t =
     (case removable_endpoint bbs t key ep of
        None \<Rightarrow> ([], t)
      | Some x \<Rightarrow>
          (createRoutingEvent key (only_endpoint (endpoint_Key ep) x (entry_at t key))
             RouteUnregistrationEvent,
           set_entry key (without_endpoint (endpoint_Key ep) (entry_at t key)) t))"
  using removal_is_change [of "entry_at t key" "endpoint_Key ep"]
    deleted_is_only [of "entry_at t key" "endpoint_Key ep"]
  by (auto simp: removeEndpoint_def removable_endpoint_def Let_def without_endpoint_def
      split: option.splits)

lemma matching_endpoint_pair:
  "matching_endpoint op key (p, ep) t =
     (if rk_ContainerPort key = ep_ContainerPort ep then op key ep t else ([], t))"
  by (simp add: matching_endpoint_def)

lemma matching_loop_eq:
  assumes "distinct (map fst pes)" and "\<And>p ep. (p, ep) \<in> set pes \<Longrightarrow> ep_ContainerPort ep = p"
  shows "loop_events (matching_endpoint op key) pes t =
     (case map_of pes (rk_ContainerPort key) of None \<Rightarrow> ([], t) | Some ep \<Rightarrow> op key ep t)"
  using assms
proof (induction pes arbitrary: t)
  case (Cons pe pes)
  obtain p ep where pe: "pe = (p, ep)" by (cases pe)
  with Cons.prems have p: "ep_ContainerPort ep = p" and none: "map_of pes p = None"
    by (auto simp: map_of_eq_None_iff)
  have "loop_events (matching_endpoint op key) pes s =
     (case map_of pes (rk_ContainerPort key) of None \<Rightarrow> ([], s) | Some ep \<Rightarrow> op key ep s)" for s
    using Cons by auto
  with pe p none show ?case
    by (auto simp: matching_endpoint_pair intro!: prod_eqI split: option.splits simp del: map_of_eq_Some_iff)
qed simp

lemma for_each_lookup:
  assumes "\<And>p ep. fmlookup m p = Some ep \<Longrightarrow> ep_ContainerPort ep = p"
  shows "for_each_endpoint op (range_map ord path m) keys t =
     loop_events (\<lambda>key s. case fmlookup m (rk_ContainerPort key) of
        None \<Rightarrow> ([], s) | Some ep \<Rightarrow> op key ep s) keys t"
proof -
  have "loop_events (matching_endpoint op key) (range_map ord path m) s =
     (case fmlookup m (rk_ContainerPort key) of None \<Rightarrow> ([], s) | Some ep \<Rightarrow> op key ep s)" for key s
    by (subst matching_loop_eq) (auto simp: assms map_of_range_map)
  then show ?thesis unfolding for_each_endpoint_def by (intro loop_events_cong_body) simp
qed

subsection \<open>The invariant of the table and the loops that keep it\<close>

text \<open>
  In a well-formed table every entry files its endpoints under their own key and holds endpoints
  of its own container port only. A good event is deliverable, well formed and of one of the two
  types.
\<close>

definition wf_entry :: "routing_key \<Rightarrow> routable_endpoints \<Rightarrow> bool" where
  "wf_entry key e \<longleftrightarrow>
     (\<forall>k ep. fmlookup (re_Endpoints e) k = Some ep \<longrightarrow>
        endpoint_Key ep = k \<and> ep_ContainerPort ep = rk_ContainerPort key)"

definition wf_table :: "routing_table \<Rightarrow> bool" where
  "wf_table t \<longleftrightarrow> (\<forall>key e. fmlookup (entries t) key = Some e \<longrightarrow> wf_entry key e)"

definition good_event :: "routing_event \<Rightarrow> bool" where
  "good_event r \<longleftrightarrow> deliverable (ev_Entry r) \<and> wf_entry (ev_Key r) (ev_Entry r) \<and>
     (ev_EventType r = RouteRegistrationEvent \<or> ev_EventType r = RouteUnregistrationEvent)"

lemma wf_entry_same_endpoints:
  "re_Endpoints e' = re_Endpoints e \<Longrightarrow> wf_entry key e \<Longrightarrow> wf_entry key e'"
  by (simp add: wf_entry_def)

lemma wf_zero_entry [simp]: "wf_entry key zero_entry"
  by (simp add: wf_entry_def)

lemma wf_entry_at [simp]: "wf_table t \<Longrightarrow> wf_entry key (entry_at t key)"
  by (cases rule: entry_at_cases [of t key]) (auto simp: wf_table_def)

lemma wf_set_entry: "wf_table t \<Longrightarrow> wf_entry key e \<Longrightarrow> wf_table (set_entry key e t)"
  by (auto simp: wf_table_def split: if_splits)

lemma wf_drop_entry: "wf_table t \<Longrightarrow> wf_table (t\<lparr>entries := fmdrop key (entries t)\<rparr>)"
  by (auto simp: wf_table_def split: if_splits)

lemma wf_with_endpoint:
  "wf_entry key e \<Longrightarrow> rk_ContainerPort key = ep_ContainerPort ep \<Longrightarrow> wf_entry key (with_endpoint ep e)"
  by (auto simp: wf_entry_def)

lemma wf_without_endpoint: "wf_entry key e \<Longrightarrow> wf_entry key (without_endpoint k e)"
  by (auto simp: wf_entry_def)

lemma wf_only_endpoint:
  "wf_entry key e \<Longrightarrow> fmlookup (re_Endpoints e) k = Some x \<Longrightarrow> wf_entry key (only_endpoint k x e)"
  by (auto simp: wf_entry_def)

lemma wf_NewTable [simp]: "wf_table (NewTable None)"
  by (simp add: wf_table_def)

lemma good_created:
  "wf_entry key e \<Longrightarrow> ty = RouteRegistrationEvent \<or> ty = RouteUnregistrationEvent \<Longrightarrow>
   r \<in> set (createRoutingEvent key e ty) \<Longrightarrow> good_event r"
  by (auto simp: good_event_def split: if_splits)

lemma wf_mergeRoutes [contract]:
  "wf_table t \<Longrightarrow> wf_table (snd (mergeRoutes (entry_at t key) routes key lg tag t))"
  by (simp add: mergeRoutes_eq Let_def wf_set_entry wf_entry_same_endpoints [of _ "entry_at t key"])

lemma good_mergeRoutes [contract]:
  "wf_table t \<Longrightarrow> r \<in> set (fst (mergeRoutes (entry_at t key) routes key lg tag t)) \<Longrightarrow> good_event r"
  using wf_entry_at [of t key]
  by (auto simp: mergeRoutes_eq Let_def good_event_def wf_entry_same_endpoints [of _ "entry_at t key"]
      split: if_splits)

interpretation add_loop: event_step "add_route bbs info routes" wf_table good_event "\<lambda>_. True"
  for bbs info routes
  by unfold_locales (auto simp: add_route_eq wf_mergeRoutes dest: good_mergeRoutes split: if_splits)

interpretation remove_loop: event_step "remove_key bbs tag" wf_table good_event "\<lambda>_. True"
  for bbs tag
  by unfold_locales
    (auto simp: remove_key_eq wf_drop_entry wf_table_def good_event_def split: option.splits if_splits)

lemma wf_addEndpoint [contract]:
  "wf_table t \<Longrightarrow> rk_ContainerPort key = ep_ContainerPort ep \<Longrightarrow> wf_table (snd (addEndpoint bbs key ep t))"
  by (simp add: addEndpoint_eq wf_set_entry wf_with_endpoint)

lemma good_addEndpoint [contract]:
  "wf_table t \<Longrightarrow> rk_ContainerPort key = ep_ContainerPort ep \<Longrightarrow>
   r \<in> set (fst (addEndpoint bbs key ep t)) \<Longrightarrow> good_event r"
  by (auto simp: addEndpoint_eq good_event_def wf_with_endpoint split: if_splits)

lemma removable_lookup:
  "removable_endpoint bbs t key ep = Some x \<Longrightarrow>
   fmlookup (re_Endpoints (entry_at t key)) (endpoint_Key ep) = Some x"
  by (auto simp: removable_endpoint_def split: option.splits if_splits)

lemma wf_removeEndpoint [contract]: "wf_table t \<Longrightarrow> wf_table (snd (removeEndpoint bbs key ep t))"
  by (simp add: removeEndpoint_eq wf_set_entry wf_without_endpoint split: option.splits)

lemma good_removeEndpoint [contract]:
  "wf_table t \<Longrightarrow> r \<in> set (fst (removeEndpoint bbs key ep t)) \<Longrightarrow> good_event r"
  by (auto simp: removeEndpoint_eq good_event_def wf_only_endpoint removable_lookup
      split: if_splits option.splits)

interpretation add_ep_inner:
  event_step "matching_endpoint (addEndpoint bbs) key" wf_table good_event "\<lambda>_. True" for bbs key
  by unfold_locales
    (auto simp: matching_endpoint_def wf_addEndpoint dest: good_addEndpoint split: if_splits)

interpretation remove_ep_inner:
  event_step "matching_endpoint (removeEndpoint bbs) key" wf_table good_event "\<lambda>_. True" for bbs key
  by unfold_locales
    (auto simp: matching_endpoint_def wf_removeEndpoint dest: good_removeEndpoint split: if_splits)

lemma all_legal [simp]: "list_all (\<lambda>_. True) xs"
  by (simp add: list_all_iff)

interpretation add_ep_outer:
  event_step "\<lambda>key. loop_events (matching_endpoint (addEndpoint bbs) key) pes" wf_table good_event
    "\<lambda>_. True" for bbs pes
  by unfold_locales (auto intro: add_ep_inner.loop_inv dest: add_ep_inner.loop_good)

interpretation remove_ep_outer:
  event_step "\<lambda>key. loop_events (matching_endpoint (removeEndpoint bbs) key) pes" wf_table good_event
    "\<lambda>_. True" for bbs pes
  by unfold_locales (auto intro: remove_ep_inner.loop_inv dest: remove_ep_inner.loop_good)

lemma AddEndpoint_Some:
  "AddEndpoint bbs g t = Some r \<Longrightarrow>
   \<exists>pes keys. r = loop_events (\<lambda>key. loop_events (matching_endpoint (addEndpoint bbs) key) pes) keys t"
  by (auto simp: AddEndpoint_def for_each_endpoint_def bind_eq_Some_conv)

lemma RemoveEndpoint_Some:
  "RemoveEndpoint bbs g t = Some r \<Longrightarrow>
   \<exists>pes keys. r = loop_events (\<lambda>key. loop_events (matching_endpoint (removeEndpoint bbs) key) pes) keys t"
  by (auto simp: RemoveEndpoint_def for_each_endpoint_def bind_eq_Some_conv)

lemma wf_addRoutes [contract]: "wf_table t \<Longrightarrow> wf_table (snd (addRoutes bbs info t))"
  by (simp add: addRoutes_def Let_def add_loop.loop_inv)

lemma good_addRoutes [contract]:
  "wf_table t \<Longrightarrow> r \<in> set (fst (addRoutes bbs info t)) \<Longrightarrow> good_event r"
  by (auto simp: addRoutes_def Let_def intro: add_loop.loop_good)

lemma wf_removeRoutingKeys [contract]:
  "wf_table t \<Longrightarrow> wf_table (snd (removeRoutingKeys bbs ks tag t))"
  by (simp add: removeRoutingKeys_def remove_loop.loop_inv)

lemma good_removeRoutingKeys [contract]:
  "wf_table t \<Longrightarrow> r \<in> set (fst (removeRoutingKeys bbs ks tag t)) \<Longrightarrow> good_event r"
  by (auto simp: removeRoutingKeys_def intro: remove_loop.loop_good)

lemma UpdateRoutes_fst [shape]:
  "fst (UpdateRoutes bbs before after t) =
     fst (addRoutes bbs after t) @
     fst (removeRoutingKeys bbs (keys_Remove (desired_keys bbs before) (desired_keys bbs after))
            (Some (si_ModificationTag after)) (snd (addRoutes bbs after t)))"
  by (simp add: UpdateRoutes_def Let_def case_prod_beta)

lemma UpdateRoutes_snd [shape]:
  "snd (UpdateRoutes bbs before after t) =
     snd (removeRoutingKeys bbs (keys_Remove (desired_keys bbs before) (desired_keys bbs after))
            (Some (si_ModificationTag after)) (snd (addRoutes bbs after t)))"
  by (simp add: UpdateRoutes_def Let_def case_prod_beta)

lemma addRoutes_eq:
  "addRoutes bbs info t =
     loop_events (add_route bbs info (fst (TCPRoutesFromRoutingInfo bbs (si_Routes info))))
       (desired_keys bbs info) t"
  by (simp add: addRoutes_def desired_keys_def Let_def)

lemma Swap_simps [simp]:
  "Swap ord OtherRoutingTable t = ([], t)"
  "snd (Swap ord (IsRoutingTable n) t) = n"
  by (simp_all add: Swap_def Let_def)

lemma in_Swap:
  "r \<in> set (fst (Swap ord (IsRoutingTable n) t)) \<longleftrightarrow>
     (\<exists>key e. fmlookup (entries n) key = Some e \<and>
        (r \<in> set (createRoutingEvent key e RouteRegistrationEvent) \<or>
         r \<in> set (createRoutingEvent key
               (RemoveExternalEndpoints (entry_at t key) (re_ExternalEndpoints e))
               RouteUnregistrationEvent))) \<or>
     (\<exists>key e. fmlookup (entries t) key = Some e \<and> fmlookup (entries n) key = None \<and>
        r \<in> set (createRoutingEvent key e RouteUnregistrationEvent))"
  by (auto simp: Swap_def Let_def split: if_splits)

lemma good_Swap [contract]:
  assumes "wf_table t" "wf_table n" "r \<in> set (fst (Swap ord (IsRoutingTable n) t))"
  shows "good_event r"
proof -
  have "wf_entry key (RemoveExternalEndpoints (entry_at t key) x)" for key x
    using wf_entry_at [OF assms(1)] by (rule wf_entry_same_endpoints [rotated]) simp
  moreover have "wf_entry key e"
    if "fmlookup (entries n) key = Some e \<or> fmlookup (entries t) key = Some e" for key e
    using that assms(1,2) by (auto simp: wf_table_def)
  ultimately show ?thesis
    using assms(3) unfolding in_Swap by (auto simp: good_event_def)
qed

lemma in_GetRoutingEvents:
  "r \<in> set (GetRoutingEvents ord t) \<longleftrightarrow>
     (\<exists>key e. fmlookup (entries t) key = Some e \<and> deliverable e \<and>
        r = mk_event RouteRegistrationEvent key e)"
  by (auto simp: GetRoutingEvents_def)

subsection \<open>The interface RoutingTable and the reachable tables\<close>

text \<open>The state-changing methods of the Go interface, and what a call of one does.\<close>

datatype table_call =
    CallAddRoutes scheduling_info
  | CallUpdateRoutes scheduling_info scheduling_info
  | CallRemoveRoutes scheduling_info
  | CallAddEndpoint actual_lrp_group
  | CallRemoveEndpoint actual_lrp_group

fun run_call ::
  "bbs_models \<Rightarrow> table_call \<Rightarrow> routing_table \<Rightarrow> (routing_event list \<times> routing_table) option" where
  "run_call bbs (CallAddRoutes info) t = Some (AddRoutes bbs info t)"
| "run_call bbs (CallUpdateRoutes before after) t = Some (UpdateRoutes bbs before after t)"
| "run_call bbs (CallRemoveRoutes info) t = Some (RemoveRoutes bbs info t)"
| "run_call bbs (CallAddEndpoint g) t = AddEndpoint bbs g t"
| "run_call bbs (CallRemoveEndpoint g) t = RemoveEndpoint bbs g t"

inductive reachable_table :: "bbs_models \<Rightarrow> routing_table \<Rightarrow> bool" for bbs where
  new_table: "reachable_table bbs (NewTable None)"
| call: "reachable_table bbs t \<Longrightarrow> run_call bbs c t = Some (rs, t') \<Longrightarrow> reachable_table bbs t'"
| swap: "reachable_table bbs t \<Longrightarrow> reachable_table bbs n \<Longrightarrow>
    reachable_table bbs (snd (Swap ord (IsRoutingTable n) t))"

lemma run_call_contract:
  assumes "wf_table t" "run_call bbs c t = Some (rs, t')"
  shows "wf_table t' \<and> (\<forall>r \<in> set rs. good_event r)"
proof (cases c)
  case (CallAddRoutes info)
  with assms show ?thesis
    by (auto simp: AddRoutes_def dest: wf_addRoutes [of t bbs info] good_addRoutes [of t _ bbs info])
next
  case (CallUpdateRoutes before after)
  with assms have "rs = fst (UpdateRoutes bbs before after t)" "t' = snd (UpdateRoutes bbs before after t)"
    by simp_all
  with assms(1) show ?thesis
    by (auto simp: UpdateRoutes_fst UpdateRoutes_snd
        intro: wf_addRoutes wf_removeRoutingKeys good_addRoutes good_removeRoutingKeys)
next
  case (CallRemoveRoutes info)
  with assms have "(rs, t') = removeRoutingKeys bbs (desired_keys bbs info) (Some (si_ModificationTag info)) t"
    by (simp add: RemoveRoutes_def)
  with assms(1) show ?thesis
    by (metis fst_conv snd_conv wf_removeRoutingKeys good_removeRoutingKeys)
next
  case (CallAddEndpoint g)
  with assms obtain pes keys where
    "(rs, t') = loop_events (\<lambda>key. loop_events (matching_endpoint (addEndpoint bbs) key) pes) keys t"
    using AddEndpoint_Some [of bbs g t] by auto
  with assms(1) show ?thesis
    using add_ep_outer.loop_inv [of t keys bbs pes] add_ep_outer.loop_good [of t keys _ bbs pes]
    by (metis all_legal fst_conv snd_conv)
next
  case (CallRemoveEndpoint g)
  with assms obtain pes keys where
    "(rs, t') = loop_events (\<lambda>key. loop_events (matching_endpoint (removeEndpoint bbs) key) pes) keys t"
    using RemoveEndpoint_Some [of bbs g t] by auto
  with assms(1) show ?thesis
    using remove_ep_outer.loop_inv [of t keys bbs pes] remove_ep_outer.loop_good [of t keys _ bbs pes]
    by (metis all_legal fst_conv snd_conv)
qed

lemma reachable_table_wf: "reachable_table bbs t \<Longrightarrow> wf_table t"
  by (induction rule: reachable_table.induct) (auto dest: run_call_contract)

end
