(* ===== verification/Table_Laws.thy ===== *)
theory Table_Laws
  imports Routing_Table
begin

text \<open>
  What the operations of the routing table do, key by key: the entry every key has after
  \<open>AddRoutes\<close>, \<open>UpdateRoutes\<close>, \<open>RemoveRoutes\<close>, \<open>AddEndpoint\<close>, \<open>RemoveEndpoint\<close> and \<open>Swap\<close>, and exactly
  which events each emits. The loops over routing keys are instances of the contract \<open>keyed_step\<close>
  of the prelude, so repeated keys and the order of the keys do not matter.
\<close>

subsection \<open>Lemmas: what the loops over routing keys do, key by key\<close>

text \<open>What one round of \<open>addRoutes\<close> does to the entry of its key, and which events it emits.\<close>

definition takes_routes ::
  "bbs_models \<Rightarrow> scheduling_info \<Rightarrow> tcp_route list \<Rightarrow> routing_key \<Rightarrow> routable_endpoints \<Rightarrow> bool" where
  "takes_routes bbs info routes key e \<longleftrightarrow>
     SucceededBy bbs (re_ModificationTag e) (Some (si_ModificationTag info)) \<and>
     \<not> ports (route_exts key routes) \<subseteq> ports (re_ExternalEndpoints e)"

definition with_routes ::
  "scheduling_info \<Rightarrow> tcp_route list \<Rightarrow> routing_key \<Rightarrow> routable_endpoints \<Rightarrow> routable_endpoints" where
  "with_routes info routes key e =
     e\<lparr>re_ExternalEndpoints := route_exts key routes,
       re_LogGUID := si_LogGuid info,
       re_ModificationTag := Some (si_ModificationTag info)\<rparr>"

lemma with_routes_simps [simp]:
  "re_ExternalEndpoints (with_routes info routes key e) = route_exts key routes"
  "re_Endpoints (with_routes info routes key e) = re_Endpoints e"
  "re_LogGUID (with_routes info routes key e) = si_LogGuid info"
  "re_ModificationTag (with_routes info routes key e) = Some (si_ModificationTag info)"
  by (simp_all add: with_routes_def)

lemma takes_routes_once [simp]: "\<not> takes_routes bbs info routes key (with_routes info routes key e)"
  by (simp add: takes_routes_def)

definition route_events ::
  "bbs_models \<Rightarrow> scheduling_info \<Rightarrow> tcp_route list \<Rightarrow> routing_key \<Rightarrow> routable_endpoints \<Rightarrow>
   routing_event list" where
  "route_events bbs info routes key e =
     (if SucceededBy bbs (re_ModificationTag e) (Some (si_ModificationTag info))
      then (if takes_routes bbs info routes key e
            then createRoutingEvent key (with_routes info routes key e) RouteRegistrationEvent else [])
           @ createRoutingEvent key (RemoveExternalEndpoints e (route_exts key routes))
               RouteUnregistrationEvent
      else [])"

lemma fst_add_route: "fst (add_route bbs info routes key t) = route_events bbs info routes key (entry_at t key)"
  by (simp add: add_route_eq mergeRoutes_eq route_events_def takes_routes_def with_routes_def Let_def)

lemma snd_add_route:
  "snd (add_route bbs info routes key t) =
     (if takes_routes bbs info routes key (entry_at t key)
      then set_entry key (with_routes info routes key (entry_at t key)) t else t)"
  by (simp add: add_route_eq mergeRoutes_eq takes_routes_def with_routes_def Let_def)

definition entry_of :: "routable_endpoints option \<Rightarrow> routable_endpoints" where
  "entry_of v = (case v of None \<Rightarrow> zero_entry | Some e \<Rightarrow> e)"

lemma entry_of_Some [simp]: "entry_of (Some e) = e"
  by (simp add: entry_of_def)

lemma entry_at_of: "entry_at t key = entry_of (fmlookup (entries t) key)"
  by (simp add: entry_at_def map_get_def entry_of_def)

lemma route_events_again:
  "r \<in> set (route_events bbs info routes key (with_routes info routes key e)) \<Longrightarrow> False"
  by (auto simp: route_events_def deliverable_def ext_Remove_eq_Nil split: if_splits)

interpretation add_keys: keyed_step "add_route bbs info routes" "\<lambda>t. fmlookup (entries t)"
    "\<lambda>key v. if takes_routes bbs info routes key (entry_of v)
             then Some (with_routes info routes key (entry_of v)) else v"
    "\<lambda>key v. set (route_events bbs info routes key (entry_of v))"
  for bbs info routes
  by unfold_locales (auto simp: snd_add_route fst_add_route entry_at_of dest: route_events_again)

lemma add_loop_lookup:
  "fmlookup (entries (snd (loop_events (add_route bbs info routes) ks t))) key =
     (if key \<in> set ks \<and> takes_routes bbs info routes key (entry_at t key)
      then Some (with_routes info routes key (entry_at t key))
      else fmlookup (entries t) key)"
  by (simp add: add_keys.loop_val entry_at_of)

lemma add_loop_entry_at:
  "entry_at (snd (loop_events (add_route bbs info routes) ks t)) key =
     (if key \<in> set ks \<and> takes_routes bbs info routes key (entry_at t key)
      then with_routes info routes key (entry_at t key) else entry_at t key)"
  by (simp add: entry_at_of add_loop_lookup)

lemma add_loop_events:
  "set (fst (loop_events (add_route bbs info routes) ks t)) =
     (\<Union>key \<in> set ks. set (route_events bbs info routes key (entry_at t key)))"
  by (simp add: add_keys.loop_evs entry_at_of)

text \<open>The same for \<open>removeRoutingKeys\<close>.\<close>

definition drops ::
  "bbs_models \<Rightarrow> modification_tag option \<Rightarrow> routable_endpoints option \<Rightarrow> bool" where
  "drops bbs tag v =
     (case v of None \<Rightarrow> False | Some e \<Rightarrow> SucceededBy bbs (re_ModificationTag e) tag)"

interpretation remove_keys: keyed_step "remove_key bbs tag" "\<lambda>t. fmlookup (entries t)"
    "\<lambda>key v. if drops bbs tag v then None else v"
    "\<lambda>key v. if drops bbs tag v
             then set (createRoutingEvent key (entry_of v) RouteUnregistrationEvent) else {}"
  for bbs tag
  by unfold_locales (auto simp: remove_key_eq drops_def split: option.splits if_splits)

text \<open>
  The endpoint loops: \<open>m\<close> gives the endpoint of each container port, \<open>upd\<close> is what the operation
  does to an entry, \<open>evs\<close> what it emits.
\<close>

definition accepts :: "bbs_models \<Rightarrow> endpoint \<Rightarrow> routable_endpoints \<Rightarrow> bool" where
  "accepts bbs ep e =
     (case fmlookup (re_Endpoints e) (endpoint_Key ep) of
        None \<Rightarrow> True
      | Some x \<Rightarrow> SucceededBy bbs (ep_ModificationTag x) (ep_ModificationTag ep))"

lemma accepts_endpoint_iff: "accepts_endpoint bbs t key ep \<longleftrightarrow> accepts bbs ep (entry_at t key)"
  by (simp add: accepts_endpoint_def accepts_def)

lemma with_endpoint_twice [simp]: "with_endpoint ep (with_endpoint ep e) = with_endpoint ep e"
proof -
  have "fmupd k v (fmupd k v m) = fmupd k v m" for k :: endpoint_key and v :: endpoint and m
    by (rule fmap_ext) simp
  then show ?thesis by (simp add: with_endpoint_def)
qed

definition at_port ::
  "(uint32, endpoint) fmap \<Rightarrow> (routing_key \<Rightarrow> endpoint \<Rightarrow> table_step) \<Rightarrow> routing_key \<Rightarrow> table_step" where
  "at_port m op key t =
     (case fmlookup m (rk_ContainerPort key) of None \<Rightarrow> ([], t) | Some ep \<Rightarrow> op key ep t)"

interpretation add_ep_keys: keyed_step "at_port m (addEndpoint bbs)" "\<lambda>t. fmlookup (entries t)"
    "\<lambda>key v. case fmlookup m (rk_ContainerPort key) of
       None \<Rightarrow> v
     | Some ep \<Rightarrow> if accepts bbs ep (entry_of v) then Some (with_endpoint ep (entry_of v)) else v"
    "\<lambda>key v. case fmlookup m (rk_ContainerPort key) of
       None \<Rightarrow> {}
     | Some ep \<Rightarrow> if accepts bbs ep (entry_of v)
                 then set (createRoutingEvent key (with_endpoint ep (entry_of v)) RouteRegistrationEvent)
                 else {}"
  for m bbs
  by unfold_locales
    (auto simp: at_port_def addEndpoint_eq accepts_endpoint_iff entry_at_of
      split: option.splits if_splits)

definition removable :: "bbs_models \<Rightarrow> endpoint \<Rightarrow> routable_endpoints \<Rightarrow> endpoint option" where
  "removable bbs ep e =
     (case fmlookup (re_Endpoints e) (endpoint_Key ep) of
        None \<Rightarrow> None
      | Some x \<Rightarrow>
          if TagEqual bbs (ep_ModificationTag x) (ep_ModificationTag ep) \<or>
             SucceededBy bbs (ep_ModificationTag x) (ep_ModificationTag ep)
          then Some x else None)"

lemma removable_endpoint_iff: "removable_endpoint bbs t key ep = removable bbs ep (entry_at t key)"
  by (simp add: removable_endpoint_def removable_def)

lemma removable_without [simp]:
  "removable bbs ep (without_endpoint (endpoint_Key ep) e) = None"
  by (simp add: removable_def)

interpretation remove_ep_keys: keyed_step "at_port m (removeEndpoint bbs)" "\<lambda>t. fmlookup (entries t)"
    "\<lambda>key v. case fmlookup m (rk_ContainerPort key) of
       None \<Rightarrow> v
     | Some ep \<Rightarrow>
         (case removable bbs ep (entry_of v) of
            None \<Rightarrow> v
          | Some x \<Rightarrow> Some (without_endpoint (endpoint_Key ep) (entry_of v)))"
    "\<lambda>key v. case fmlookup m (rk_ContainerPort key) of
       None \<Rightarrow> {}
     | Some ep \<Rightarrow>
         (case removable bbs ep (entry_of v) of
            None \<Rightarrow> {}
          | Some x \<Rightarrow> set (createRoutingEvent key
              (only_endpoint (endpoint_Key ep) x (entry_of v)) RouteUnregistrationEvent))"
  for m bbs
  by unfold_locales
    (auto simp: at_port_def removeEndpoint_eq removable_endpoint_iff entry_at_of
      split: option.splits if_splits)

subsection \<open>Lemmas: AddEndpoint and RemoveEndpoint\<close>

text \<open>The endpoints and keys of a resolved LRP, and the endpoint it has for a routing key.\<close>

definition lrp_map :: "actual_lrp \<Rightarrow> bool \<Rightarrow> (uint32, endpoint) fmap" where
  "lrp_map a ev = fold (\<lambda>pm. fmupd (pm_ContainerPort pm) (lrp_endpoint a ev pm)) (alrp_Ports a) fmempty"

definition lrp_keys :: "actual_lrp \<Rightarrow> routing_key list" where
  "lrp_keys a = map (\<lambda>pm. NewRoutingKey (alrp_ProcessGuid a) (pm_ContainerPort pm)) (alrp_Ports a)"

definition port_endpoint :: "actual_lrp \<Rightarrow> bool \<Rightarrow> routing_key \<Rightarrow> endpoint option" where
  "port_endpoint a ev key =
     (if rk_ProcessGUID key = alrp_ProcessGuid a
      then map_option (lrp_endpoint a ev)
        (find (\<lambda>pm. pm_ContainerPort pm = rk_ContainerPort key) (rev (alrp_Ports a)))
      else None)"

lemma NewEndpointsFromActual_eq:
  "NewEndpointsFromActual bbs g = map_option (\<lambda>(a, ev). lrp_map a ev) (Resolve bbs g)"
  by (cases "Resolve bbs g")
    (auto simp: NewEndpointsFromActual_def lrp_map_def lrp_endpoint_def)

lemma NewRoutingKeysFromActual_eq:
  "NewRoutingKeysFromActual bbs g = map_option (\<lambda>(a, ev). lrp_keys a) (Resolve bbs g)"
  by (cases "Resolve bbs g") (auto simp: NewRoutingKeysFromActual_def lrp_keys_def)

lemma lrp_map_lookup:
  "fmlookup (lrp_map a ev) p =
     map_option (lrp_endpoint a ev) (find (\<lambda>pm. pm_ContainerPort pm = p) (rev (alrp_Ports a)))"
  by (simp add: lrp_map_def fold_fmupd_last split: option.splits)

lemma find_pred: "find P xs = Some x \<Longrightarrow> P x"
  by (auto simp: find_Some_iff)

lemma lrp_map_port: "fmlookup (lrp_map a ev) p = Some ep \<Longrightarrow> ep_ContainerPort ep = p"
  by (auto simp: lrp_map_lookup dest: find_pred)

lemma port_endpoint_at_port:
  "(if key \<in> set (lrp_keys a) then fmlookup (lrp_map a ev) (rk_ContainerPort key) else None) =
     port_endpoint a ev key"
  by (auto simp: lrp_keys_def lrp_map_lookup port_endpoint_def NewRoutingKey_sel image_iff
      find_None_iff)

lemma port_endpoint_key:
  "port_endpoint a ev key = Some ep \<Longrightarrow>
   endpoint_Key ep = EndpointKey (alrp_InstanceGuid a) ev \<and>
   ep_ContainerPort ep = rk_ContainerPort key \<and>
   ep_ModificationTag ep = Some (alrp_ModificationTag a)"
  by (auto simp: port_endpoint_def dest: find_pred split: if_splits)

lemma for_each_at_port:
  "for_each_endpoint op (range_map ord path (lrp_map a ev)) keys t =
     loop_events (at_port (lrp_map a ev) op) keys t"
  by (subst for_each_lookup) (auto simp: lrp_map_port at_port_def [abs_def] intro!: loop_events_cong_body)

lemma AddEndpoint_eq:
  "AddEndpoint bbs g t =
     map_option (\<lambda>(a, ev). loop_events (at_port (lrp_map a ev) (addEndpoint bbs)) (lrp_keys a) t)
       (Resolve bbs g)"
  by (cases "Resolve bbs g")
    (auto simp: AddEndpoint_def NewEndpointsFromActual_eq NewRoutingKeysFromActual_eq range_any_def
      for_each_at_port)

lemma RemoveEndpoint_eq:
  "RemoveEndpoint bbs g t =
     map_option (\<lambda>(a, ev). loop_events (at_port (lrp_map a ev) (removeEndpoint bbs)) (lrp_keys a) t)
       (Resolve bbs g)"
  by (cases "Resolve bbs g")
    (auto simp: RemoveEndpoint_def NewEndpointsFromActual_eq NewRoutingKeysFromActual_eq range_any_def
      for_each_at_port)

text \<open>The effect on one entry, and the event it causes.\<close>

definition put_lrp :: "bbs_models \<Rightarrow> actual_lrp \<Rightarrow> bool \<Rightarrow> routing_key \<Rightarrow> routable_endpoints \<Rightarrow>
   routable_endpoints option" where
  "put_lrp bbs a ev key e =
     (case port_endpoint a ev key of
        None \<Rightarrow> None
      | Some ep \<Rightarrow> if accepts bbs ep e then Some (with_endpoint ep e) else None)"

definition take_lrp :: "bbs_models \<Rightarrow> actual_lrp \<Rightarrow> bool \<Rightarrow> routing_key \<Rightarrow> routable_endpoints \<Rightarrow>
   (endpoint \<times> routable_endpoints) option" where
  "take_lrp bbs a ev key e =
     (case port_endpoint a ev key of
        None \<Rightarrow> None
      | Some ep \<Rightarrow>
          map_option (\<lambda>x. (x, without_endpoint (endpoint_Key ep) e)) (removable bbs ep e))"

lemma AddEndpoint_lookup:
  "fmlookup (entries (snd (loop_events (at_port (lrp_map a ev) (addEndpoint bbs)) (lrp_keys a) t))) key =
     (case put_lrp bbs a ev key (entry_at t key) of
        None \<Rightarrow> fmlookup (entries t) key | Some e \<Rightarrow> Some e)"
  using port_endpoint_at_port [of key a ev]
  by (auto simp: add_ep_keys.loop_val put_lrp_def entry_at_of split: option.splits if_splits)

lemma AddEndpoint_events:
  "r \<in> set (fst (loop_events (at_port (lrp_map a ev) (addEndpoint bbs)) (lrp_keys a) t)) \<longleftrightarrow>
     (\<exists>key e. put_lrp bbs a ev key (entry_at t key) = Some e \<and>
        r \<in> set (createRoutingEvent key e RouteRegistrationEvent))"
proof -
  have keys: "key \<in> set (lrp_keys a)" if "put_lrp bbs a ev key e = Some e'" for key e e'
    using that port_endpoint_at_port [of key a ev]
    by (simp add: put_lrp_def split: if_splits option.splits)
  have step: "r \<in> (case fmlookup (lrp_map a ev) (rk_ContainerPort key) of
        None \<Rightarrow> {}
      | Some ep \<Rightarrow> if accepts bbs ep (entry_at t key)
          then set (createRoutingEvent key (with_endpoint ep (entry_at t key)) RouteRegistrationEvent)
          else {}) \<longleftrightarrow>
      (\<exists>e. put_lrp bbs a ev key (entry_at t key) = Some e \<and>
        r \<in> set (createRoutingEvent key e RouteRegistrationEvent))"
    if "key \<in> set (lrp_keys a)" for key
    using that port_endpoint_at_port [of key a ev]
    by (simp add: put_lrp_def split: if_splits option.splits)
  show ?thesis
    unfolding add_ep_keys.loop_evs entry_at_of [symmetric] UN_iff using step keys by blast
qed

lemma RemoveEndpoint_lookup:
  "fmlookup (entries (snd (loop_events (at_port (lrp_map a ev) (removeEndpoint bbs)) (lrp_keys a) t))) key =
     (case take_lrp bbs a ev key (entry_at t key) of
        None \<Rightarrow> fmlookup (entries t) key | Some (_, e) \<Rightarrow> Some e)"
  using port_endpoint_at_port [of key a ev]
  by (auto simp: remove_ep_keys.loop_val take_lrp_def entry_at_of split: option.splits if_splits)

lemma RemoveEndpoint_events:
  "r \<in> set (fst (loop_events (at_port (lrp_map a ev) (removeEndpoint bbs)) (lrp_keys a) t)) \<longleftrightarrow>
     (\<exists>key x e. take_lrp bbs a ev key (entry_at t key) = Some (x, e) \<and>
        r \<in> set (createRoutingEvent key
               (only_endpoint (EndpointKey (alrp_InstanceGuid a) ev) x (entry_at t key))
               RouteUnregistrationEvent))"
proof -
  have keys: "key \<in> set (lrp_keys a)" if "take_lrp bbs a ev key e = Some e'" for key e e'
    using that port_endpoint_at_port [of key a ev]
    by (simp add: take_lrp_def split: if_splits option.splits)
  have step: "r \<in> (case fmlookup (lrp_map a ev) (rk_ContainerPort key) of
        None \<Rightarrow> {}
      | Some ep \<Rightarrow>
          (case removable bbs ep (entry_at t key) of
             None \<Rightarrow> {}
           | Some x \<Rightarrow> set (createRoutingEvent key
               (only_endpoint (endpoint_Key ep) x (entry_at t key)) RouteUnregistrationEvent))) \<longleftrightarrow>
      (\<exists>x e. take_lrp bbs a ev key (entry_at t key) = Some (x, e) \<and>
        r \<in> set (createRoutingEvent key
               (only_endpoint (EndpointKey (alrp_InstanceGuid a) ev) x (entry_at t key))
               RouteUnregistrationEvent))"
    if "key \<in> set (lrp_keys a)" for key
    using that port_endpoint_at_port [of key a ev] port_endpoint_key [of a ev key]
    by (simp add: take_lrp_def split: if_splits option.splits)
  show ?thesis
    unfolding remove_ep_keys.loop_evs entry_at_of [symmetric] UN_iff using step keys by blast
qed

subsection \<open>Properties\<close>

text \<open>
  C30: In every table reachable from an empty one by any calls of the interface, every entry files
  its endpoints under their own instance key and holds endpoints of its own container port only;
  and every event any further call emits names at least one external endpoint and at least one
  backend of its key and has one of the two event types.
\<close>

theorem reachable_tables_sound:
  assumes "reachable_table bbs t"
  shows "(\<forall>key e k ep. fmlookup (entries t) key = Some e \<longrightarrow> fmlookup (re_Endpoints e) k = Some ep \<longrightarrow>
      endpoint_Key ep = k \<and> ep_ContainerPort ep = rk_ContainerPort key) \<and>
    (\<forall>c rs t' r. run_call bbs c t = Some (rs, t') \<longrightarrow> r \<in> set rs \<longrightarrow>
      re_ExternalEndpoints (ev_Entry r) \<noteq> [] \<and> map_len (re_Endpoints (ev_Entry r)) > 0 \<and>
      (\<forall>k ep. fmlookup (re_Endpoints (ev_Entry r)) k = Some ep \<longrightarrow>
         ep_ContainerPort ep = rk_ContainerPort (ev_Key r)) \<and>
      ev_EventType r \<in> {RouteRegistrationEvent, RouteUnregistrationEvent})"
proof -
  have wf: "wf_table t" using assms by (rule reachable_table_wf)
  then have "good_event r" if "run_call bbs c t = Some (rs, t')" "r \<in> set rs" for c rs t' r
    using that run_call_contract by blast
  with wf show ?thesis
    by (fastforce simp: wf_table_def wf_entry_def good_event_def deliverable_def)
qed

text \<open>
  C2: \<open>AddRoutes\<close>, entry by entry. An entry changes only if its key is one of the LRP's, the tag of
  the entry is succeeded by the LRP's and the routes give it a port it does not have. Then the
  external endpoints, the log guid and the tag are replaced and the endpoints stay. In particular a
  newer desired LRP that only takes ports away leaves the entry, with its old ports and tag, as it was.
\<close>

theorem AddRoutes_entries:
  "fmlookup (entries (snd (AddRoutes bbs info t))) key =
     (let routes = fst (TCPRoutesFromRoutingInfo bbs (si_Routes info));
          e = entry_at t key;
          exts = map (\<lambda>r. NewExternalEndpointInfo (tr_RouterGroupGuid r) (tr_ExternalPort r))
                   (filter (\<lambda>r. tr_ContainerPort r = rk_ContainerPort key) routes)
      in if key \<in> set (desired_keys bbs info) \<and>
            SucceededBy bbs (re_ModificationTag e) (Some (si_ModificationTag info)) \<and>
            \<not> ee_Port ` set exts \<subseteq> ee_Port ` set (re_ExternalEndpoints e)
         then Some (e\<lparr>re_ExternalEndpoints := exts, re_LogGUID := si_LogGuid info,
                      re_ModificationTag := Some (si_ModificationTag info)\<rparr>)
         else fmlookup (entries t) key)"
  by (simp add: AddRoutes_def addRoutes_eq add_loop_lookup takes_routes_def with_routes_def
      route_exts_def ports_def Let_def)

text \<open>
  \<open>UpdateRoutes\<close>, entry by entry: the keys of the LRP after the update are treated as \<open>AddRoutes\<close>
  treats them; a key it had before and has no more is deleted, endpoints and all, if the new tag
  succeeds the entry's; no other entry changes.
\<close>

lemma UpdateRoutes_entries:
  "fmlookup (entries (snd (UpdateRoutes bbs before after t))) key =
     (if key \<in> set (desired_keys bbs after) then fmlookup (entries (snd (AddRoutes bbs after t))) key
      else if key \<in> set (desired_keys bbs before) \<and>
        (\<exists>e. fmlookup (entries t) key = Some e \<and>
           SucceededBy bbs (re_ModificationTag e) (Some (si_ModificationTag after)))
      then None
      else fmlookup (entries t) key)"
  by (auto simp: UpdateRoutes_snd AddRoutes_def addRoutes_eq removeRoutingKeys_def
      remove_keys.loop_val add_loop_lookup keys_Remove_filter drops_def split: option.splits)

text \<open>
  \<open>RemoveRoutes\<close> deletes exactly the LRP's entries whose tag the given one succeeds, and emits
  an unregistration of each deleted entry that has external endpoints and backends, no other event.
\<close>

lemma RemoveRoutes_effect:
  "fmlookup (entries (snd (RemoveRoutes bbs info t))) key =
     (case fmlookup (entries t) key of
        None \<Rightarrow> None
      | Some e \<Rightarrow>
          if key \<in> set (desired_keys bbs info) \<and>
             SucceededBy bbs (re_ModificationTag e) (Some (si_ModificationTag info))
          then None else Some e) \<and>
   set (fst (RemoveRoutes bbs info t)) =
     {mk_event RouteUnregistrationEvent k e | k e.
        k \<in> set (desired_keys bbs info) \<and> fmlookup (entries t) k = Some e \<and>
        SucceededBy bbs (re_ModificationTag e) (Some (si_ModificationTag info)) \<and>
        re_ExternalEndpoints e \<noteq> [] \<and> re_Endpoints e \<noteq> fmempty}"
  by (auto simp: RemoveRoutes_def removeRoutingKeys_def remove_keys.loop_val remove_keys.loop_evs
      drops_def deliverable_def split: option.splits if_splits)

text \<open>
  C28: \<open>AddEndpoint\<close> panics exactly where \<open>Resolve\<close> does. Otherwise every key of the LRP gets the
  LRP's endpoint for its container port, unless the entry holds the instance with a tag the LRP's
  does not succeed; no other entry changes; and the events are exactly one registration of the new
  entry for every key that took the endpoint and has external endpoints.
\<close>

theorem AddEndpoint_effect:
  "case Resolve bbs g of
     None \<Rightarrow> AddEndpoint bbs g t = None
   | Some (a, ev) \<Rightarrow>
       (\<exists>rs t'. AddEndpoint bbs g t = Some (rs, t') \<and>
          (\<forall>key. fmlookup (entries t') key =
             (case put_lrp bbs a ev key (entry_at t key) of
                None \<Rightarrow> fmlookup (entries t) key | Some e \<Rightarrow> Some e)) \<and>
          set rs = {mk_event RouteRegistrationEvent key e | key e.
             put_lrp bbs a ev key (entry_at t key) = Some e \<and> re_ExternalEndpoints e \<noteq> []})"
proof (cases "Resolve bbs g")
  case None
  then show ?thesis by (simp add: AddEndpoint_eq)
next
  case (Some r)
  obtain a ev where r: "r = (a, ev)" by (cases r)
  let ?out = "loop_events (at_port (lrp_map a ev) (addEndpoint bbs)) (lrp_keys a) t"
  have ne: "re_Endpoints e \<noteq> fmempty" if "put_lrp bbs a ev key (entry_at t key) = Some e" for key e
    using that by (auto simp: put_lrp_def split: option.splits if_splits)
  have "set (fst ?out) = {mk_event RouteRegistrationEvent key e | key e.
      put_lrp bbs a ev key (entry_at t key) = Some e \<and> re_ExternalEndpoints e \<noteq> []}"
    using ne by (auto simp: AddEndpoint_events deliverable_def)
  moreover have "AddEndpoint bbs g t = Some (fst ?out, snd ?out)"
    using Some r by (simp add: AddEndpoint_eq)
  moreover note AddEndpoint_lookup [of a ev bbs t]
  ultimately show ?thesis unfolding Some r option.case prod.case by blast
qed

text \<open>
  \<open>RemoveEndpoint\<close> panics exactly where \<open>Resolve\<close> does. Otherwise every key of the LRP loses the
  LRP's instance if the entry holds it with an equal or an older tag; no other entry changes; and
  the events are exactly one unregistration per removal from an entry with external endpoints. Each
  carries the removed endpoint as the table had it, and no other backend.
\<close>

lemma RemoveEndpoint_effect:
  "case Resolve bbs g of
     None \<Rightarrow> RemoveEndpoint bbs g t = None
   | Some (a, ev) \<Rightarrow>
       (\<exists>rs t'. RemoveEndpoint bbs g t = Some (rs, t') \<and>
          (\<forall>key. fmlookup (entries t') key =
             (case take_lrp bbs a ev key (entry_at t key) of
                None \<Rightarrow> fmlookup (entries t) key | Some (_, e) \<Rightarrow> Some e)) \<and>
          set rs = {mk_event RouteUnregistrationEvent key
                (only_endpoint (EndpointKey (alrp_InstanceGuid a) ev) x (entry_at t key)) | key x e.
             take_lrp bbs a ev key (entry_at t key) = Some (x, e) \<and> re_ExternalEndpoints e \<noteq> []})"
proof (cases "Resolve bbs g")
  case None
  then show ?thesis by (simp add: RemoveEndpoint_eq)
next
  case (Some r)
  obtain a ev where r: "r = (a, ev)" by (cases r)
  let ?out = "loop_events (at_port (lrp_map a ev) (removeEndpoint bbs)) (lrp_keys a) t"
  have ext: "re_ExternalEndpoints e = re_ExternalEndpoints (entry_at t key)"
    if "take_lrp bbs a ev key (entry_at t key) = Some (x, e)" for key x e
    using that by (auto simp: take_lrp_def split: option.splits if_splits)
  have "set (fst ?out) = {mk_event RouteUnregistrationEvent key
      (only_endpoint (EndpointKey (alrp_InstanceGuid a) ev) x (entry_at t key)) | key x e.
      take_lrp bbs a ev key (entry_at t key) = Some (x, e) \<and> re_ExternalEndpoints e \<noteq> []}"
    using ext by (fastforce simp: RemoveEndpoint_events deliverable_def)
  moreover have "RemoveEndpoint bbs g t = Some (fst ?out, snd ?out)"
    using Some r by (simp add: RemoveEndpoint_eq)
  moreover note RemoveEndpoint_lookup [of a ev bbs t]
  ultimately show ?thesis unfolding Some r option.case prod.case by blast
qed

text \<open>
  \<open>addEndpoint\<close> emits a registration of the new entry whenever it takes the endpoint and the
  entry has external endpoints: the change tests of \<open>getRegistrationEvents\<close> never hold an accepted
  endpoint back. \<open>removeEndpoint\<close> never reaches its "no change" return.
\<close>

lemma change_tests_redundant:
  "addEndpoint bbs key ep t =
     (case fmlookup (re_Endpoints (entry_at t key)) (endpoint_Key ep) of
        Some x \<Rightarrow>
          if SucceededBy bbs (ep_ModificationTag x) (ep_ModificationTag ep)
          then (createRoutingEvent key (with_endpoint ep (entry_at t key)) RouteRegistrationEvent,
                set_entry key (with_endpoint ep (entry_at t key)) t)
          else ([], t)
      | None \<Rightarrow> (createRoutingEvent key (with_endpoint ep (entry_at t key)) RouteRegistrationEvent,
                set_entry key (with_endpoint ep (entry_at t key)) t)) \<and>
   removeEndpoint bbs key ep t =
     (case removable bbs ep (entry_at t key) of
        None \<Rightarrow> ([], t)
      | Some x \<Rightarrow>
          (createRoutingEvent key (only_endpoint (endpoint_Key ep) x (entry_at t key))
             RouteUnregistrationEvent,
           set_entry key (without_endpoint (endpoint_Key ep) (entry_at t key)) t))"
  by (simp add: addEndpoint_eq removeEndpoint_eq accepts_endpoint_def removable_endpoint_iff
      split: option.splits)

text \<open>
  \<open>AddEndpoint\<close> and \<open>RemoveEndpoint\<close> range over a map of endpoints inside their loop over the
  routing keys. The order Go takes does not matter: every order gives the same events, in the same
  sequence, and the same table.
\<close>

lemma endpoint_range_order_irrelevant:
  "AddEndpoint bbs g t = do {
     endpoints \<leftarrow> NewEndpointsFromActual bbs g;
     keys \<leftarrow> NewRoutingKeysFromActual bbs g;
     Some (for_each_endpoint (addEndpoint bbs) (range_map ord path endpoints) keys t)
   } \<and>
   RemoveEndpoint bbs g t = do {
     endpoints \<leftarrow> NewEndpointsFromActual bbs g;
     keys \<leftarrow> NewRoutingKeysFromActual bbs g;
     Some (for_each_endpoint (removeEndpoint bbs) (range_map ord path endpoints) keys t)
   }"
  by (cases "Resolve bbs g")
    (auto simp: AddEndpoint_eq RemoveEndpoint_eq NewEndpointsFromActual_eq NewRoutingKeysFromActual_eq
      for_each_at_port)

text \<open>
  C29: \<open>Swap\<close> with a table of another implementation does nothing. With a routing table it takes over
  exactly its entries and, whatever the iteration order, emits exactly: a registration of every
  deliverable new entry, an unregistration of the old backends for the old ports that the new entry
  lacks, and an unregistration of every deliverable old entry whose key is gone.
\<close>

theorem Swap_effect:
  "Swap ord OtherRoutingTable t = ([], t) \<and>
   snd (Swap ord (IsRoutingTable n) t) = n \<and>
   set (fst (Swap ord (IsRoutingTable n) t)) =
     {mk_event RouteRegistrationEvent key e | key e.
        fmlookup (entries n) key = Some e \<and> deliverable e} \<union>
     {mk_event RouteUnregistrationEvent key u | key e u.
        fmlookup (entries n) key = Some e \<and> deliverable u \<and>
        u = (entry_at t key)\<lparr>re_ExternalEndpoints :=
              filter (\<lambda>x. ee_Port x \<notin> ee_Port ` set (re_ExternalEndpoints e))
                (re_ExternalEndpoints (entry_at t key))\<rparr>} \<union>
     {mk_event RouteUnregistrationEvent key e | key e.
        fmlookup (entries t) key = Some e \<and> fmlookup (entries n) key = None \<and> deliverable e}"
proof -
  have eq: "RemoveExternalEndpoints e x =
      e\<lparr>re_ExternalEndpoints := filter (\<lambda>y. ee_Port y \<notin> ee_Port ` set x) (re_ExternalEndpoints e)\<rparr>"
    for e x
    by (simp add: RemoveExternalEndpoints_def ext_Remove_filter ports_def)
  show ?thesis
    unfolding eq [symmetric]
  proof (intro conjI set_eqI)
    fix r
    show "r \<in> set (fst (Swap ord (IsRoutingTable n) t)) \<longleftrightarrow>
      r \<in> {mk_event RouteRegistrationEvent key e | key e.
        fmlookup (entries n) key = Some e \<and> deliverable e} \<union>
      {mk_event RouteUnregistrationEvent key u | key e u.
        fmlookup (entries n) key = Some e \<and> deliverable u \<and>
        u = RemoveExternalEndpoints (entry_at t key) (re_ExternalEndpoints e)} \<union>
      {mk_event RouteUnregistrationEvent key e | key e.
        fmlookup (entries t) key = Some e \<and> fmlookup (entries n) key = None \<and> deliverable e}"
      unfolding in_Swap in_createRoutingEvent Un_iff mem_Collect_eq by blast
  qed simp_all
qed

text \<open>
  \<open>GetRoutingEvents\<close> registers every deliverable entry of the table, each once, and emits nothing
  else, whatever the iteration order; it is the list of events a swap into an empty table would emit.
\<close>

lemma GetRoutingEvents_effect:
  "set (GetRoutingEvents ord t) =
     {mk_event RouteRegistrationEvent key e | key e. fmlookup (entries t) key = Some e \<and> deliverable e} \<and>
   distinct (GetRoutingEvents ord t) \<and>
   fst (Swap ord (IsRoutingTable t) (NewTable None)) = GetRoutingEvents ord t"
proof -
  have swap: "fst (Swap ord (IsRoutingTable t) (NewTable None)) = GetRoutingEvents ord t"
    by (simp add: Swap_def Let_def GetRoutingEvents_def createRoutingEvent_eq deliverable_def
        case_prod_beta ext_Remove_filter)
  have one: "distinct (concat (map (\<lambda>(key, e). createRoutingEvent key e RouteRegistrationEvent) kvs))"
    if "distinct (map fst kvs)" for kvs
    using that by (induction kvs) (auto simp: createRoutingEvent_eq)
  show ?thesis
    using one [of "range_map ord [0] (entries t)"]
    by (intro conjI set_eqI) (auto simp: in_GetRoutingEvents swap GetRoutingEvents_def [symmetric])
qed


subsection \<open>Witnesses\<close>

text \<open>
  The table of the process \<open>''p''\<close> with the external ports 65 and 67 and one instance, built by two
  calls; the witnesses use it. \<open>table_eval\<close> evaluates calls on it.
\<close>

lemmas table_eval =
  AddRoutes_def addRoutes_eq add_route_eq mergeRoutes_eq desired_keys_def NewRoutingKeysFromDesired_def
  AddEndpoint_eq at_port_def lrp_map_def lrp_keys_def addEndpoint_eq accepts_endpoint_def
  createRoutingEvent_eq deliverable_def loop_events.simps sample_defs Let_def

definition sample_key :: routing_key where
  "sample_key = RoutingKey ''p'' 66"

definition sample_table :: routing_table where
  "sample_table = snd (the (AddEndpoint sample_bbs (sample_group ''i'' 1)
     (snd (AddRoutes sample_bbs (sample_info ''ABCB'' 1) (NewTable None)))))"

definition sample_entry :: routable_endpoints where
  "sample_entry =
     NewRoutableEndpoints [NewExternalEndpointInfo ''rg'' 65, NewExternalEndpointInfo ''rg'' 67]
       (fmupd (EndpointKey ''i'' False)
          (NewEndpoint ''i'' False ''10.0.0.1'' 9000 66 (Some (sample_tag 1))) fmempty)
       ''log'' (Some (sample_tag 1))"

lemma sample_table_entries: "entries sample_table = fmupd sample_key sample_entry fmempty"
  by (simp add: sample_table_def table_eval sample_key_def sample_entry_def NewRoutingKey_def 
    with_endpoint_def NewRoutableEndpoints_def zero_entry_def lrp_endpoint_def endpoint_Key_def)


lemma sample_entry_at [simp]: "entry_at sample_table sample_key = sample_entry"
  by (simp add: entry_at_def sample_table_entries)

lemma sample_entry_simps [simp]:
  "ports (re_ExternalEndpoints sample_entry) = {65, 67}"
  "re_ModificationTag sample_entry = Some (sample_tag 1)"
  "re_Endpoints sample_entry = fmupd (EndpointKey ''i'' False)
     (NewEndpoint ''i'' False ''10.0.0.1'' 9000 66 (Some (sample_tag 1))) fmempty"
  "re_ExternalEndpoints sample_entry \<noteq> []"
  "rk_ContainerPort sample_key = 66"
  by (auto simp: sample_entry_def sample_key_def NewRoutableEndpoints_def)

lemma sample_reachable: "reachable_table sample_bbs sample_table"
proof -
  have "reachable_table sample_bbs (snd (AddRoutes sample_bbs (sample_info ''ABCB'' 1) (NewTable None)))"
    by (metis new_table call [of sample_bbs _ "CallAddRoutes _"] run_call.simps(1) prod.collapse)
  then show ?thesis
    by (rule call [of _ _ "CallAddEndpoint (sample_group ''i'' 1)"])
      (simp add: sample_table_def AddEndpoint_eq sample_group_def prod_eq_iff)
qed

text \<open>A reachable table with an instance, on which a removal emits an event.\<close>

lemma reachable_tables_sound_witness:
  "ep_ContainerPort (NewEndpoint ''i'' False ''10.0.0.1'' 9000 66 (Some (sample_tag 1))) =
     rk_ContainerPort sample_key \<and>
   (\<exists>rs t' r. run_call sample_bbs (CallRemoveEndpoint (sample_group ''i'' 1)) sample_table = Some (rs, t') \<and>
      r \<in> set rs \<and> re_ExternalEndpoints (ev_Entry r) \<noteq> [] \<and>
      ev_EventType r \<in> {RouteRegistrationEvent, RouteUnregistrationEvent})"
proof -
  note sound = reachable_tables_sound [OF sample_reachable]
  have "\<exists>r rs t'. run_call sample_bbs (CallRemoveEndpoint (sample_group ''i'' 1)) sample_table = Some (r # rs, t')"
    by (simp add: RemoveEndpoint_eq table_eval removeEndpoint_eq removable_endpoint_def
        NewRoutingKey_def sample_key_def [symmetric] only_endpoint_def endpoint_Key_def lrp_endpoint_def)
  then obtain r rs t' where
    "run_call sample_bbs (CallRemoveEndpoint (sample_group ''i'' 1)) sample_table = Some (r # rs, t')"
    by blast
  then show ?thesis
    using sound by (fastforce simp: sample_table_entries sample_key_def)
qed

end
