(* ===== verification/Route_Registry.thy ===== *)
theory Route_Registry
  imports Table_Laws
begin

text \<open>
  The abstract specification of the routing table: the registry the router keeps. A route is a
  label \<open>(routing key, external port, endpoint key)\<close>: this process and container port is reachable
  on this external port at this instance. A table stands for the set of labels of its entries; a
  registration event adds the labels of its entry, an unregistration event takes them away. The
  theorems compare what an operation's events do to the registry with what the operation does to
  the table.
\<close>

type_synonym label = "routing_key \<times> uint32 \<times> endpoint_key"

definition entry_labels :: "routing_key \<Rightarrow> routable_endpoints \<Rightarrow> label set" where
  "entry_labels key e = {key} \<times> ports (re_ExternalEndpoints e) \<times> fset (fmdom (re_Endpoints e))"

definition table_labels :: "routing_table \<Rightarrow> label set" where
  "table_labels t = (\<Union>key. entry_labels key (entry_at t key))"

definition event_labels :: "routing_event \<Rightarrow> label set" where
  "event_labels r = entry_labels (ev_Key r) (ev_Entry r)"

definition apply_event :: "routing_event \<Rightarrow> label set \<Rightarrow> label set" where
  "apply_event r R =
     (if ev_EventType r = RouteRegistrationEvent then R \<union> event_labels r
      else if ev_EventType r = RouteUnregistrationEvent then R - event_labels r
      else R)"

text \<open>The events one after the other, and as the emitter sends them: all registrations first.\<close>

definition apply_events :: "routing_event list \<Rightarrow> label set \<Rightarrow> label set" where
  "apply_events rs R = fold apply_event rs R"

definition labels_of_type :: "routing_event_type \<Rightarrow> routing_event list \<Rightarrow> label set" where
  "labels_of_type ty rs = (\<Union>r \<in> {r \<in> set rs. ev_EventType r = ty}. event_labels r)"

definition apply_batch :: "routing_event list \<Rightarrow> label set \<Rightarrow> label set" where
  "apply_batch rs R =
     (R \<union> labels_of_type RouteRegistrationEvent rs) - labels_of_type RouteUnregistrationEvent rs"

subsection \<open>Labels\<close>

lemma in_entry_labels [simp]:
  "(key, p, k) \<in> entry_labels key' e \<longleftrightarrow>
     key = key' \<and> p \<in> ports (re_ExternalEndpoints e) \<and> k |\<in>| fmdom (re_Endpoints e)"
  by (auto simp: entry_labels_def)

lemma in_table_labels:
  "(key, p, k) \<in> table_labels t \<longleftrightarrow>
     p \<in> ports (re_ExternalEndpoints (entry_at t key)) \<and> k |\<in>| fmdom (re_Endpoints (entry_at t key))"
  by (auto simp: table_labels_def)

lemma event_labels_mk [simp]: "event_labels (mk_event ty key e) = entry_labels key e"
  by (simp add: event_labels_def)

lemma entry_labels_deliverable: "(key, p, k) \<in> entry_labels key' e \<Longrightarrow> deliverable e"
  by (auto simp: deliverable_def)

lemma labels_of_type_simps [simp]:
  "labels_of_type ty [] = {}"
  "labels_of_type ty (r # rs) =
     (if ev_EventType r = ty then event_labels r \<union> labels_of_type ty rs else labels_of_type ty rs)"
  by (auto simp: labels_of_type_def)

lemma in_labels_of_type:
  "x \<in> labels_of_type ty rs \<longleftrightarrow> (\<exists>r \<in> set rs. ev_EventType r = ty \<and> x \<in> event_labels r)"
  by (auto simp: labels_of_type_def)

lemma apply_events_simps [simp]:
  "apply_events [] R = R"
  "apply_events (r # rs) R = apply_events rs (apply_event r R)"
  "apply_events (rs @ rs') R = apply_events rs' (apply_events rs R)"
  by (simp_all add: apply_events_def)

text \<open>
  Events no label of which is both registered and unregistered can be applied in any order; this is
  what lets the emitter send the registrations before the unregistrations.
\<close>

definition consistent :: "routing_event list \<Rightarrow> bool" where
  "consistent rs \<longleftrightarrow>
     labels_of_type RouteRegistrationEvent rs \<inter> labels_of_type RouteUnregistrationEvent rs = {}"

lemma consistent_batch: "consistent rs \<Longrightarrow> apply_events rs R = apply_batch rs R"
proof (induction rs arbitrary: R)
  case (Cons r rs)
  then have "consistent rs" by (auto simp: consistent_def split: if_splits)
  with Cons.IH have "apply_events (r # rs) R = apply_batch rs (apply_event r R)" by simp
  also have "\<dots> = apply_batch (r # rs) R"
    using Cons.prems by (auto simp: apply_batch_def apply_event_def consistent_def)
  finally show ?case .
qed (simp add: apply_batch_def)

lemma in_apply_events:
  "consistent rs \<Longrightarrow>
   x \<in> apply_events rs R \<longleftrightarrow>
     (x \<in> R \<or> x \<in> labels_of_type RouteRegistrationEvent rs) \<and>
     x \<notin> labels_of_type RouteUnregistrationEvent rs"
  by (simp add: consistent_batch apply_batch_def)

subsection \<open>Labels of the events of the routing keys' loops\<close>

lemma labels_of_type_UN:
  "set rs = (\<Union>i \<in> I. set (f i)) \<Longrightarrow> labels_of_type ty rs = (\<Union>i \<in> I. labels_of_type ty (f i))"
  by (auto simp: labels_of_type_def)

lemma labels_of_type_append [simp]:
  "labels_of_type ty (rs @ rs') = labels_of_type ty rs \<union> labels_of_type ty rs'"
  by (auto simp: labels_of_type_def)

lemma entry_labels_empty: "\<not> deliverable e \<Longrightarrow> entry_labels key e = {}"
  by (auto simp: deliverable_def entry_labels_def)

lemma labels_of_created [simp]:
  "labels_of_type ty (createRoutingEvent key e ty') = (if ty' = ty then entry_labels key e else {})"
  by (simp add: createRoutingEvent_eq entry_labels_empty)

lemma add_labels:
  "labels_of_type ty (fst (addRoutes bbs info t)) =
     (\<Union>key \<in> set (desired_keys bbs info). labels_of_type ty
        (route_events bbs info (fst (TCPRoutesFromRoutingInfo bbs (si_Routes info))) key (entry_at t key)))"
  by (rule labels_of_type_UN) (simp add: addRoutes_eq add_loop_events)

lemma route_event_labels:
  "(key, p, k) \<in> labels_of_type RouteRegistrationEvent (route_events bbs info routes key' e) \<longleftrightarrow>
     key = key' \<and> takes_routes bbs info routes key e \<and> p \<in> ports (route_exts key routes) \<and>
     k |\<in>| fmdom (re_Endpoints e)"
  "(key, p, k) \<in> labels_of_type RouteUnregistrationEvent (route_events bbs info routes key' e) \<longleftrightarrow>
     key = key' \<and> SucceededBy bbs (re_ModificationTag e) (Some (si_ModificationTag info)) \<and>
     p \<in> ports (re_ExternalEndpoints e) \<and> p \<notin> ports (route_exts key routes) \<and>
     k |\<in>| fmdom (re_Endpoints e)"
  by (auto simp: route_events_def takes_routes_def)

lemma remove_labels:
  "labels_of_type ty (fst (removeRoutingKeys bbs ks tag t)) =
     (\<Union>key \<in> set ks. labels_of_type ty (if drops bbs tag (fmlookup (entries t) key)
        then createRoutingEvent key (entry_at t key) RouteUnregistrationEvent else []))"
  by (rule labels_of_type_UN)
    (simp add: removeRoutingKeys_def remove_keys.loop_evs entry_at_of if_distrib)

lemma remove_event_labels:
  "labels_of_type RouteRegistrationEvent (fst (removeRoutingKeys bbs ks tag t)) = {}"
  "(key, p, k) \<in> labels_of_type RouteUnregistrationEvent (fst (removeRoutingKeys bbs ks tag t)) \<longleftrightarrow>
     key \<in> set ks \<and> drops bbs tag (fmlookup (entries t) key) \<and> (key, p, k) \<in> table_labels t"
  by (auto simp: remove_labels in_table_labels split: if_splits)

lemma consistentI:
  "(\<And>key p k. (key, p, k) \<in> labels_of_type RouteRegistrationEvent rs \<Longrightarrow>
     (key, p, k) \<in> labels_of_type RouteUnregistrationEvent rs \<Longrightarrow> False) \<Longrightarrow> consistent rs"
  by (auto simp: consistent_def)

lemma consistent_addRoutes [contract]: "consistent (fst (addRoutes bbs info t))"
  by (rule consistentI) (auto simp: add_labels route_event_labels)

lemma consistent_removeRoutingKeys [contract]: "consistent (fst (removeRoutingKeys bbs ks tag t))"
  by (simp add: consistent_def remove_event_labels)

lemma consistent_UpdateRoutes [contract]: "consistent (fst (UpdateRoutes bbs before after t))"
  by (rule consistentI)
    (auto simp: UpdateRoutes_fst add_labels route_event_labels remove_event_labels keys_Remove_filter)

subsection \<open>The routes the desired LRP asks for\<close>

text \<open>What the registry should hold for the keys of a desired LRP the table accepts.\<close>

definition takes_over :: "bbs_models \<Rightarrow> scheduling_info \<Rightarrow> routing_table \<Rightarrow> routing_key \<Rightarrow> bool" where
  "takes_over bbs info t key \<longleftrightarrow>
     key \<in> set (desired_keys bbs info) \<and>
     SucceededBy bbs (re_ModificationTag (entry_at t key)) (Some (si_ModificationTag info))"

definition desired_ports :: "bbs_models \<Rightarrow> scheduling_info \<Rightarrow> routing_key \<Rightarrow> uint32 set" where
  "desired_ports bbs info key =
     {tr_ExternalPort r | r. r \<in> set (fst (TCPRoutesFromRoutingInfo bbs (si_Routes info))) \<and>
        tr_ContainerPort r = rk_ContainerPort key}"

lemma desired_ports_eq:
  "desired_ports bbs info key = ports (route_exts key (fst (TCPRoutesFromRoutingInfo bbs (si_Routes info))))"
  by (auto simp: desired_ports_def route_exts_def ports_def image_iff)

lemma in_apply_addRoutes:
  "(key, p, k) \<in> apply_events (fst (addRoutes bbs info t)) (table_labels t) \<longleftrightarrow>
     k |\<in>| fmdom (re_Endpoints (entry_at t key)) \<and>
     p \<in> (if takes_over bbs info t key then desired_ports bbs info key
          else ports (re_ExternalEndpoints (entry_at t key)))"
  by (auto simp: in_apply_events consistent_addRoutes add_labels route_event_labels in_table_labels
      takes_over_def takes_routes_def desired_ports_eq)

lemma addRoutes_other_keys:
  "key \<notin> set (desired_keys bbs info) \<Longrightarrow>
   fmlookup (entries (snd (addRoutes bbs info t))) key = fmlookup (entries t) key \<and>
   entry_at (snd (addRoutes bbs info t)) key = entry_at t key"
  by (simp add: addRoutes_eq add_loop_lookup add_loop_entry_at)

lemma in_apply_UpdateRoutes:
  "(key, p, k) \<in> apply_events (fst (UpdateRoutes bbs before after t)) (table_labels t) \<longleftrightarrow>
     k |\<in>| fmdom (re_Endpoints (entry_at t key)) \<and>
     p \<in> (if takes_over bbs after t key then desired_ports bbs after key
          else if key \<in> set (desired_keys bbs before) \<and> key \<notin> set (desired_keys bbs after) \<and>
                  drops bbs (Some (si_ModificationTag after)) (fmlookup (entries t) key)
          then {} else ports (re_ExternalEndpoints (entry_at t key)))"
proof -
  let ?add = "fst (addRoutes bbs after t)" and ?t = "snd (addRoutes bbs after t)"
  let ?del = "keys_Remove (desired_keys bbs before) (desired_keys bbs after)"
  let ?rem = "fst (removeRoutingKeys bbs ?del (Some (si_ModificationTag after)) ?t)"
  have same: "fmlookup (entries ?t) key = fmlookup (entries t) key" "entry_at ?t key = entry_at t key"
    if "key \<in> set ?del"
    using that addRoutes_other_keys [of key bbs after t] by (simp_all add: keys_Remove_filter)
  have "(key, p, k) \<in> apply_events (fst (UpdateRoutes bbs before after t)) (table_labels t) \<longleftrightarrow>
      (key, p, k) \<in> apply_events ?add (table_labels t) \<and>
      (key, p, k) \<notin> labels_of_type RouteUnregistrationEvent ?rem"
    by (simp add: UpdateRoutes_fst in_apply_events consistent_removeRoutingKeys remove_event_labels)
  also have "\<dots> \<longleftrightarrow> (key, p, k) \<in> apply_events ?add (table_labels t) \<and>
      \<not> (key \<in> set ?del \<and> drops bbs (Some (si_ModificationTag after)) (fmlookup (entries t) key) \<and>
         (key, p, k) \<in> table_labels t)"
    using same by (auto simp: remove_event_labels in_table_labels)
  finally show ?thesis
    by (auto simp: in_apply_addRoutes in_table_labels keys_Remove_filter takes_over_def)
qed

subsection \<open>Tracked operations\<close>

text \<open>
  Operations whose events do to the registry what they do to the table: the removal of a key and
  the addition and removal of an endpoint. The contract of one step carries over to the nested
  loops of the code.
\<close>

lemma table_labels_set_entry:
  "table_labels (set_entry key e t) = (table_labels t - entry_labels key (entry_at t key)) \<union> entry_labels key e"
  by (auto simp: in_table_labels split: if_splits)

lemma entry_at_fmdrop [simp]:
  "entry_at (t\<lparr>entries := fmdrop key (entries t)\<rparr>) k = (if k = key then zero_entry else entry_at t k)"
  by (simp add: entry_at_def map_get_def)

lemma table_labels_fmdrop:
  "table_labels (t\<lparr>entries := fmdrop key (entries t)\<rparr>) = table_labels t - entry_labels key (entry_at t key)"
  by (auto simp: in_table_labels split: if_splits)

lemma fold_created [simp]:
  "fold apply_event (createRoutingEvent key e RouteRegistrationEvent) R = R \<union> entry_labels key e"
  "fold apply_event (createRoutingEvent key e RouteUnregistrationEvent) R = R - entry_labels key e"
  by (simp_all add: createRoutingEvent_eq apply_event_def entry_labels_empty)

lemma addEndpoint_tracked [contract]:
  "fold apply_event (fst (addEndpoint bbs key ep t)) (table_labels t) =
     table_labels (snd (addEndpoint bbs key ep t))"
  by (auto simp: addEndpoint_eq table_labels_set_entry in_table_labels)

lemma removeEndpoint_tracked [contract]:
  "fold apply_event (fst (removeEndpoint bbs key ep t)) (table_labels t) =
     table_labels (snd (removeEndpoint bbs key ep t))"
  by (auto simp: removeEndpoint_eq table_labels_set_entry in_table_labels split: option.splits)

lemma remove_key_tracked [contract]:
  "fold apply_event (fst (remove_key bbs tag key t)) (table_labels t) =
     table_labels (snd (remove_key bbs tag key t))"
  by (simp add: remove_key_eq table_labels_fmdrop entry_at_Some split: option.splits)

interpretation remove_tracked: tracked_step "remove_key bbs tag" "\<lambda>_. True" "\<lambda>_. True" "\<lambda>_. True"
    table_labels apply_event for bbs tag
  by unfold_locales (simp_all add: remove_key_tracked)

interpretation add_ep_tracked: tracked_step "at_port m (addEndpoint bbs)" "\<lambda>_. True" "\<lambda>_. True"
    "\<lambda>_. True" table_labels apply_event for m bbs
  by unfold_locales (simp_all add: at_port_def addEndpoint_tracked split: option.splits)

interpretation remove_ep_tracked: tracked_step "at_port m (removeEndpoint bbs)" "\<lambda>_. True" "\<lambda>_. True"
    "\<lambda>_. True" table_labels apply_event for m bbs
  by unfold_locales (simp_all add: at_port_def removeEndpoint_tracked split: option.splits)

subsection \<open>Swap\<close>

text \<open>The events a swap emits for one key.\<close>

definition swap_events :: "routing_table \<Rightarrow> routing_table \<Rightarrow> routing_key \<Rightarrow> routing_event list" where
  "swap_events n t key =
     (case fmlookup (entries n) key of
        Some e \<Rightarrow>
          createRoutingEvent key e RouteRegistrationEvent
          @ createRoutingEvent key
              (RemoveExternalEndpoints (entry_at t key) (re_ExternalEndpoints e)) RouteUnregistrationEvent
      | None \<Rightarrow> createRoutingEvent key (entry_at t key) RouteUnregistrationEvent)"

lemma set_Swap: "set (fst (Swap ord (IsRoutingTable n) t)) = (\<Union>key. set (swap_events n t key))"
proof (rule set_eqI)
  fix r
  have t: "(\<exists>e. fmlookup (entries t) key = Some e \<and> r \<in> set (createRoutingEvent key e RouteUnregistrationEvent))
      \<longleftrightarrow> r \<in> set (createRoutingEvent key (entry_at t key) RouteUnregistrationEvent)" for key
    by (cases rule: entry_at_cases [of t key]) (auto simp: deliverable_def)
  have "r \<in> set (swap_events n t key) \<longleftrightarrow>
      (\<exists>e. fmlookup (entries n) key = Some e \<and>
        (r \<in> set (createRoutingEvent key e RouteRegistrationEvent) \<or>
         r \<in> set (createRoutingEvent key
               (RemoveExternalEndpoints (entry_at t key) (re_ExternalEndpoints e))
               RouteUnregistrationEvent))) \<or>
      (\<exists>e. fmlookup (entries t) key = Some e \<and> fmlookup (entries n) key = None \<and>
        r \<in> set (createRoutingEvent key e RouteUnregistrationEvent))" for key
    using t [of key] by (simp add: swap_events_def split: option.splits)
  then show "r \<in> set (fst (Swap ord (IsRoutingTable n) t)) \<longleftrightarrow> r \<in> (\<Union>key. set (swap_events n t key))"
    unfolding in_Swap by blast
qed

lemma swap_event_labels:
  "(key, p, k) \<in> labels_of_type RouteRegistrationEvent (swap_events n t key') \<longleftrightarrow>
     key = key' \<and> (key, p, k) \<in> table_labels n"
  "(key, p, k) \<in> labels_of_type RouteUnregistrationEvent (swap_events n t key') \<longleftrightarrow>
     key = key' \<and> (key, p, k) \<in> table_labels t \<and>
     (fmlookup (entries n) key = None \<or> p \<notin> ports (re_ExternalEndpoints (entry_at n key)))"
  by (cases rule: entry_at_cases [of n key']; auto simp: swap_events_def in_table_labels)+

lemma Swap_labels:
  "(key, p, k) \<in> labels_of_type RouteRegistrationEvent (fst (Swap ord (IsRoutingTable n) t)) \<longleftrightarrow>
     (key, p, k) \<in> table_labels n"
  "(key, p, k) \<in> labels_of_type RouteUnregistrationEvent (fst (Swap ord (IsRoutingTable n) t)) \<longleftrightarrow>
     (key, p, k) \<in> table_labels t \<and>
     (fmlookup (entries n) key = None \<or> p \<notin> ports (re_ExternalEndpoints (entry_at n key)))"
  unfolding labels_of_type_UN [OF set_Swap] by (simp_all add: swap_event_labels)

lemma consistent_Swap [contract]: "consistent (fst (Swap ord (IsRoutingTable n) t))"
  by (rule consistentI)
    (auto simp: Swap_labels in_table_labels entry_at_None)

lemma in_apply_Swap:
  "(key, p, k) \<in> apply_events (fst (Swap ord (IsRoutingTable n) t)) R \<longleftrightarrow>
     (key, p, k) \<in> table_labels n \<or>
     (key, p, k) \<in> R \<and>
       \<not> ((key, p, k) \<in> table_labels t \<and>
          (fmlookup (entries n) key = None \<or> p \<notin> ports (re_ExternalEndpoints (entry_at n key))))"
proof -
  have "fmlookup (entries n) key \<noteq> None \<and> p \<in> ports (re_ExternalEndpoints (entry_at n key))"
    if "(key, p, k) \<in> table_labels n"
    using that by (cases rule: entry_at_cases [of n key]) (auto simp: in_table_labels)
  then show ?thesis by (auto simp: in_apply_events consistent_Swap Swap_labels)
qed

subsection \<open>Histories of calls\<close>

text \<open>A sequence of calls on a table, with the registry that receives the events.\<close>

fun run_calls ::
  "bbs_models \<Rightarrow> table_call list \<Rightarrow> routing_table \<Rightarrow> label set \<Rightarrow> (routing_table \<times> label set) option" where
  "run_calls bbs [] t R = Some (t, R)"
| "run_calls bbs (c # cs) t R =
     (case run_call bbs c t of
        None \<Rightarrow> None
      | Some (rs, t') \<Rightarrow> run_calls bbs cs t' (apply_events rs R))"

text \<open>
  A desired LRP shrinks an entry when the table accepts it and its ports are fewer than, and among,
  the ports of the entry.
\<close>

definition shrinks :: "bbs_models \<Rightarrow> scheduling_info \<Rightarrow> routing_table \<Rightarrow> bool" where
  "shrinks bbs info t \<longleftrightarrow>
     list_ex (\<lambda>key. takes_over bbs info t key \<and>
        desired_ports bbs info key \<subset> ports (re_ExternalEndpoints (entry_at t key))) (desired_keys bbs info)"

fun call_shrinks :: "bbs_models \<Rightarrow> table_call \<Rightarrow> routing_table \<Rightarrow> bool" where
  "call_shrinks bbs (CallAddRoutes info) t = shrinks bbs info t"
| "call_shrinks bbs (CallUpdateRoutes before after) t = shrinks bbs after t"
| "call_shrinks bbs _ t = False"

fun shrink_free :: "bbs_models \<Rightarrow> table_call list \<Rightarrow> routing_table \<Rightarrow> bool" where
  "shrink_free bbs [] t = True"
| "shrink_free bbs (c # cs) t =
     (\<not> call_shrinks bbs c t \<and>
      (case run_call bbs c t of None \<Rightarrow> True | Some (_, t') \<Rightarrow> shrink_free bbs cs t'))"

lemma apply_events_mono: "R \<subseteq> R' \<Longrightarrow> apply_events rs R \<subseteq> apply_events rs R'"
proof (induction rs arbitrary: R R')
  case (Cons r rs)
  then have "apply_event r R \<subseteq> apply_event r R'" by (auto simp: apply_event_def)
  then show ?case by (simp add: Cons.IH)
qed simp

lemma addRoutes_entry_at:
  "entry_at (snd (addRoutes bbs info t)) key =
     (let routes = fst (TCPRoutesFromRoutingInfo bbs (si_Routes info)) in
      if key \<in> set (desired_keys bbs info) \<and> takes_routes bbs info routes key (entry_at t key)
      then with_routes info routes key (entry_at t key) else entry_at t key)"
  by (simp add: addRoutes_eq add_loop_entry_at Let_def)

lemma in_labels_addRoutes:
  "(key, p, k) \<in> table_labels (snd (addRoutes bbs info t)) \<longleftrightarrow>
     k |\<in>| fmdom (re_Endpoints (entry_at t key)) \<and>
     p \<in> (if takes_over bbs info t key \<and>
             \<not> desired_ports bbs info key \<subseteq> ports (re_ExternalEndpoints (entry_at t key))
          then desired_ports bbs info key else ports (re_ExternalEndpoints (entry_at t key)))"
  by (auto simp: in_table_labels addRoutes_entry_at takes_over_def takes_routes_def desired_ports_eq Let_def)

lemma in_labels_UpdateRoutes:
  "(key, p, k) \<in> table_labels (snd (UpdateRoutes bbs before after t)) \<longleftrightarrow>
     (key, p, k) \<in> table_labels (snd (addRoutes bbs after t)) \<and>
     \<not> (key \<in> set (desired_keys bbs before) \<and> key \<notin> set (desired_keys bbs after) \<and>
        drops bbs (Some (si_ModificationTag after)) (fmlookup (entries t) key))"
proof -
  let ?t = "snd (addRoutes bbs after t)"
    and ?ks = "keys_Remove (desired_keys bbs before) (desired_keys bbs after)"
    and ?tag = "Some (si_ModificationTag after)"
  have "(key, p, k) \<in> table_labels (snd (removeRoutingKeys bbs ?ks ?tag ?t)) \<longleftrightarrow>
      (key, p, k) \<in> table_labels ?t \<and> \<not> (key \<in> set ?ks \<and> drops bbs ?tag (fmlookup (entries ?t) key))"
    by (auto simp: in_table_labels entry_at_of removeRoutingKeys_def remove_keys.loop_val entry_of_def)
  then show ?thesis
    using addRoutes_other_keys [of key bbs after t]
    by (auto simp: UpdateRoutes_snd keys_Remove_filter)
qed

lemma not_shrinks:
  "\<not> shrinks bbs info t \<Longrightarrow> takes_over bbs info t key \<Longrightarrow>
   desired_ports bbs info key \<subseteq> ports (re_ExternalEndpoints (entry_at t key)) \<Longrightarrow>
   desired_ports bbs info key = ports (re_ExternalEndpoints (entry_at t key))"
  by (auto simp: shrinks_def list_ex_iff takes_over_def)

lemma addRoutes_registry:
  "apply_events (fst (addRoutes bbs info t)) (table_labels t) \<subseteq> table_labels (snd (addRoutes bbs info t))"
  "\<not> shrinks bbs info t \<Longrightarrow>
   apply_events (fst (addRoutes bbs info t)) (table_labels t) = table_labels (snd (addRoutes bbs info t))"
proof -
  have "(key, p, k) \<in> apply_events (fst (addRoutes bbs info t)) (table_labels t) \<Longrightarrow>
      (key, p, k) \<in> table_labels (snd (addRoutes bbs info t))" for key p k
    by (auto simp: in_apply_addRoutes in_labels_addRoutes split: if_splits)
  then show "apply_events (fst (addRoutes bbs info t)) (table_labels t) \<subseteq>
      table_labels (snd (addRoutes bbs info t))" by auto
next
  assume "\<not> shrinks bbs info t"
  then have "(key, p, k) \<in> apply_events (fst (addRoutes bbs info t)) (table_labels t) \<longleftrightarrow>
      (key, p, k) \<in> table_labels (snd (addRoutes bbs info t))" for key p k
    using not_shrinks [of bbs info t key] by (auto simp: in_apply_addRoutes in_labels_addRoutes)
  then show "apply_events (fst (addRoutes bbs info t)) (table_labels t) =
      table_labels (snd (addRoutes bbs info t))" by auto
qed

lemma UpdateRoutes_as_addRoutes:
  "(key, p, k) \<in> apply_events (fst (UpdateRoutes bbs before after t)) (table_labels t) \<longleftrightarrow>
     (key, p, k) \<in> apply_events (fst (addRoutes bbs after t)) (table_labels t) \<and>
     \<not> (key \<in> set (desired_keys bbs before) \<and> key \<notin> set (desired_keys bbs after) \<and>
        drops bbs (Some (si_ModificationTag after)) (fmlookup (entries t) key))"
  by (auto simp: in_apply_UpdateRoutes in_apply_addRoutes takes_over_def split: if_splits)

lemma UpdateRoutes_registry:
  "apply_events (fst (UpdateRoutes bbs before after t)) (table_labels t) \<subseteq>
     table_labels (snd (UpdateRoutes bbs before after t))"
  "\<not> shrinks bbs after t \<Longrightarrow>
   apply_events (fst (UpdateRoutes bbs before after t)) (table_labels t) =
     table_labels (snd (UpdateRoutes bbs before after t))"
  using addRoutes_registry [of bbs after t]
  by (auto simp: UpdateRoutes_as_addRoutes in_labels_UpdateRoutes)

lemma tracked_registry:
  "apply_events (fst (RemoveRoutes bbs info t)) (table_labels t) = table_labels (snd (RemoveRoutes bbs info t))"
  "AddEndpoint bbs g t = Some (rs, t') \<Longrightarrow> apply_events rs (table_labels t) = table_labels t'"
  "RemoveEndpoint bbs g t = Some (rs, t') \<Longrightarrow> apply_events rs (table_labels t) = table_labels t'"
proof -
  show "apply_events (fst (RemoveRoutes bbs info t)) (table_labels t) =
      table_labels (snd (RemoveRoutes bbs info t))"
    unfolding RemoveRoutes_def removeRoutingKeys_def apply_events_def
    by (rule remove_tracked.loop_tracked) simp_all
  show "apply_events rs (table_labels t) = table_labels t'" if "AddEndpoint bbs g t = Some (rs, t')"
  proof -
    from that obtain a ev where
      "loop_events (at_port (lrp_map a ev) (addEndpoint bbs)) (lrp_keys a) t = (rs, t')"
      by (auto simp: AddEndpoint_eq)
    then show ?thesis
      using add_ep_tracked.loop_tracked [where s = t and xs = "lrp_keys a" and m = "lrp_map a ev" and bbs = bbs] by (simp add: apply_events_def)
  qed
  show "apply_events rs (table_labels t) = table_labels t'" if "RemoveEndpoint bbs g t = Some (rs, t')"
  proof -
    from that obtain a ev where
      "loop_events (at_port (lrp_map a ev) (removeEndpoint bbs)) (lrp_keys a) t = (rs, t')"
      by (auto simp: RemoveEndpoint_eq)
    then show ?thesis
      using remove_ep_tracked.loop_tracked [where s = t and xs = "lrp_keys a" and m = "lrp_map a ev" and bbs = bbs] by (simp add: apply_events_def)
  qed
qed

lemma run_call_labels:
  assumes "run_call bbs c t = Some (rs, t')"
  shows "apply_events rs (table_labels t) \<subseteq> table_labels t'"
    and "\<not> call_shrinks bbs c t \<Longrightarrow> apply_events rs (table_labels t) = table_labels t'"
proof -
  have "apply_events rs (table_labels t) \<subseteq> table_labels t' \<and>
      (\<not> call_shrinks bbs c t \<longrightarrow> apply_events rs (table_labels t) = table_labels t')"
  proof (cases c)
    case (CallAddRoutes info)
    with assms show ?thesis
      using addRoutes_registry [of bbs info t] by (simp add: AddRoutes_def)
  next
    case (CallUpdateRoutes before after)
    with assms show ?thesis
      using UpdateRoutes_registry [where bbs = bbs and before = before and after = after and t = t] by simp
  next
    case (CallRemoveRoutes info)
    with assms show ?thesis
      using tracked_registry(1) [of bbs info t] by simp
  qed (use assms in \<open>simp_all add: tracked_registry(2,3)\<close>)
  then show "apply_events rs (table_labels t) \<subseteq> table_labels t'"
    and "\<not> call_shrinks bbs c t \<Longrightarrow> apply_events rs (table_labels t) = table_labels t'" by auto
qed

lemma AddEndpoint_one_type:
  assumes "AddEndpoint bbs g t = Some (rs, t')" "r \<in> set rs"
  shows "ev_EventType r = RouteRegistrationEvent"
proof -
  from assms(1) obtain a ev where
    "loop_events (at_port (lrp_map a ev) (addEndpoint bbs)) (lrp_keys a) t = (rs, t')"
    by (auto simp: AddEndpoint_eq)
  with assms(2) show ?thesis using AddEndpoint_events [of r a ev bbs t] by auto
qed

lemma RemoveEndpoint_one_type:
  assumes "RemoveEndpoint bbs g t = Some (rs, t')" "r \<in> set rs"
  shows "ev_EventType r = RouteUnregistrationEvent"
proof -
  from assms(1) obtain a ev where
    "loop_events (at_port (lrp_map a ev) (removeEndpoint bbs)) (lrp_keys a) t = (rs, t')"
    by (auto simp: RemoveEndpoint_eq)
  with assms(2) show ?thesis using RemoveEndpoint_events [of r a ev bbs t] by auto
qed

lemma consistent_one_type: "(\<And>r. r \<in> set rs \<Longrightarrow> ev_EventType r = ty) \<Longrightarrow> consistent rs"
  by (auto simp: consistent_def labels_of_type_def)

lemma run_call_consistent:
  assumes "run_call bbs c t = Some (rs, t')"
  shows "consistent rs"
proof (cases c)
  case (CallAddRoutes info)
  with assms show ?thesis using consistent_addRoutes [of bbs info t] by (simp add: AddRoutes_def)
next
  case (CallUpdateRoutes before after)
  with assms show ?thesis using consistent_UpdateRoutes [of bbs before after t] by simp
next
  case (CallRemoveRoutes info)
  with assms show ?thesis
    by (metis RemoveRoutes_def consistent_removeRoutingKeys fst_conv option.inject run_call.simps(3))
next
  case (CallAddEndpoint g)
  with assms show ?thesis by (auto intro: consistent_one_type dest: AddEndpoint_one_type)
next
  case (CallRemoveEndpoint g)
  with assms show ?thesis by (auto intro: consistent_one_type dest: RemoveEndpoint_one_type)
qed
text \<open>
  What the handler relies on of a routing table: calls keep it well formed, their events never
  register more than the table then has, the events of a call or a swap are consistent, and a swap
  takes the new table over and registers all its routes. The lemmas are about sequences of calls.
\<close>

locale route_provider =
  fixes call :: "'c \<Rightarrow> 't \<Rightarrow> (routing_event list \<times> 't) option"
    and swap :: "'t \<Rightarrow> 't \<Rightarrow> routing_event list \<times> 't"
    and routes :: "'t \<Rightarrow> label set"
    and ok :: "'t \<Rightarrow> bool"
  assumes call_ok: "ok t \<Longrightarrow> call c t = Some (rs, t') \<Longrightarrow> ok t'"
    and call_routes: "call c t = Some (rs, t') \<Longrightarrow> apply_events rs (routes t) \<subseteq> routes t'"
    and call_consistent: "call c t = Some (rs, t') \<Longrightarrow> consistent rs"
    and swap_table: "snd (swap n t) = n"
    and swap_routes: "routes n \<subseteq> apply_events (fst (swap n t)) R"
    and swap_consistent: "consistent (fst (swap n t))"
begin

lemma calls_ok: "run_all call cs t = Some (rs, t') \<Longrightarrow> ok t \<Longrightarrow> ok t'"
proof (induction cs arbitrary: t rs)
  case (Cons c cs)
  then show ?case unfolding run_all_Cons_Some using call_ok by blast
qed simp

lemma calls_routes:
  "run_all call cs t = Some (rs, t') \<Longrightarrow> R \<subseteq> routes t \<Longrightarrow> apply_events rs R \<subseteq> routes t'"
proof (induction cs arbitrary: t rs R)
  case (Cons c cs)
  from Cons.prems(1) obtain rs1 t1 rs2 where c: "call c t = Some (rs1, t1)"
    and rest: "run_all call cs t1 = Some (rs2, t')" and rs: "rs = rs1 @ rs2"
    unfolding run_all_Cons_Some by blast
  have "apply_events rs1 R \<subseteq> routes t1"
    using apply_events_mono [OF Cons.prems(2)] call_routes [OF c] by (rule subset_trans)
  then show ?case by (simp add: rs Cons.IH [OF rest])
qed simp

lemma swap_covers: "routes (snd (swap n t)) \<subseteq> apply_batch (fst (swap n t)) R"
  using swap_routes swap_consistent by (simp add: swap_table consistent_batch [symmetric])

end

interpretation table_api: route_provider "run_call bbs" "\<lambda>n t. Swap ord (IsRoutingTable n) t"
    table_labels wf_table for bbs ord
proof unfold_locales
  show "table_labels n \<subseteq> apply_events (fst (Swap ord (IsRoutingTable n) t)) R" for n t R
    by (auto simp: in_apply_Swap)
qed (auto simp: consistent_Swap dest: run_call_contract run_call_labels(1) run_call_consistent)

lemma run_calls_eq:
  "run_calls bbs cs t R =
     map_option (\<lambda>(rs, t'). (t', apply_events rs R)) (run_all (run_call bbs) cs t)"
  by (induction cs arbitrary: t R) (auto split: option.splits prod.splits)

lemma run_calls_labels:
  "run_calls bbs cs t R = Some (t', R') \<Longrightarrow> R \<subseteq> table_labels t \<Longrightarrow> R' \<subseteq> table_labels t'"
proof -
  assume "run_calls bbs cs t R = Some (t', R')" and R: "R \<subseteq> table_labels t"
  then obtain rs where "run_all (run_call bbs) cs t = Some (rs, t')" and R': "R' = apply_events rs R"
    by (auto simp: run_calls_eq)
  then show "R' \<subseteq> table_labels t'"
    unfolding R' using R by (intro table_api.calls_routes)
qed

lemma run_calls_exact:
  "run_calls bbs cs t (table_labels t) = Some (t', R') \<Longrightarrow> shrink_free bbs cs t \<Longrightarrow> R' = table_labels t'"
proof (induction cs arbitrary: t)
  case (Cons c cs)
  from Cons.prems(1) obtain rs t1 where c: "run_call bbs c t = Some (rs, t1)"
    and rest: "run_calls bbs cs t1 (apply_events rs (table_labels t)) = Some (t', R')"
    by (auto split: option.splits prod.splits)
  have "run_calls bbs cs t1 (table_labels t1) = Some (t', R')" "shrink_free bbs cs t1"
    using rest Cons.prems(2) c run_call_labels(2) [OF c] by simp_all
  then show ?case by (rule Cons.IH)
qed simp

lemma table_labels_new [simp]: "table_labels (NewTable None) = {}"
  by (auto simp: in_table_labels)

subsection \<open>Properties\<close>

text \<open>
  C1: If the registry holds exactly the routes of the table before the call (a shrinking update can
  have broken this, see C31), then after the events of \<open>AddRoutes\<close> it holds, for every key of the LRP
  whose entry's tag it succeeds, exactly the LRP's ports for that container port at the known
  instances; the routes of all other keys are untouched.
\<close>

theorem AddRoutes_registry:
  "apply_events (fst (AddRoutes bbs info t)) (table_labels t) =
     {(key, p, k). k |\<in>| fmdom (re_Endpoints (entry_at t key)) \<and>
        p \<in> (if key \<in> set (desired_keys bbs info) \<and>
                SucceededBy bbs (re_ModificationTag (entry_at t key)) (Some (si_ModificationTag info))
             then {tr_ExternalPort r | r.
                r \<in> set (fst (TCPRoutesFromRoutingInfo bbs (si_Routes info))) \<and>
                tr_ContainerPort r = rk_ContainerPort key}
             else ee_Port ` set (re_ExternalEndpoints (entry_at t key)))}"
  by (auto simp: AddRoutes_def in_apply_addRoutes takes_over_def desired_ports_def ports_def [symmetric])

text \<open>
  After the events of \<open>UpdateRoutes\<close> the registry holds the new ports for every key the LRP has
  after the update and may change, nothing for the keys it had before only (if the new tag succeeds
  the entry's), and everything else as before.
\<close>

lemma UpdateRoutes_registry_effect:
  "apply_events (fst (UpdateRoutes bbs before after t)) (table_labels t) =
     {(key, p, k). k |\<in>| fmdom (re_Endpoints (entry_at t key)) \<and>
        p \<in> (if takes_over bbs after t key then desired_ports bbs after key
             else if key \<in> set (desired_keys bbs before) - set (desired_keys bbs after) \<and>
                (\<exists>e. fmlookup (entries t) key = Some e \<and>
                   SucceededBy bbs (re_ModificationTag e) (Some (si_ModificationTag after)))
             then {} else ee_Port ` set (re_ExternalEndpoints (entry_at t key)))}"
proof -
  have drops: "(\<exists>e. fmlookup (entries t) key = Some e \<and>
      SucceededBy bbs (re_ModificationTag e) (Some (si_ModificationTag after))) \<longleftrightarrow>
      drops bbs (Some (si_ModificationTag after)) (fmlookup (entries t) key)" for key
    by (simp add: drops_def split: option.splits)
  show ?thesis
    unfolding drops ports_def [symmetric]
    by (rule set_eqI) (simp add: split_paired_all in_apply_UpdateRoutes)
qed

text \<open>
  \<open>RemoveRoutes\<close>, \<open>AddEndpoint\<close> and \<open>RemoveEndpoint\<close> refine the registry exactly: if the registry
  holds the routes of the table, their events turn it into the routes of the new table.
\<close>

lemma endpoint_calls_refine_registry:
  "apply_events (fst (RemoveRoutes bbs info t)) (table_labels t) = table_labels (snd (RemoveRoutes bbs info t)) \<and>
   map_option (\<lambda>(rs, _). apply_events rs (table_labels t)) (AddEndpoint bbs g t) =
     map_option (\<lambda>(_, t'). table_labels t') (AddEndpoint bbs g t) \<and>
   map_option (\<lambda>(rs, _). apply_events rs (table_labels t)) (RemoveEndpoint bbs g t) =
     map_option (\<lambda>(_, t'). table_labels t') (RemoveEndpoint bbs g t)"
  using tracked_registry
  by (cases "AddEndpoint bbs g t"; cases "RemoveEndpoint bbs g t") auto

text \<open>
  No orphan routes: along any sequence of calls from the empty table, every route the events
  have left in the registry is a route of the table, so the table still knows how to take it back.
\<close>

lemma no_orphan_routes:
  assumes "run_calls bbs cs (NewTable None) {} = Some (t, R)"
  shows "R \<subseteq> table_labels t"
  using run_calls_labels [OF assms] by simp

text \<open>
  C22: Along any sequence of calls of \<open>AddRoutes\<close>, \<open>UpdateRoutes\<close>, \<open>RemoveRoutes\<close>, \<open>AddEndpoint\<close> and
  \<open>RemoveEndpoint\<close> (no \<open>Swap\<close>, see C23) from the empty table and the empty registry, in which no
  accepted desired LRP merely takes ports away from an entry, the registry is exactly the routes of
  the table.
\<close>

theorem registry_exact_without_shrinking:
  assumes "run_calls bbs cs (NewTable None) {} = Some (t, R)" and "shrink_free bbs cs (NewTable None)"
  shows "R = table_labels t"
  using run_calls_exact [of bbs cs "NewTable None" t R] assms by simp

text \<open>
  C31: A port that a desired LRP gives up comes back. If the accepted LRP only takes ports away, the
  port \<open>p\<close> it drops leaves the registry, but the table keeps it; the next endpoint the entry takes
  registers \<open>p\<close> again.
\<close>

theorem dropped_port_comes_back:
  assumes "key \<in> set (desired_keys bbs info)"
    and "SucceededBy bbs (re_ModificationTag (entry_at t key)) (Some (si_ModificationTag info))"
    and "desired_ports bbs info key \<subseteq> ports (re_ExternalEndpoints (entry_at t key))"
    and "p \<in> ports (re_ExternalEndpoints (entry_at t key)) - desired_ports bbs info key"
    and "accepts bbs ep (entry_at t key)"
  shows "(\<forall>k. (key, p, k) \<notin> apply_events (fst (AddRoutes bbs info t)) (table_labels t)) \<and>
    entry_at (snd (AddRoutes bbs info t)) key = entry_at t key \<and>
    (key, p, endpoint_Key ep) \<in>
      apply_events (fst (addEndpoint bbs key ep (snd (AddRoutes bbs info t))))
        (apply_events (fst (AddRoutes bbs info t)) (table_labels t))"
proof -
  let ?t = "snd (AddRoutes bbs info t)"
  have gone: "(key, p, k) \<notin> apply_events (fst (AddRoutes bbs info t)) (table_labels t)" for k
    using assms by (simp add: AddRoutes_def in_apply_addRoutes takes_over_def)
  have kept: "entry_at ?t key = entry_at t key"
    using assms by (simp add: AddRoutes_def addRoutes_entry_at takes_routes_def desired_ports_eq Let_def)
  have "(key, p, endpoint_Key ep) \<in> apply_events (fst (addEndpoint bbs key ep ?t)) R" for R
    using assms kept by (simp add: addEndpoint_eq accepts_endpoint_iff apply_events_def)
  with gone kept show ?thesis by blast
qed

text \<open>
  C23: Whatever the registry \<open>R\<close> held, after the events of a swap it holds every route of the new
  table, so a swap repairs lost registrations. Of the rest of \<open>R\<close> it keeps what the old table did
  not know, and also the old table's routes whose key and port the new table still has: backends
  that are gone are not unregistered.
\<close>

theorem Swap_registry:
  "apply_events (fst (Swap ord (IsRoutingTable n) t)) R =
     table_labels n \<union> (R - table_labels t) \<union>
     {(key, p, k) \<in> R \<inter> table_labels t. fmlookup (entries n) key \<noteq> None \<and>
        p \<in> ee_Port ` set (re_ExternalEndpoints (entry_at n key))}"
  by (auto simp: in_apply_Swap ports_def [symmetric])

text \<open>
  The emitter sends all registrations of a batch before the unregistrations. For the events of
  every call of the interface and of every swap this gives the same registry as applying them one
  by one in their order.
\<close>

lemma registrations_first_is_safe:
  "map_option (\<lambda>(rs, _). apply_batch rs R) (run_call bbs c t) =
     map_option (\<lambda>(rs, _). apply_events rs R) (run_call bbs c t) \<and>
   apply_batch (fst (Swap ord v t)) R = apply_events (fst (Swap ord v t)) R"
proof -
  have one: "consistent rs" if "run_call bbs c t = Some (rs, t')" for rs t'
    using run_call_consistent [OF that] .
  have "consistent (fst (Swap ord v t))"
    by (cases v) (simp_all add: consistent_Swap, simp add: consistent_def)
  with one show ?thesis
    by (cases "run_call bbs c t") (auto simp: consistent_batch)
qed


subsection \<open>Witnesses\<close>

definition sample_calls :: "table_call list" where
  "sample_calls = [CallAddRoutes (sample_info ''ABCB'' 1), CallAddEndpoint (sample_group ''i'' 1)]"

lemma sample_run:
  "\<exists>R. run_calls sample_bbs sample_calls (NewTable None) {} = Some (sample_table, R) \<and>
     (sample_key, 65, EndpointKey ''i'' False) \<in> R"
  by (simp add: sample_calls_def sample_table_def table_eval apply_event_def sample_key_def
      NewRoutingKey_def endpoint_Key_def lrp_endpoint_def)

lemma sample_shrink_free: "shrink_free sample_bbs sample_calls (NewTable None)"
  by (simp add: sample_calls_def shrinks_def desired_keys_def NewRoutingKeysFromDesired_def sample_info_def split: option.splits prod.splits)

lemma no_orphan_routes_witness:
  "\<exists>t R. run_calls sample_bbs sample_calls (NewTable None) {} = Some (t, R) \<and>
     (sample_key, 65, EndpointKey ''i'' False) \<in> R \<and> R \<subseteq> table_labels t"
  using sample_run no_orphan_routes [of sample_bbs sample_calls] by blast

lemma registry_exact_without_shrinking_witness:
  "\<exists>t R. run_calls sample_bbs sample_calls (NewTable None) {} = Some (t, R) \<and>
     (sample_key, 65, EndpointKey ''i'' False) \<in> R \<and> R = table_labels t"
  using sample_run registry_exact_without_shrinking [OF _ sample_shrink_free] by blast

text \<open>The ports 65 and 67 are registered; the update keeps 65 only; then the instance \<open>''j''\<close> starts.\<close>

lemma dropped_port_comes_back_witness:
  "(sample_key, 67, EndpointKey ''i'' False) \<notin>
     apply_events (fst (AddRoutes sample_bbs (sample_info ''AB'' 2) sample_table)) (table_labels sample_table) \<and>
   (sample_key, 67, EndpointKey ''j'' False) \<in>
     apply_events
       (fst (addEndpoint sample_bbs sample_key (NewEndpoint ''j'' False ''10.0.0.2'' 9000 66 None)
         (snd (AddRoutes sample_bbs (sample_info ''AB'' 2) sample_table))))
       (apply_events (fst (AddRoutes sample_bbs (sample_info ''AB'' 2) sample_table))
         (table_labels sample_table))"
proof -
  have "sample_key \<in> set (desired_keys sample_bbs (sample_info ''AB'' 2))"
    by (simp add: desired_keys_def NewRoutingKeysFromDesired_def sample_info_def sample_key_def NewRoutingKey_def)
  moreover have "desired_ports sample_bbs (sample_info ''AB'' 2) sample_key = {65}"
    by (auto simp: desired_ports_def sample_info_def sample_key_def)
  moreover have "accepts sample_bbs (NewEndpoint ''j'' False ''10.0.0.2'' 9000 66 None) sample_entry"
    by (simp add: accepts_def endpoint_Key_def)
  ultimately show ?thesis
    using dropped_port_comes_back [of sample_key sample_bbs "sample_info ''AB'' 2" sample_table 67
        "NewEndpoint ''j'' False ''10.0.0.2'' 9000 66 None"]
    by (simp add: sample_info_def sample_tag_def endpoint_Key_def)
qed

end
