(* ===== verification/Emitter.thy ===== *)
theory Emitter
  imports Route_Registry "HOL-Library.Sublist"
begin

text \<open>
  \<open>emitter/emitter.go\<close>: sending routing events to the routing API. The two clients are interfaces
  of other packages (\<open>uaa-go-client\<close>, \<open>routing-api\<close>); they are records of functions that pass a
  world \<open>'w\<close> along, so they may answer differently on every call. A Go error is its text
  (\<open>err.Error()\<close>); of the token the code reads the access token only. Of the logging only the data of
  \<open>logRoutingEvents\<close> is modelled, beside \<open>Emit\<close>.
\<close>

type_synonym go_error = string

record 'w uaa_client =
  FetchToken :: "bool \<Rightarrow> 'w \<Rightarrow> (go_error + string) \<times> 'w"

record ('m, 'w) routing_api_client =
  SetToken :: "string \<Rightarrow> 'w \<Rightarrow> 'w"
  UpsertTcpRouteMappings :: "'m list \<Rightarrow> 'w \<Rightarrow> go_error option \<times> 'w"
  DeleteTcpRouteMappings :: "'m list \<Rightarrow> 'w \<Rightarrow> go_error option \<times> 'w"

record ('m, 'w) tcp_emitter =
  te_routingAPIClient :: "('m, 'w) routing_api_client"
  te_uaaClient :: "'w uaa_client"
  te_ttl :: int

definition NewEmitter ::
  "('m, 'w) routing_api_client \<Rightarrow> 'w uaa_client \<Rightarrow> int \<Rightarrow> ('m, 'w) tcp_emitter" where
  "NewEmitter routingAPIClient uaaClient routeTTL =
     \<lparr>te_routingAPIClient = routingAPIClient, te_uaaClient = uaaClient, te_ttl = routeTTL\<rparr>"

definition emit ::
  "('m, 'w) tcp_emitter \<Rightarrow> 'm list \<Rightarrow> 'm list \<Rightarrow> 'w \<Rightarrow> go_error option \<times> 'w" where
  "emit emitter registrationMappingRequests unregistrationMappingRequests w =
     (let api = te_routingAPIClient emitter;
          (err, w1) = (if length registrationMappingRequests > 0
                       then UpsertTcpRouteMappings api registrationMappingRequests w else (None, w))
      in case err of
           Some e \<Rightarrow> (Some e, w1)
         | None \<Rightarrow>
             (let (err2, w2) = (if length unregistrationMappingRequests > 0
                                then DeleteTcpRouteMappings api unregistrationMappingRequests w1
                                else (None, w1))
              in case err2 of Some e \<Rightarrow> (Some e, w2) | None \<Rightarrow> (None, w2)))"

text \<open>
  The loop of \<open>Emit\<close> with its counter and its flag. It returns the error of \<open>FetchToken\<close>; an error
  of \<open>emit\<close> other than \<open>unauthorized\<close> ends the loop and \<open>Emit\<close> returns nil.
\<close>

function emit_loop ::
  "('m, 'w) tcp_emitter \<Rightarrow> 'm list \<Rightarrow> 'm list \<Rightarrow> nat \<Rightarrow> bool \<Rightarrow> 'w \<Rightarrow> go_error option \<times> 'w" where
  "emit_loop emitter registrations unregistrations count' useCachedToken w =
     (if count' < 2 then
        (case FetchToken (te_uaaClient emitter) (\<not> useCachedToken) w of
           (Inl err, w1) \<Rightarrow> (Some err, w1)
         | (Inr token, w1) \<Rightarrow>
             (case emit emitter registrations unregistrations
                     (SetToken (te_routingAPIClient emitter) token w1) of
                (err, w2) \<Rightarrow>
                  (if err \<noteq> None \<and> the err = ''unauthorized''
                   then emit_loop emitter registrations unregistrations (count' + 1) False w2
                   else (None, w2))))
      else (None, w))"
  by pat_completeness auto
termination by (relation "measure (\<lambda>(_, _, _, count', _, _). 2 - count')") auto

declare emit_loop.simps [simp del]

definition Emit ::
  "'m mapping_maker \<Rightarrow> ('w \<Rightarrow> endpoint_key range_order) \<Rightarrow> ('m, 'w) tcp_emitter \<Rightarrow>
   routing_event list \<Rightarrow> 'w \<Rightarrow> go_error option \<times> 'w" where
  "Emit mk ord emitter routingEvents w =
     (let (registrationMappingRequests, unregistrationMappingRequests) =
            ToMappingRequests mk (ord w) routingEvents (te_ttl emitter)
      in emit_loop emitter registrationMappingRequests unregistrationMappingRequests 0 True w)"

text \<open>
  \<open>logRoutingEvents\<close>: the data of the lines it logs, one for each event, valid or not. The place of the
  loop over the endpoints is the index of the event.
\<close>

record logged_routes =
  lr_external_ports :: "uint32 list"
  lr_backends :: "endpoint list"

fun log_loop :: "endpoint_key range_order \<Rightarrow> nat \<Rightarrow> routing_event list \<Rightarrow> logged_routes list" where
  "log_loop ord i [] = []"
| "log_loop ord i (r # rs) =
     \<lparr>lr_external_ports = map ee_Port (re_ExternalEndpoints (ev_Entry r)),
      lr_backends = map snd (range_map ord [2, i] (re_Endpoints (ev_Entry r)))\<rparr> # log_loop ord (Suc i) rs"

definition logRoutingEvents :: "endpoint_key range_order \<Rightarrow> routing_event list \<Rightarrow> logged_routes list" where
  "logRoutingEvents ord routingEvents = log_loop ord 0 routingEvents"

text \<open>What is logged is what is requested, if the events are valid and of the two types: each port with each backend.\<close>

definition logged_pairs :: "logged_routes \<Rightarrow> nat" where
  "logged_pairs l = length (lr_external_ports l) * length (lr_backends l)"

lemma logged_requests:
  assumes "list_all (\<lambda>r. Valid r \<and> ev_EventType r \<in> {RouteRegistrationEvent, RouteUnregistrationEvent}) rs"
  shows "length (fst (ToMappingRequests mk ord rs ttl)) + length (snd (ToMappingRequests mk ord rs ttl)) =
    (\<Sum>l\<leftarrow>logRoutingEvents ord rs. logged_pairs l)"
proof -
  have log: "(\<Sum>l\<leftarrow>log_loop ord i rs. logged_pairs l) = (\<Sum>r\<leftarrow>rs. request_count r)" for i
    by (induction rs arbitrary: i) (simp_all add: logged_pairs_def request_count_def)
  have "(\<Sum>r\<leftarrow>fst (classify rs). request_count r) + (\<Sum>r\<leftarrow>snd (classify rs). request_count r) =
      (\<Sum>r\<leftarrow>rs. request_count r)"
    using assms by (induction rs) (auto simp: Valid_iff split: prod.splits)
  then show ?thesis
    by (simp add: logRoutingEvents_def log ToMappingRequests_def length_build case_prod_beta)
qed

subsection \<open>One attempt, and the two attempts of Emit\<close>

text \<open>One round of the loop: what stopped it (a token error or the outcome of \<open>emit\<close>).\<close>

definition attempt ::
  "('m, 'w) tcp_emitter \<Rightarrow> 'm list \<Rightarrow> 'm list \<Rightarrow> bool \<Rightarrow> 'w \<Rightarrow> (go_error + go_error option) \<times> 'w" where
  "attempt em regs unregs forced w =
     (case FetchToken (te_uaaClient em) forced w of
        (Inl err, w1) \<Rightarrow> (Inl err, w1)
      | (Inr token, w1) \<Rightarrow>
          (case emit em regs unregs (SetToken (te_routingAPIClient em) token w1) of
             (err, w2) \<Rightarrow> (Inr err, w2)))"

lemma emit_loop_attempt:
  "emit_loop em regs unregs count' useCached w =
     (if count' < 2 then
        (case attempt em regs unregs (\<not> useCached) w of
           (Inl err, w1) \<Rightarrow> (Some err, w1)
         | (Inr err, w1) \<Rightarrow>
             if err = Some ''unauthorized'' then emit_loop em regs unregs (Suc count') False w1
             else (None, w1))
      else (None, w))"
  by (subst emit_loop.simps) (auto simp: attempt_def split: sum.splits prod.splits)

lemma emit_loop_two:
  "emit_loop em regs unregs 0 True w =
     (case attempt em regs unregs False w of
        (Inl err, w1) \<Rightarrow> (Some err, w1)
      | (Inr err, w1) \<Rightarrow>
          if err = Some ''unauthorized''
          then (case attempt em regs unregs True w1 of
                  (Inl err', w2) \<Rightarrow> (Some err', w2) | (Inr _, w2) \<Rightarrow> (None, w2))
          else (None, w1))"
proof -
  have stop: "emit_loop em regs unregs (Suc (Suc 0)) u w' = (None, w')" for u w'
    by (subst emit_loop_attempt) simp
  have "emit_loop em regs unregs (Suc 0) False w' =
      (case attempt em regs unregs True w' of
         (Inl err, w2) \<Rightarrow> (Some err, w2) | (Inr _, w2) \<Rightarrow> (None, w2))" for w'
    by (subst emit_loop_attempt) (auto simp: stop split: sum.splits prod.splits)
  then show ?thesis by (subst emit_loop_attempt) (simp split: sum.splits prod.splits)
qed

lemma emit_cases:
  obtains (upsert_failed) e w1 where "regs \<noteq> []"
      "UpsertTcpRouteMappings (te_routingAPIClient em) regs w = (Some e, w1)"
      "emit em regs unregs w = (Some e, w1)"
  | (upserted) w1 where
      "if regs = [] then w1 = w
       else UpsertTcpRouteMappings (te_routingAPIClient em) regs w = (None, w1)"
      "emit em regs unregs w =
         (if unregs = [] then (None, w1) else DeleteTcpRouteMappings (te_routingAPIClient em) unregs w1)"
proof (cases "regs \<noteq> [] \<and> fst (UpsertTcpRouteMappings (te_routingAPIClient em) regs w) \<noteq> None")
  case True
  then show ?thesis
    by (cases "UpsertTcpRouteMappings (te_routingAPIClient em) regs w")
      (auto simp: emit_def intro: upsert_failed)
next
  case False
  define w1 where "w1 = (if regs = [] then w else snd (UpsertTcpRouteMappings (te_routingAPIClient em) regs w))"
  from False have "if regs = [] then w1 = w
      else UpsertTcpRouteMappings (te_routingAPIClient em) regs w = (None, w1)"
    by (auto simp: w1_def prod_eq_iff)
  moreover from this have "emit em regs unregs w =
      (if unregs = [] then (None, w1) else DeleteTcpRouteMappings (te_routingAPIClient em) unregs w1)"
    by (auto simp: emit_def Let_def split: prod.splits option.splits if_splits)
  ultimately show ?thesis by (rule upserted)
qed

subsection \<open>The calls on the wire\<close>

text \<open>
  Clients that keep a log of the calls made on them, around any clients, and the logs one attempt
  may leave: a token request alone, or a token request, the token, and the requests up to the first
  that fails.
\<close>

datatype 'm api_call =
    FetchTokenCall bool
  | SetTokenCall string
  | UpsertCall "'m list"
  | DeleteCall "'m list"

definition logged :: "'c \<Rightarrow> ('w \<Rightarrow> 'r \<times> 'w) \<Rightarrow> 'w \<times> 'c list \<Rightarrow> 'r \<times> ('w \<times> 'c list)" where
  "logged c f wl = (case f (fst wl) of (r, w1) \<Rightarrow> (r, (w1, snd wl @ [c])))"

definition traced :: "('m, 'w) tcp_emitter \<Rightarrow> ('m, 'w \<times> 'm api_call list) tcp_emitter" where
  "traced em =
     (let api = te_routingAPIClient em in
      NewEmitter
        \<lparr>SetToken = \<lambda>token (w, l). (SetToken api token w, l @ [SetTokenCall token]),
         UpsertTcpRouteMappings = \<lambda>ms. logged (UpsertCall ms) (UpsertTcpRouteMappings api ms),
         DeleteTcpRouteMappings = \<lambda>ms. logged (DeleteCall ms) (DeleteTcpRouteMappings api ms)\<rparr>
        \<lparr>FetchToken = \<lambda>force. logged (FetchTokenCall force) (FetchToken (te_uaaClient em) force)\<rparr>
        (te_ttl em))"

definition sends :: "'m list \<Rightarrow> 'm list \<Rightarrow> 'm api_call list" where
  "sends regs unregs =
     (if regs = [] then [] else [UpsertCall regs]) @ (if unregs = [] then [] else [DeleteCall unregs])"

definition full_attempts :: "bool \<Rightarrow> 'm list \<Rightarrow> 'm list \<Rightarrow> 'm api_call list set" where
  "full_attempts forced regs unregs =
     {FetchTokenCall forced # SetTokenCall token # s | token s. prefix s (sends regs unregs)}"

lemma NewEmitter_simps [simp]:
  "te_routingAPIClient (NewEmitter api uaa ttl) = api"
  "te_uaaClient (NewEmitter api uaa ttl) = uaa"
  "te_ttl (NewEmitter api uaa ttl) = ttl"
  by (simp_all add: NewEmitter_def)

lemma traced_simps [simp]:
  "te_ttl (traced em) = te_ttl em"
  "FetchToken (te_uaaClient (traced em)) force =
     logged (FetchTokenCall force) (FetchToken (te_uaaClient em) force)"
  "SetToken (te_routingAPIClient (traced em)) token (w, l) =
     (SetToken (te_routingAPIClient em) token w, l @ [SetTokenCall token])"
  "UpsertTcpRouteMappings (te_routingAPIClient (traced em)) ms =
     logged (UpsertCall ms) (UpsertTcpRouteMappings (te_routingAPIClient em) ms)"
  "DeleteTcpRouteMappings (te_routingAPIClient (traced em)) ms =
     logged (DeleteCall ms) (DeleteTcpRouteMappings (te_routingAPIClient em) ms)"
  by (simp_all add: traced_def Let_def)

lemma emit_traced:
  "\<exists>s. prefix s (sends regs unregs) \<and>
     emit (traced em) regs unregs (w, l) = (case emit em regs unregs w of (r, w1) \<Rightarrow> (r, (w1, l @ s)))"
  by (cases rule: emit_cases [of regs em w unregs])
    (auto simp: emit_def logged_def sends_def Let_def split: prod.splits option.splits)

lemma attempt_traced:
  "\<exists>s. attempt (traced em) regs unregs forced (w, l) =
       (case attempt em regs unregs forced w of (r, w1) \<Rightarrow> (r, (w1, l @ s))) \<and>
     (case fst (attempt em regs unregs forced w) of
        Inl _ \<Rightarrow> s = [FetchTokenCall forced] | Inr _ \<Rightarrow> s \<in> full_attempts forced regs unregs)"
proof (cases "FetchToken (te_uaaClient em) forced w")
  case (Pair r w1)
  show ?thesis
  proof (cases r)
    case (Inr token)
    obtain s where s: "prefix s (sends regs unregs)"
      "emit (traced em) regs unregs
         (SetToken (te_routingAPIClient em) token w1, l @ [FetchTokenCall forced, SetTokenCall token]) =
       (case emit em regs unregs (SetToken (te_routingAPIClient em) token w1) of
          (r, w2) \<Rightarrow> (r, (w2, (l @ [FetchTokenCall forced, SetTokenCall token]) @ s)))"
      using emit_traced [where regs = regs and unregs = unregs and em = em
          and w = "SetToken (te_routingAPIClient em) token w1"
          and l = "l @ [FetchTokenCall forced, SetTokenCall token]"] by (elim exE conjE)
    show ?thesis
      by (rule exI [of _ "FetchTokenCall forced # SetTokenCall token # s"])
        (use s Pair Inr in \<open>auto simp: attempt_def logged_def full_attempts_def split: prod.splits\<close>)
  qed (simp add: Pair attempt_def logged_def)
qed

lemma Emit_two:
  "Emit mk ord em rs w =
     (let (regs, unregs) = ToMappingRequests mk (ord w) rs (te_ttl em) in
      case attempt em regs unregs False w of
        (Inl err, w1) \<Rightarrow> (Some err, w1)
      | (Inr err, w1) \<Rightarrow>
          if err = Some ''unauthorized''
          then (case attempt em regs unregs True w1 of
                  (Inl err', w2) \<Rightarrow> (Some err', w2) | (Inr _, w2) \<Rightarrow> (None, w2))
          else (None, w1))"
  by (simp add: Emit_def emit_loop_two)

subsection \<open>The mappings the routing API holds\<close>

text \<open>
  What the emitter relies on: the API holds a set of mappings, an accepted upsert adds its mappings, an
  accepted delete takes them away, a request it refuses changes nothing, and fetching and setting a
  token have no effect on the mappings.
\<close>

definition lawful_clients :: "('w \<Rightarrow> 'm set) \<Rightarrow> ('m, 'w) tcp_emitter \<Rightarrow> bool" where
  "lawful_clients held em \<longleftrightarrow>
     (\<forall>force w. held (snd (FetchToken (te_uaaClient em) force w)) = held w) \<and>
     (\<forall>token w. held (SetToken (te_routingAPIClient em) token w) = held w) \<and>
     (\<forall>ms w. held (snd (UpsertTcpRouteMappings (te_routingAPIClient em) ms w)) =
        (if fst (UpsertTcpRouteMappings (te_routingAPIClient em) ms w) = None
         then held w \<union> set ms else held w)) \<and>
     (\<forall>ms w. held (snd (DeleteTcpRouteMappings (te_routingAPIClient em) ms w)) =
        (if fst (DeleteTcpRouteMappings (te_routingAPIClient em) ms w) = None
         then held w - set ms else held w))"

lemma emit_held:
  assumes "lawful_clients held em"
  shows "held (snd (emit em regs unregs w)) =
     (if fst (emit em regs unregs w) = None then (held w \<union> set regs) - set unregs
      else held (snd (emit em regs unregs w))) \<and>
   (fst (emit em regs unregs w) \<noteq> None \<longrightarrow>
      held (snd (emit em regs unregs w)) \<in> {held w, held w \<union> set regs})"
proof (cases rule: emit_cases [of regs em w unregs])
  case (upsert_failed e w1)
  moreover have "held w1 = held w"
    using assms upsert_failed(2) unfolding lawful_clients_def by (metis fst_conv option.distinct(1) snd_conv)
  ultimately show ?thesis by simp
next
  case (upserted w1)
  have "held w1 = held w \<union> set regs"
    using assms upserted(1) unfolding lawful_clients_def by (metis Un_empty_right fst_conv list.set(1) snd_conv)
  moreover have "held (snd (DeleteTcpRouteMappings (te_routingAPIClient em) unregs w1)) =
      (if fst (DeleteTcpRouteMappings (te_routingAPIClient em) unregs w1) = None
       then held w1 - set unregs else held w1)"
    using assms by (simp add: lawful_clients_def)
  ultimately show ?thesis using upserted(2) by (simp split: if_splits)
qed

lemma attempt_held:
  assumes "lawful_clients held em"
  shows "case attempt em regs unregs forced w of
      (Inl _, w1) \<Rightarrow> held w1 = held w
    | (Inr None, w1) \<Rightarrow> held w1 = (held w \<union> set regs) - set unregs
    | (Inr (Some _), w1) \<Rightarrow> held w1 \<in> {held w, held w \<union> set regs}"
proof -
  obtain r w1 where f: "FetchToken (te_uaaClient em) forced w = (r, w1)" by fastforce
  with assms have w1: "held w1 = held w" "held (SetToken (te_routingAPIClient em) token w1) = held w" for token
    unfolding lawful_clients_def by (metis snd_conv)+
  show ?thesis
  proof (cases r)
    case (Inr token)
    let ?w = "SetToken (te_routingAPIClient em) token w1"
    obtain r2 w2 where e: "emit em regs unregs ?w = (r2, w2)" by fastforce
    have "if r2 = None then held w2 = (held w \<union> set regs) - set unregs
        else held w2 \<in> {held w, held w \<union> set regs}"
      using emit_held [OF assms, where regs = regs and unregs = unregs and w = ?w] unfolding e w1
      by (cases r2) simp_all
    with Inr show ?thesis by (cases r2) (simp_all add: attempt_def f e)
  qed (simp add: attempt_def f w1)
qed

subsection \<open>Properties\<close>

text \<open>
  C25: What \<open>Emit\<close> returns, for all clients. It fetches a cached token and sends once. It sends a
  second time, with a token it forces to be fetched anew, exactly if the first sending failed with
  \<open>unauthorized\<close>, and never a third time. It returns an error exactly if a token fetch failed; every
  error of the sending itself, the second \<open>unauthorized\<close> included, is dropped.
\<close>

theorem Emit_outcome:
  "Emit mk ord em rs w =
     (let regs = fst (ToMappingRequests mk (ord w) rs (te_ttl em));
          unregs = snd (ToMappingRequests mk (ord w) rs (te_ttl em));
          send = (\<lambda>token w. emit em regs unregs (SetToken (te_routingAPIClient em) token w))
      in case FetchToken (te_uaaClient em) False w of
           (Inl err, w1) \<Rightarrow> (Some err, w1)
         | (Inr token, w1) \<Rightarrow>
             if fst (send token w1) \<noteq> Some ''unauthorized'' then (None, snd (send token w1))
             else (case FetchToken (te_uaaClient em) True (snd (send token w1)) of
                     (Inl err, w2) \<Rightarrow> (Some err, w2)
                   | (Inr token2, w2) \<Rightarrow> (None, snd (send token2 w2))))"
  by (auto simp: Emit_two attempt_def Let_def split: prod.splits sum.splits)

text \<open>
  C24: The calls \<open>Emit\<close> makes, for all clients and whatever they answer: the log is that of one
  attempt with the cached token, or of one such attempt that sent, followed by one attempt with a
  forced fetch. An attempt asks for a token, sets it, upserts the registrations if there are any,
  then deletes the unregistrations if there are any, and stops early only where a call fails; it
  never upserts after it deleted and never sends an empty request.
\<close>

theorem Emit_calls:
  "\<exists>calls. Emit mk (ord \<circ> fst) (traced em) rs (w, []) =
       (fst (Emit mk ord em rs w), (snd (Emit mk ord em rs w), calls)) \<and>
     (let (regs, unregs) = ToMappingRequests mk (ord w) rs (te_ttl em) in
      calls \<in> {[FetchTokenCall False]} \<union> full_attempts False regs unregs \<union>
        {calls1 @ calls2 | calls1 calls2. calls1 \<in> full_attempts False regs unregs \<and>
           calls2 \<in> {[FetchTokenCall True]} \<union> full_attempts True regs unregs})"
proof -
  obtain regs unregs where reqs: "ToMappingRequests mk (ord w) rs (te_ttl em) = (regs, unregs)" by fastforce
  obtain r1 w1 where a1: "attempt em regs unregs False w = (r1, w1)" by fastforce
  obtain r2 w2 where a2: "attempt em regs unregs True w1 = (r2, w2)" by fastforce
  obtain s1 where s1: "attempt (traced em) regs unregs False (w, []) = (r1, (w1, s1))"
    "case r1 of Inl _ \<Rightarrow> s1 = [FetchTokenCall False] | Inr _ \<Rightarrow> s1 \<in> full_attempts False regs unregs"
    using attempt_traced [of em regs unregs False w "[]"] a1 by auto
  obtain s2 where s2: "attempt (traced em) regs unregs True (w1, s1) = (r2, (w2, s1 @ s2))"
    "case r2 of Inl _ \<Rightarrow> s2 = [FetchTokenCall True] | Inr _ \<Rightarrow> s2 \<in> full_attempts True regs unregs"
    using attempt_traced [of em regs unregs True w1 s1] a2 by auto
  show ?thesis
  proof (cases "r1 = Inr (Some ''unauthorized'')")
    case True
    with s1 s2 show ?thesis
      by (intro exI [of _ "s1 @ s2"])
        (cases r2; fastforce simp: Emit_two reqs a1 a2)
  next
    case False
    with s1 show ?thesis
      by (intro exI [of _ s1]) (cases r1; simp add: Emit_two reqs a1)
  qed
qed

text \<open>
  Whatever fails and is retried, \<open>Emit\<close> leaves the mappings in one of three states: as they were,
  with the registrations added, or with the registrations added and the unregistrations taken away.
\<close>

lemma Emit_held_states:
  assumes "lawful_clients held em"
  shows "let (regs, unregs) = ToMappingRequests mk (ord w) rs (te_ttl em) in
    held (snd (Emit mk ord em rs w)) \<in>
      {held w, held w \<union> set regs, (held w \<union> set regs) - set unregs}"
proof -
  obtain regs unregs where reqs: "ToMappingRequests mk (ord w) rs (te_ttl em) = (regs, unregs)" by fastforce
  obtain r1 w1 where a1: "attempt em regs unregs False w = (r1, w1)" by fastforce
  obtain r2 w2 where a2: "attempt em regs unregs True w1 = (r2, w2)" by fastforce
  show ?thesis
    using attempt_held [OF assms, where regs = regs and unregs = unregs and forced = False and w = w]
      attempt_held [OF assms, where regs = regs and unregs = unregs and forced = True and w = w1]
    by (auto simp: Emit_two reqs a1 a2 split: sum.splits option.splits if_splits)
qed

text \<open>A token may have expired, and nothing else goes wrong: a freshly fetched one is accepted.\<close>

definition only_tokens_expire :: "('m, 'w) tcp_emitter \<Rightarrow> bool" where
  "only_tokens_expire em \<longleftrightarrow>
     (\<forall>force w. \<exists>token w1. FetchToken (te_uaaClient em) force w = (Inr token, w1)) \<and>
     (\<forall>ms w. fst (UpsertTcpRouteMappings (te_routingAPIClient em) ms w) \<in> {None, Some ''unauthorized''}) \<and>
     (\<forall>ms w. fst (DeleteTcpRouteMappings (te_routingAPIClient em) ms w) \<in> {None, Some ''unauthorized''}) \<and>
     (\<forall>w token w1 regs unregs. FetchToken (te_uaaClient em) True w = (Inr token, w1) \<longrightarrow>
        fst (emit em regs unregs (SetToken (te_routingAPIClient em) token w1)) = None)"

lemma emit_unauthorized:
  assumes "only_tokens_expire em"
  shows "fst (emit em regs unregs w) \<in> {None, Some ''unauthorized''}"
proof -
  let ?api = "te_routingAPIClient em"
  have up: "fst (UpsertTcpRouteMappings ?api ms w) \<in> {None, Some ''unauthorized''}"
    and del: "fst (DeleteTcpRouteMappings ?api ms w) \<in> {None, Some ''unauthorized''}" for ms w
    using assms unfolding only_tokens_expire_def by blast+
  show ?thesis
  proof (cases rule: emit_cases [of regs em w unregs])
    case (upsert_failed e w1)
    with up [of regs w] show ?thesis by simp
  next
    case (upserted w1)
    with del [of unregs w1] show ?thesis by simp
  qed
qed

lemma attempt_expired:
  assumes "only_tokens_expire em"
  shows "fst (attempt em regs unregs forced w) \<in> {Inr None, Inr (Some ''unauthorized'')} \<and>
    (forced \<longrightarrow> fst (attempt em regs unregs forced w) = Inr None)"
proof -
  obtain token w1 where f: "FetchToken (te_uaaClient em) forced w = (Inr token, w1)"
    using assms unfolding only_tokens_expire_def by blast
  let ?e = "emit em regs unregs (SetToken (te_routingAPIClient em) token w1)"
  have "fst (attempt em regs unregs forced w) = Inr (fst ?e)"
    by (simp add: attempt_def f case_prod_beta)
  moreover have "forced \<longrightarrow> fst ?e = None"
    using assms f unfolding only_tokens_expire_def by (metis (full_types))
  moreover have "fst ?e \<in> {None, Some ''unauthorized''}"
    by (rule emit_unauthorized [OF assms])
  ultimately show ?thesis by auto
qed

text \<open>The requests of \<open>ToMappingRequests\<close> as sets.\<close>

lemma ToMappingRequests_sets:
  "ToMappingRequests mk ord rs ttl = (regs, unregs) \<Longrightarrow>
   set regs = (\<Union>r \<in> set (valid_events RouteRegistrationEvent rs). event_requests mk ttl r) \<and>
   set unregs = (\<Union>r \<in> set (valid_events RouteUnregistrationEvent rs). event_requests mk ttl r)"
  by (auto simp: ToMappingRequests_def classify_eq set_build)

lemma Emit_sent:
  assumes "lawful_clients held em" and "only_tokens_expire em"
    and reqs: "ToMappingRequests mk (ord w) rs (te_ttl em) = (regs, unregs)"
  shows "fst (Emit mk ord em rs w) = None \<and>
    held (snd (Emit mk ord em rs w)) = (held w \<union> set regs) - set unregs"
proof -
  obtain r1 w1 where a1: "attempt em regs unregs False w = (r1, w1)" by fastforce
  obtain r2 w2 where a2: "attempt em regs unregs True w1 = (r2, w2)" by fastforce
  have r: "r1 = Inr None \<or> r1 = Inr (Some ''unauthorized'')" "r2 = Inr None"
    using attempt_expired [OF assms(2), of regs unregs False w] attempt_expired [OF assms(2), of regs unregs True w1]
    by (simp_all add: a1 a2)
  have w1: "held w1 = (held w \<union> set regs) - set unregs" if "r1 = Inr None"
    using attempt_held [OF assms(1), where regs = regs and unregs = unregs and forced = False and w = w] that
    by (simp add: a1)
  have w2: "held w2 = (held w \<union> set regs) - set unregs" if "r1 = Inr (Some ''unauthorized'')"
    using attempt_held [OF assms(1), where regs = regs and unregs = unregs and forced = False and w = w]
      attempt_held [OF assms(1), where regs = regs and unregs = unregs and forced = True and w = w1] that r(2)
    by (simp add: a1 a2) blast
  show ?thesis
    using r(1)
  proof
    assume "r1 = Inr None"
    then show ?thesis by (simp add: Emit_two reqs a1 w1)
  next
    assume "r1 = Inr (Some ''unauthorized'')"
    then show ?thesis by (simp add: Emit_two reqs a1 a2 r(2) w2)
  qed
qed

text \<open>
  C26: Where only tokens expire, an emit always gets through: it returns no error and afterwards the
  API holds the mappings of the valid registration events and not those of the valid
  unregistration events, and of the others exactly those it held, even if the token expired after
  the upsert and the upsert was sent twice.
\<close>

theorem Emit_survives_expired_token:
  assumes "lawful_clients held em" and "only_tokens_expire em"
  shows "fst (Emit mk ord em rs w) = None \<and>
    held (snd (Emit mk ord em rs w)) =
      (held w \<union> (\<Union>r \<in> set (valid_events RouteRegistrationEvent rs). event_requests mk (te_ttl em) r)) -
      (\<Union>r \<in> set (valid_events RouteUnregistrationEvent rs). event_requests mk (te_ttl em) r)"
proof -
  obtain regs unregs where reqs: "ToMappingRequests mk (ord w) rs (te_ttl em) = (regs, unregs)" by fastforce
  from Emit_sent [of held em mk ord w rs, OF assms reqs] show ?thesis
    by (simp add: ToMappingRequests_sets [OF reqs])
qed

subsection \<open>Witnesses\<close>

text \<open>
  Clients over a world that holds whether the token is fresh and the mappings of the API: a forced
  fetch makes the token fresh, and the API answers \<open>unauthorized\<close> to a stale one.
\<close>

definition sample_emitter :: "(string \<times> uint16 \<times> string \<times> uint16 \<times> int, bool \<times> (string \<times> uint16 \<times> string \<times> uint16 \<times> int) set) tcp_emitter" where
  "sample_emitter = NewEmitter
     \<lparr>SetToken = \<lambda>_ w. w,
      UpsertTcpRouteMappings = \<lambda>ms (fresh, held).
        if fresh then (None, (fresh, held \<union> set ms)) else (Some ''unauthorized'', (fresh, held)),
      DeleteTcpRouteMappings = \<lambda>ms (fresh, held).
        if fresh then (None, (fresh, held - set ms)) else (Some ''unauthorized'', (fresh, held))\<rparr>
     \<lparr>FetchToken = \<lambda>force (fresh, held). (Inr ''token'', (fresh \<or> force, held))\<rparr> 120"

definition sample_mapping ::
  "(string \<times> uint16 \<times> string \<times> uint16 \<times> int) mapping_maker" where
  "sample_mapping g p h hp ttl = (g, p, h, hp, ttl)"

definition sample_event :: routing_event where
  "sample_event = mk_event RouteRegistrationEvent sample_key sample_entry"

lemma sample_emitter_lawful: "lawful_clients snd sample_emitter"
  by (simp add: lawful_clients_def sample_emitter_def)

lemma sample_emitter_expires: "only_tokens_expire sample_emitter"
  by (auto simp: only_tokens_expire_def sample_emitter_def emit_def Let_def)

lemma sample_event_request:
  "(''rg'', 65, ''10.0.0.1'', 9000, 120) \<in> event_requests sample_mapping 120 sample_event"
  by (simp add: event_requests_def request_of_def sample_mapping_def sample_event_def sample_entry_def
      NewRoutableEndpoints_def) (auto intro!: exI)

lemma sample_event_valid: "valid_events RouteRegistrationEvent [sample_event] = [sample_event]"
  "valid_events RouteUnregistrationEvent [sample_event] = []"
  by (simp_all add: valid_events_def sample_event_def Valid_iff)

lemma Emit_held_states_witness:
  "let (regs, unregs) = ToMappingRequests sample_mapping sorted_order [sample_event] 120 in
    snd (snd (Emit sample_mapping (\<lambda>_. sorted_order) sample_emitter [sample_event] (False, {}))) \<in>
      {{}, set regs, set regs - set unregs}"
  using Emit_held_states [OF sample_emitter_lawful, of sample_mapping "\<lambda>_. sorted_order" "(False, {})" "[sample_event]"]
  by (simp add: sample_emitter_def)

lemma Emit_survives_expired_token_witness:
  "fst (Emit sample_mapping (\<lambda>_. sorted_order) sample_emitter [sample_event] (False, {})) = None \<and>
   (''rg'', 65, ''10.0.0.1'', 9000, 120) \<in>
     snd (snd (Emit sample_mapping (\<lambda>_. sorted_order) sample_emitter [sample_event] (False, {})))"
  using Emit_survives_expired_token [OF sample_emitter_lawful sample_emitter_expires,
      of sample_mapping "\<lambda>_. sorted_order" "[sample_event]" "(False, {})"] sample_event_request
  by (simp add: sample_event_valid sample_emitter_def)

end
