(* ===== verification/Lrp_Utils.thy ===== *)
theory Lrp_Utils
  imports Bbs_Models
begin

text \<open>
  \<open>routing_table/util/lrp_utils.go\<close>: the log data of LRPs, and the conversion of a desired LRP to its
  scheduling info. A nil desired LRP, or one whose \<open>Routes\<close> or \<open>ModificationTag\<close> is nil, makes them panic
  (\<open>None\<close>); the handlers compute the log data before they touch the table.
\<close>

text \<open>\<open>lager.Data\<close>: named values of the types that occur here.\<close>

datatype log_value =
    LogString string
  | LogInt int
  | LogBool bool
  | LogRoutes routes
  | LogPorts "uint32 list"
  | LogPortMappings "port_mapping list"

type_synonym lager_data = "(string \<times> log_value) list"

text \<open>
  The two entries of the route map that are logged. \<open>m[k]\<close> for a missing key is nil, which is then
  stored under the key.
\<close>

definition log_routes :: "bbs_models \<Rightarrow> routes \<Rightarrow> routes" where
  "log_routes bbs routes =
     fmupd (TCP_ROUTER bbs) (map_get None routes (TCP_ROUTER bbs))
       (fmupd (CF_ROUTER bbs) (map_get None routes (CF_ROUTER bbs)) fmempty)"

definition DesiredLRPData :: "bbs_models \<Rightarrow> desired_lrp option \<Rightarrow> lager_data option" where
  "DesiredLRPData bbs pointer = do {
     lrp \<leftarrow> pointer;
     routes \<leftarrow> dlrp_Routes lrp;
     Some [(''process-guid'', LogString (dlrp_ProcessGuid lrp)),
           (''routes'', LogRoutes (log_routes bbs routes)),
           (''ports'', LogPorts (dlrp_Ports lrp))]
   }"

definition DesiredLRPSchedulingInfoData :: "bbs_models \<Rightarrow> scheduling_info \<Rightarrow> lager_data" where
  "DesiredLRPSchedulingInfoData bbs lrpInfo =
     [(''process-guid'', LogString (si_ProcessGuid lrpInfo)),
      (''routes'', LogRoutes (log_routes bbs (si_Routes lrpInfo)))]"

definition ActualLRPData :: "actual_lrp \<Rightarrow> bool \<Rightarrow> lager_data" where
  "ActualLRPData lrp evacuating =
     [(''process-guid'', LogString (alrp_ProcessGuid lrp)),
      (''index'', LogInt (alrp_Index lrp)),
      (''domain'', LogString (alrp_Domain lrp)),
      (''instance-guid'', LogString (alrp_InstanceGuid lrp)),
      (''cell-id'', LogString (alrp_CellId lrp)),
      (''address'', LogString (alrp_Address lrp)),
      (''ports'', LogPortMappings (alrp_Ports lrp)),
      (''evacuating'', LogBool evacuating),
      (''state'', LogString (alrp_State lrp))]"

definition DesiredLRPSchedulingInfo :: "desired_lrp option \<Rightarrow> scheduling_info option" where
  "DesiredLRPSchedulingInfo pointer = do {
     desiredLRP \<leftarrow> pointer;
     routes \<leftarrow> dlrp_Routes desiredLRP;
     modificationTag \<leftarrow> dlrp_ModificationTag desiredLRP;
     Some \<lparr>si_ProcessGuid = dlrp_ProcessGuid desiredLRP, si_LogGuid = dlrp_LogGuid desiredLRP,
           si_Routes = routes, si_ModificationTag = modificationTag\<rparr>
   }"

text \<open>A desired LRP with routes and a tag, as the BBS sends it.\<close>

definition complete_lrp :: "desired_lrp option \<Rightarrow> bool" where
  "complete_lrp pointer \<longleftrightarrow>
     (case pointer of
        None \<Rightarrow> False | Some d \<Rightarrow> dlrp_Routes d \<noteq> None \<and> dlrp_ModificationTag d \<noteq> None)"

lemma SchedulingInfo_None: "DesiredLRPSchedulingInfo d = None \<longleftrightarrow> \<not> complete_lrp d"
  by (auto simp: DesiredLRPSchedulingInfo_def complete_lrp_def split: Option.bind_splits option.splits)

lemma complete_data: "complete_lrp d \<Longrightarrow> \<exists>l. DesiredLRPData bbs d = Some l"
  by (auto simp: DesiredLRPData_def complete_lrp_def split: option.splits)

lemma log_routes_lookup:
  "fmlookup (log_routes bbs routes) k =
     (if k = TCP_ROUTER bbs \<or> k = CF_ROUTER bbs then Some (map_get None routes k) else None)"
  by (simp add: log_routes_def)

end
