(* ===== verification/Routing_Table_Handler.thy ===== *)
theory Routing_Table_Handler
  imports Route_Registry Emitter Lrp_Utils
begin

text \<open>
  \<open>routing_table/routing_table_handler.go\<close>: the handler that turns BBS events into table operations,
  emits their routing events, and re-synchronises the table with the BBS.

  The emitter and the BBS client are interfaces; here they are functions that pass the world \<open>'w\<close>
  along. \<open>handler.emitter\<close> may be nil (\<open>None\<close>), which \<open>applyCachedEvents\<close> uses. \<open>Lock\<close>/\<open>Unlock\<close> make
  \<open>HandleEvent\<close>, the first and the last part of \<open>Sync\<close> atomic, so each is one function; the part of
  \<open>Sync\<close> between them, the two concurrent fetches, is interleaved with \<open>HandleEvent\<close> in the step
  relation \<open>sync_step\<close>. A panic is \<open>None\<close>. The event itself is not nil; the LRPs
  and groups it points to may be, and \<open>Resolve\<close>, which reads the group, panics on a nil one. Loggers
  are left out, but not the panics of computing their data.
\<close>

type_synonym 'w emitter = "routing_event list \<Rightarrow> 'w \<Rightarrow> go_error option \<times> 'w"

record 'w bbs_client =
  ActualLRPGroups :: "'w \<Rightarrow> (go_error + actual_lrp_group list) \<times> 'w"
  DesiredLRPSchedulingInfos :: "'w \<Rightarrow> (go_error + scheduling_info list) \<times> 'w"

record 'w routing_table_handler =
  h_routingTable :: routing_table
  h_emitter :: "'w emitter option"
  h_syncing :: bool
  h_cachedEvents :: "bbs_event list"

definition NewRoutingTableHandler ::
  "routing_table \<Rightarrow> 'w emitter option \<Rightarrow> 'w routing_table_handler" where
  "NewRoutingTableHandler routingTable emitter =
     \<lparr>h_routingTable = routingTable, h_emitter = emitter, h_syncing = False, h_cachedEvents = []\<rparr>"

definition Syncing :: "'w routing_table_handler \<Rightarrow> bool" where
  "Syncing handler = h_syncing handler"

subsection \<open>Events\<close>

text \<open>A handler operation on the handler and the world; \<open>None\<close> is a panic.\<close>

type_synonym 'w handler_step =
  "'w routing_table_handler \<Rightarrow> 'w \<Rightarrow> ('w routing_table_handler \<times> 'w) option"

definition handler_emit :: "routing_event list \<Rightarrow> 'w routing_table_handler \<Rightarrow> 'w \<Rightarrow> 'w" where
  "handler_emit routingEvents handler w =
     (case h_emitter handler of
        None \<Rightarrow> w
      | Some emitter \<Rightarrow> if length routingEvents > 0 then snd (emitter routingEvents w) else w)"

definition handleDesiredCreate :: "bbs_models \<Rightarrow> desired_lrp option \<Rightarrow> 'w handler_step" where
  "handleDesiredCreate bbs desiredLRP handler w = do {
     _ \<leftarrow> DesiredLRPData bbs desiredLRP;
     info \<leftarrow> DesiredLRPSchedulingInfo desiredLRP;
     let (routingEvents, table) = AddRoutes bbs info (h_routingTable handler);
         handler1 = handler\<lparr>h_routingTable := table\<rparr>
     in Some (handler1, handler_emit routingEvents handler1 w)
   }"

definition handleDesiredUpdate :: "bbs_models \<Rightarrow> desired_lrp option \<Rightarrow> desired_lrp option \<Rightarrow> 'w handler_step" where
  "handleDesiredUpdate bbs before after handler w = do {
     _ \<leftarrow> DesiredLRPData bbs before;
     _ \<leftarrow> DesiredLRPData bbs after;
     beforeInfo \<leftarrow> DesiredLRPSchedulingInfo before;
     afterInfo \<leftarrow> DesiredLRPSchedulingInfo after;
     let (routingEvents, table) = UpdateRoutes bbs beforeInfo afterInfo (h_routingTable handler);
         handler1 = handler\<lparr>h_routingTable := table\<rparr>
     in Some (handler1, handler_emit routingEvents handler1 w)
   }"

definition handleDesiredDelete :: "bbs_models \<Rightarrow> desired_lrp option \<Rightarrow> 'w handler_step" where
  "handleDesiredDelete bbs desiredLRP handler w = do {
     _ \<leftarrow> DesiredLRPData bbs desiredLRP;
     info \<leftarrow> DesiredLRPSchedulingInfo desiredLRP;
     let (routingEvents, table) = RemoveRoutes bbs info (h_routingTable handler);
         handler1 = handler\<lparr>h_routingTable := table\<rparr>
     in Some (handler1, handler_emit routingEvents handler1 w)
   }"

definition addAndEmit :: "bbs_models \<Rightarrow> actual_lrp_group \<Rightarrow> 'w handler_step" where
  "addAndEmit bbs actualLRPGrp handler w = do {
     (routingEvents, table) \<leftarrow> AddEndpoint bbs actualLRPGrp (h_routingTable handler);
     let handler1 = handler\<lparr>h_routingTable := table\<rparr>
     in Some (handler1, handler_emit routingEvents handler1 w)
   }"

definition removeAndEmit :: "bbs_models \<Rightarrow> actual_lrp_group \<Rightarrow> 'w handler_step" where
  "removeAndEmit bbs actualLRPGrp handler w = do {
     (routingEvents, table) \<leftarrow> RemoveEndpoint bbs actualLRPGrp (h_routingTable handler);
     let handler1 = handler\<lparr>h_routingTable := table\<rparr>
     in Some (handler1, handler_emit routingEvents handler1 w)
   }"

definition handleActualCreate :: "bbs_models \<Rightarrow> actual_lrp_group option \<Rightarrow> 'w handler_step" where
  "handleActualCreate bbs pointer handler w = do {
     actualLRPGrp \<leftarrow> pointer;
     (actualLRP, evacuating) \<leftarrow> Resolve bbs actualLRPGrp;
     if alrp_State actualLRP = ActualLRPStateRunning bbs
     then addAndEmit bbs actualLRPGrp handler w
     else Some (handler, w)
   }"

definition handleActualUpdate ::
  "bbs_models \<Rightarrow> actual_lrp_group option \<Rightarrow> actual_lrp_group option \<Rightarrow> 'w handler_step" where
  "handleActualUpdate bbs beforePointer afterPointer handler w = do {
     beforeGrp \<leftarrow> beforePointer;
     (before, beforeEvacuating) \<leftarrow> Resolve bbs beforeGrp;
     afterGrp \<leftarrow> afterPointer;
     (after, afterEvacuating) \<leftarrow> Resolve bbs afterGrp;
     if alrp_State after = ActualLRPStateRunning bbs
     then addAndEmit bbs afterGrp handler w
     else if alrp_State after \<noteq> ActualLRPStateRunning bbs \<and>
             alrp_State before = ActualLRPStateRunning bbs
     then removeAndEmit bbs beforeGrp handler w
     else Some (handler, w)
   }"

definition handleActualDelete :: "bbs_models \<Rightarrow> actual_lrp_group option \<Rightarrow> 'w handler_step" where
  "handleActualDelete bbs pointer handler w = do {
     actualLRPGrp \<leftarrow> pointer;
     (actualLRP, evacuating) \<leftarrow> Resolve bbs actualLRPGrp;
     if alrp_State actualLRP = ActualLRPStateRunning bbs
     then removeAndEmit bbs actualLRPGrp handler w
     else Some (handler, w)
   }"

fun handleEvent :: "bbs_models \<Rightarrow> bbs_event \<Rightarrow> 'w handler_step" where
  "handleEvent bbs (DesiredLRPCreatedEvent d) = handleDesiredCreate bbs d"
| "handleEvent bbs (DesiredLRPChangedEvent before after) = handleDesiredUpdate bbs before after"
| "handleEvent bbs (DesiredLRPRemovedEvent d) = handleDesiredDelete bbs d"
| "handleEvent bbs (ActualLRPCreatedEvent g) = handleActualCreate bbs g"
| "handleEvent bbs (ActualLRPChangedEvent before after) = handleActualUpdate bbs before after"
| "handleEvent bbs (ActualLRPRemovedEvent g) = handleActualDelete bbs g"
| "handleEvent bbs (UnrecognizedEvent eventType) = (\<lambda>handler w. Some (handler, w))"

definition HandleEvent :: "bbs_models \<Rightarrow> bbs_event \<Rightarrow> 'w handler_step" where
  "HandleEvent bbs event handler w =
     (if h_syncing handler
      then Some (handler\<lparr>h_cachedEvents := h_cachedEvents handler @ [event]\<rparr>, w)
      else handleEvent bbs event handler w)"

text \<open>\<open>for _, e := range events { handler.handleEvent(e) }\<close>\<close>

primrec handle_all :: "bbs_models \<Rightarrow> bbs_event list \<Rightarrow> 'w handler_step" where
  "handle_all bbs [] handler w = Some (handler, w)"
| "handle_all bbs (e # es) handler w = do {
     (handler1, w1) \<leftarrow> handleEvent bbs e handler w;
     handle_all bbs es handler1 w1
   }"

subsection \<open>Sync\<close>

text \<open>The first critical section.\<close>

definition sync_begin :: "'w routing_table_handler \<Rightarrow> 'w routing_table_handler" where
  "sync_begin handler = handler\<lparr>h_cachedEvents := [], h_syncing := True\<rparr>"

text \<open>The loop of the first goroutine: the running LRPs of the response.\<close>

fun running_groups :: "bbs_models \<Rightarrow> actual_lrp_group list \<Rightarrow> actual_lrp_group list option" where
  "running_groups bbs [] = Some []"
| "running_groups bbs (g # gs) = do {
     (actual, _) \<leftarrow> Resolve bbs g;
     rest \<leftarrow> running_groups bbs gs;
     Some (if alrp_State actual = ActualLRPStateRunning bbs then g # rest else rest)
   }"

type_synonym fetched_actual = "go_error + actual_lrp_group list"
type_synonym fetched_desired = "go_error + scheduling_info list"

definition fetch_actual ::
  "bbs_models \<Rightarrow> 'w bbs_client \<Rightarrow> 'w \<Rightarrow> (fetched_actual \<times> 'w) option" where
  "fetch_actual bbs client w =
     (case ActualLRPGroups client w of
        (Inl err, w1) \<Rightarrow> Some (Inl err, w1)
      | (Inr actualLRPResponses, w1) \<Rightarrow>
          map_option (\<lambda>running. (Inr running, w1)) (running_groups bbs actualLRPResponses))"

definition fetch_desired :: "'w bbs_client \<Rightarrow> 'w \<Rightarrow> fetched_desired \<times> 'w" where
  "fetch_desired client w = DesiredLRPSchedulingInfos client w"

text \<open>The construction of the temporary table after \<open>wg.Wait()\<close>; the events are discarded.\<close>

primrec add_infos :: "bbs_models \<Rightarrow> scheduling_info list \<Rightarrow> routing_table \<Rightarrow> routing_table" where
  "add_infos bbs [] table = table"
| "add_infos bbs (i # is) table = add_infos bbs is (snd (AddRoutes bbs i table))"

primrec add_groups ::
  "bbs_models \<Rightarrow> actual_lrp_group list \<Rightarrow> routing_table \<Rightarrow> routing_table option" where
  "add_groups bbs [] table = Some table"
| "add_groups bbs (g # gs) table = do {
     (_, table1) \<leftarrow> AddEndpoint bbs g table;
     add_groups bbs gs table1
   }"

text \<open>The result: no table (\<open>tempRoutingTable == nil\<close>) if a fetch failed. The outer option is the panic.\<close>

definition build_table ::
  "bbs_models \<Rightarrow> fetched_actual \<Rightarrow> fetched_desired \<Rightarrow> routing_table option option" where
  "build_table bbs actual desired =
     (case (actual, desired) of
        (Inr runningActualLRPs, Inr desiredLRPSchedulingInfos) \<Rightarrow>
          map_option Some (add_groups bbs runningActualLRPs
            (add_infos bbs desiredLRPSchedulingInfos (NewTable None)))
      | _ \<Rightarrow> Some None)"

text \<open>
  \<open>applyCachedEvents\<close>. The handler works on the temporary table through the same pointer that is
  passed to \<open>Swap\<close>, so the swap sees the cached events applied to it.
\<close>

definition applyCachedEvents ::
  "bbs_models \<Rightarrow> routing_key range_order \<Rightarrow> routing_table option \<Rightarrow> 'w handler_step" where
  "applyCachedEvents bbs ord tempRoutingTable handler w =
     (case tempRoutingTable of
        None \<Rightarrow> handle_all bbs (h_cachedEvents handler) handler w
      | Some temp \<Rightarrow>
          if RouteCount temp = 0 then handle_all bbs (h_cachedEvents handler) handler w
          else do {
            let table = h_routingTable handler;
            let emitter = h_emitter handler;
            (handler1, w1) \<leftarrow> handle_all bbs (h_cachedEvents handler)
               (handler\<lparr>h_routingTable := temp, h_emitter := None\<rparr>) w;
            let (routingEvents, swapped) = Swap ord (IsRoutingTable (h_routingTable handler1)) table;
            let handler2 = handler1\<lparr>h_routingTable := swapped, h_emitter := emitter\<rparr>;
            Some (handler2, handler_emit routingEvents handler2 w1)
          })"

text \<open>The deferred function: the last critical section.\<close>

definition sync_end ::
  "bbs_models \<Rightarrow> routing_key range_order \<Rightarrow> routing_table option \<Rightarrow> 'w handler_step" where
  "sync_end bbs ord tempRoutingTable handler w = do {
     (handler1, w1) \<leftarrow> applyCachedEvents bbs ord tempRoutingTable handler w;
     Some (handler1\<lparr>h_syncing := False, h_cachedEvents := []\<rparr>, w1)
   }"

text \<open>The two fetches, with the goroutine that calls the BBS first as an argument.\<close>

definition sync_fetch ::
  "bbs_models \<Rightarrow> 'w bbs_client \<Rightarrow> bool \<Rightarrow> 'w \<Rightarrow> (fetched_actual \<times> fetched_desired \<times> 'w) option" where
  "sync_fetch bbs client actualFirst w =
     (if actualFirst then do {
        (actual, w1) \<leftarrow> fetch_actual bbs client w;
        let (desired, w2) = fetch_desired client w1;
        Some (actual, desired, w2)
      } else do {
        let (desired, w1) = fetch_desired client w;
        (actual, w2) \<leftarrow> fetch_actual bbs client w1;
        Some (actual, desired, w2)
      })"

text \<open>
  The whole of \<open>Sync\<close> when no other goroutine runs. The order of the final swap's loops may depend on
  the world.
\<close>

definition Sync ::
  "bbs_models \<Rightarrow> ('w \<Rightarrow> routing_key range_order) \<Rightarrow> 'w bbs_client \<Rightarrow> bool \<Rightarrow> 'w handler_step" where
  "Sync bbs ord client actualFirst handler w = do {
     let handler1 = sync_begin handler;
     (actual, desired, w1) \<leftarrow> sync_fetch bbs client actualFirst w;
     temp \<leftarrow> build_table bbs actual desired;
     sync_end bbs (ord w1) temp handler1 w1
   }"

end
