(* ===== verification/Handler_Laws.thy ===== *)
theory Handler_Laws
  imports Routing_Table_Handler
begin

text \<open>
  What the routing table handler does. An event is at most one call of the routing table; a sequence
  of events is a run of such calls; the table a sync builds has the routes the BBS describes; a sync
  interleaved with events ends like a sync that applies the cached events at its end.
\<close>

subsection \<open>Events as calls of the table\<close>

text \<open>The call an event asks for: \<open>None\<close> if the handler panics, \<open>Some None\<close> if there is no call.\<close>

definition if_running ::
  "bbs_models \<Rightarrow> actual_lrp_group option \<Rightarrow> (actual_lrp_group \<Rightarrow> table_call) \<Rightarrow> table_call option option" where
  "if_running bbs pointer call = do {
     g \<leftarrow> pointer;
     (a, _) \<leftarrow> Resolve bbs g;
     Some (if alrp_State a = ActualLRPStateRunning bbs then Some (call g) else None)
   }"

fun event_call :: "bbs_models \<Rightarrow> bbs_event \<Rightarrow> table_call option option" where
  "event_call bbs (DesiredLRPCreatedEvent d) =
     map_option (\<lambda>i. Some (CallAddRoutes i)) (DesiredLRPSchedulingInfo d)"
| "event_call bbs (DesiredLRPChangedEvent before after) = do {
     i \<leftarrow> DesiredLRPSchedulingInfo before;
     j \<leftarrow> DesiredLRPSchedulingInfo after;
     Some (Some (CallUpdateRoutes i j))
   }"
| "event_call bbs (DesiredLRPRemovedEvent d) =
     map_option (\<lambda>i. Some (CallRemoveRoutes i)) (DesiredLRPSchedulingInfo d)"
| "event_call bbs (ActualLRPCreatedEvent g) = if_running bbs g CallAddEndpoint"
| "event_call bbs (ActualLRPChangedEvent before after) = do {
     was \<leftarrow> if_running bbs before CallRemoveEndpoint;
     is_now \<leftarrow> if_running bbs after CallAddEndpoint;
     Some (if is_now = None then was else is_now)
   }"
| "event_call bbs (ActualLRPRemovedEvent g) = if_running bbs g CallRemoveEndpoint"
| "event_call bbs (UnrecognizedEvent t) = Some None"

definition on_table ::
  "bbs_models \<Rightarrow> bbs_event \<Rightarrow> routing_table \<Rightarrow> (routing_event list \<times> routing_table) option" where
  "on_table bbs e t =
     (case event_call bbs e of
        None \<Rightarrow> None
      | Some None \<Rightarrow> Some ([], t)
      | Some (Some c) \<Rightarrow> run_call bbs c t)"

lemma handler_emit_simps [simp]:
  "handler_emit [] h w = w"
  "handler_emit rs (h\<lparr>h_routingTable := t\<rparr>) w = handler_emit rs h w"
  "handler_emit rs (h\<lparr>h_syncing := b\<rparr>) w = handler_emit rs h w"
  "handler_emit rs (h\<lparr>h_cachedEvents := es\<rparr>) w = handler_emit rs h w"
  "h_emitter h = None \<Longrightarrow> handler_emit rs h w = w"
  by (auto simp: handler_emit_def split: option.splits)

lemma data_with_info:
  "DesiredLRPSchedulingInfo d = Some i \<Longrightarrow> \<exists>l. DesiredLRPData bbs d = Some l"
  using SchedulingInfo_None [of d] by (intro complete_data) auto

lemma AddEndpoint_None: "AddEndpoint bbs g t = None \<longleftrightarrow> Resolve bbs g = None"
  by (simp add: AddEndpoint_eq)

lemma RemoveEndpoint_None: "RemoveEndpoint bbs g t = None \<longleftrightarrow> Resolve bbs g = None"
  by (simp add: RemoveEndpoint_eq)

definition step_result ::
  "'w routing_table_handler \<Rightarrow> 'w \<Rightarrow> (routing_event list \<times> routing_table) option \<Rightarrow>
   ('w routing_table_handler \<times> 'w) option" where
  "step_result h w r = map_option (\<lambda>(rs, t). (h\<lparr>h_routingTable := t\<rparr>, handler_emit rs h w)) r"

lemma step_result_simps [simp]:
  "step_result h w None = None"
  "step_result h w (Some (rs, t)) = Some (h\<lparr>h_routingTable := t\<rparr>, handler_emit rs h w)"
  by (simp_all add: step_result_def)

lemma bind_None_const [simp]: "x \<bind> (\<lambda>_. None) = None"
  by (cases x) simp_all

lemma handleDesiredCreate_eq:
  "handleDesiredCreate bbs d h w = step_result h w (on_table bbs (DesiredLRPCreatedEvent d) (h_routingTable h))"
proof (cases "DesiredLRPSchedulingInfo d")
  case (Some i)
  with data_with_info obtain l where "DesiredLRPData bbs d = Some l" by blast
  with Some show ?thesis by (simp add: handleDesiredCreate_def on_table_def split: prod.splits)
qed (simp add: handleDesiredCreate_def on_table_def)

lemma handleDesiredDelete_eq:
  "handleDesiredDelete bbs d h w = step_result h w (on_table bbs (DesiredLRPRemovedEvent d) (h_routingTable h))"
proof (cases "DesiredLRPSchedulingInfo d")
  case (Some i)
  with data_with_info obtain l where "DesiredLRPData bbs d = Some l" by blast
  with Some show ?thesis by (simp add: handleDesiredDelete_def on_table_def split: prod.splits)
qed (simp add: handleDesiredDelete_def on_table_def)

lemma handleDesiredUpdate_eq:
  "handleDesiredUpdate bbs d d' h w =
     step_result h w (on_table bbs (DesiredLRPChangedEvent d d') (h_routingTable h))"
proof (cases "DesiredLRPSchedulingInfo d = None \<or> DesiredLRPSchedulingInfo d' = None")
  case True
  then show ?thesis
    by (cases "DesiredLRPSchedulingInfo d") (auto simp: handleDesiredUpdate_def on_table_def)
next
  case False
  then obtain i j where ij: "DesiredLRPSchedulingInfo d = Some i" "DesiredLRPSchedulingInfo d' = Some j" by auto
  with data_with_info obtain l m where "DesiredLRPData bbs d = Some l" "DesiredLRPData bbs d' = Some m" by blast
  with ij show ?thesis by (simp add: handleDesiredUpdate_def on_table_def split: prod.splits)
qed

lemma addAndEmit_eq: "addAndEmit bbs g h w = step_result h w (AddEndpoint bbs g (h_routingTable h))"
  by (cases "AddEndpoint bbs g (h_routingTable h)") (auto simp: addAndEmit_def)

lemma removeAndEmit_eq: "removeAndEmit bbs g h w = step_result h w (RemoveEndpoint bbs g (h_routingTable h))"
  by (cases "RemoveEndpoint bbs g (h_routingTable h)") (auto simp: removeAndEmit_def)

lemma step_result_unchanged [simp]: "step_result h w (Some ([], h_routingTable h)) = Some (h, w)"
  by simp

lemma handle_actual_eq:
  "handleActualCreate bbs g h w = step_result h w (on_table bbs (ActualLRPCreatedEvent g) (h_routingTable h))"
  "handleActualDelete bbs g h w = step_result h w (on_table bbs (ActualLRPRemovedEvent g) (h_routingTable h))"
  "handleActualUpdate bbs g g' h w =
     step_result h w (on_table bbs (ActualLRPChangedEvent g g') (h_routingTable h))"
  by (cases g; cases g'; cases "Resolve bbs (the g)"; cases "Resolve bbs (the g')";
      auto simp: handleActualCreate_def handleActualDelete_def handleActualUpdate_def on_table_def
        if_running_def addAndEmit_eq removeAndEmit_eq)+

lemma handleEvent_eq: "handleEvent bbs e h w = step_result h w (on_table bbs e (h_routingTable h))"
  by (cases e)
    (simp_all add: handleDesiredCreate_eq handleDesiredUpdate_eq handleDesiredDelete_eq handle_actual_eq,
     simp add: on_table_def)

text \<open>The table interface again, with events for calls: the handler inherits its laws.\<close>

lemma on_table_cases:
  assumes "on_table bbs e t = Some (rs, t')"
  obtains (idle) "rs = []" "t' = t" | (call) c where "run_call bbs c t = Some (rs, t')"
proof (cases "event_call bbs e")
  case None
  with assms show ?thesis by (simp add: on_table_def)
next
  case (Some c)
  with assms show ?thesis by (cases c) (simp add: on_table_def idle, simp add: on_table_def call)
qed

interpretation events_api: route_provider "on_table bbs" "\<lambda>n t. Swap ord (IsRoutingTable n) t"
    table_labels wf_table for bbs ord
proof unfold_locales
  fix t e rs t'
  assume on: "on_table bbs e t = Some (rs, t')"
  have "(wf_table t \<longrightarrow> wf_table t') \<and> apply_events rs (table_labels t) \<subseteq> table_labels t' \<and> consistent rs"
    using on
  proof (cases rule: on_table_cases)
    case idle
    then show ?thesis by (simp add: consistent_def)
  next
    case (call c)
    then show ?thesis
      using table_api.call_ok table_api.call_routes table_api.call_consistent by blast
  qed
  then show "wf_table t \<Longrightarrow> wf_table t'" "apply_events rs (table_labels t) \<subseteq> table_labels t'" "consistent rs"
    by blast+
qed (simp, rule table_api.swap_routes, rule table_api.swap_consistent)

lemma handle_all_silent:
  "h_emitter h = None \<Longrightarrow>
   handle_all bbs es h w =
     map_option (\<lambda>(rs, t). (h\<lparr>h_routingTable := t\<rparr>, w)) (run_all (on_table bbs) es (h_routingTable h))"
proof (induction es arbitrary: h)
  case (Cons e es)
  show ?case
  proof (cases "on_table bbs e (h_routingTable h)")
    case (Some r)
    obtain rs t where r: "r = (rs, t)" by fastforce
    have "handle_all bbs es (h\<lparr>h_routingTable := t\<rparr>) w =
        map_option (\<lambda>(rs, t'). (h\<lparr>h_routingTable := t'\<rparr>, w)) (run_all (on_table bbs) es t)"
      using Cons.IH [of "h\<lparr>h_routingTable := t\<rparr>"] Cons.prems by simp
    then show ?thesis
      using Some r Cons.prems by (simp add: handleEvent_eq split: option.splits)
  qed (simp add: handleEvent_eq)
qed simp

lemma handle_all_flags:
  "handle_all bbs es (h\<lparr>h_cachedEvents := cs, h_syncing := b\<rparr>) w =
     map_option (\<lambda>(h', w'). (h'\<lparr>h_cachedEvents := cs, h_syncing := b\<rparr>, w')) (handle_all bbs es h w)"
proof (induction es arbitrary: h w)
  case (Cons e es)
  show ?case
  proof (cases "on_table bbs e (h_routingTable h)")
    case (Some r)
    obtain rs t where r: "r = (rs, t)" by fastforce
    have "h\<lparr>h_cachedEvents := cs, h_syncing := b, h_routingTable := t\<rparr> =
        h\<lparr>h_routingTable := t, h_cachedEvents := cs, h_syncing := b\<rparr>" by simp
    then have "handle_all bbs es (h\<lparr>h_cachedEvents := cs, h_syncing := b, h_routingTable := t\<rparr>) w1 =
        map_option (\<lambda>(h', w'). (h'\<lparr>h_cachedEvents := cs, h_syncing := b\<rparr>, w'))
          (handle_all bbs es (h\<lparr>h_routingTable := t\<rparr>) w1)" for w1
      by (simp only: Cons.IH)
    then show ?thesis
      using Some r by (simp add: handleEvent_eq)
  qed (simp add: handleEvent_eq)
qed simp

text \<open>
  An emitter that delivers: what the registry holds after an emit is what the events, registrations
  first, make of what it held. \<open>held\<close> reads the registry off the world.
\<close>

definition delivers :: "('w \<Rightarrow> label set) \<Rightarrow> 'w emitter \<Rightarrow> bool" where
  "delivers held em \<longleftrightarrow> (\<forall>rs w. held (snd (em rs w)) = apply_batch rs (held w))"

lemma apply_batch_Nil [simp]: "apply_batch [] R = R"
  by (simp add: apply_batch_def)

lemma handler_emit_delivers:
  "delivers held em \<Longrightarrow> h_emitter h = Some em \<Longrightarrow> held (handler_emit rs h w) = apply_batch rs (held w)"
  by (cases rs) (simp_all add: handler_emit_def delivers_def)

lemma handle_all_delivered:
  assumes "delivers held em"
  shows "h_emitter h = Some em \<Longrightarrow> handle_all bbs es h w = Some (h', w') \<Longrightarrow>
    \<exists>rs. run_all (on_table bbs) es (h_routingTable h) = Some (rs, h_routingTable h') \<and>
      held w' = apply_events rs (held w) \<and> h' = h\<lparr>h_routingTable := h_routingTable h'\<rparr>"
proof (induction es arbitrary: h w)
  case (Cons e es)
  obtain rs t where on: "on_table bbs e (h_routingTable h) = Some (rs, t)"
    and rest: "handle_all bbs es (h\<lparr>h_routingTable := t\<rparr>) (handler_emit rs h w) = Some (h', w')"
    using Cons.prems(2) by (cases "on_table bbs e (h_routingTable h)") (auto simp: handleEvent_eq)
  obtain rs' where rs': "run_all (on_table bbs) es t = Some (rs', h_routingTable h')"
    "held w' = apply_events rs' (held (handler_emit rs h w))" "h' = h\<lparr>h_routingTable := h_routingTable h'\<rparr>"
    using Cons.IH [OF _ rest] Cons.prems(1) by auto
  have "held (handler_emit rs h w) = apply_events rs (held w)"
    using handler_emit_delivers [OF assms Cons.prems(1)] consistent_batch [OF events_api.call_consistent [OF on]]
    by simp
  with rs' on show ?case by (intro exI [of _ "rs @ rs'"]) simp
qed simp

text \<open>A sequence of calls of \<open>HandleEvent\<close>.\<close>

primrec HandleEvents :: "bbs_models \<Rightarrow> bbs_event list \<Rightarrow> 'w handler_step" where
  "HandleEvents bbs [] h w = Some (h, w)"
| "HandleEvents bbs (e # es) h w = do {
     (h1, w1) \<leftarrow> HandleEvent bbs e h w;
     HandleEvents bbs es h1 w1
   }"

lemma handleEvent_syncing: "handleEvent bbs e h w = Some (h', w') \<Longrightarrow> h_syncing h' = h_syncing h"
  by (cases "on_table bbs e (h_routingTable h)") (auto simp: handleEvent_eq)

lemma HandleEvents_idle: "\<not> h_syncing h \<Longrightarrow> HandleEvents bbs es h w = handle_all bbs es h w"
proof (induction es arbitrary: h w)
  case (Cons e es)
  then show ?case
    by (cases "handleEvent bbs e h w") (auto simp: HandleEvent_def dest: handleEvent_syncing)
qed simp

lemma HandleEvents_syncing:
  "h_syncing h \<Longrightarrow> HandleEvents bbs es h w = Some (h\<lparr>h_cachedEvents := h_cachedEvents h @ es\<rparr>, w)"
  by (induction es arbitrary: h) (simp_all add: HandleEvent_def)

subsection \<open>The end of a sync\<close>

lemma sync_begin_simps [simp]:
  "h_routingTable (sync_begin h) = h_routingTable h"
  "h_emitter (sync_begin h) = h_emitter h"
  "h_syncing (sync_begin h)"
  "h_cachedEvents (sync_begin h) = []"
  by (simp_all add: sync_begin_def)

lemma RouteCount_0 [simp]: "RouteCount t = 0 \<longleftrightarrow> t = NewTable None"
  by (cases t) (simp add: RouteCount_def NewTable_def)

lemma sync_end_replay:
  assumes "temp = None \<or> temp = Some (NewTable None)"
  shows "sync_end bbs ord temp (sync_begin h\<lparr>h_cachedEvents := es\<rparr>) w =
    handle_all bbs es (h\<lparr>h_cachedEvents := [], h_syncing := False\<rparr>) w"
proof -
  have begin_eq: "sync_begin h\<lparr>h_cachedEvents := es\<rparr> = h\<lparr>h_cachedEvents := es, h_syncing := True\<rparr>"
    by (simp add: sync_begin_def)
  have "applyCachedEvents bbs ord temp (sync_begin h\<lparr>h_cachedEvents := es\<rparr>) w =
      handle_all bbs es (h\<lparr>h_cachedEvents := es, h_syncing := True\<rparr>) w"
    using assms by (auto simp: applyCachedEvents_def begin_eq)
  then show ?thesis
    by (cases "handle_all bbs es h w") (auto simp: sync_end_def handle_all_flags)
qed

lemma sync_end_swap:
  assumes "t \<noteq> NewTable None"
  shows "sync_end bbs ord (Some t) (sync_begin h\<lparr>h_cachedEvents := es\<rparr>) w =
    map_option (\<lambda>(_, n).
      (h\<lparr>h_routingTable := n, h_cachedEvents := [], h_syncing := False\<rparr>,
       handler_emit (fst (Swap ord (IsRoutingTable n) (h_routingTable h))) h w))
     (run_all (on_table bbs) es t)"
proof -
  let ?h = "sync_begin h\<lparr>h_cachedEvents := es\<rparr>"
  have "handle_all bbs es (?h\<lparr>h_routingTable := t, h_emitter := None\<rparr>) w =
      map_option (\<lambda>(rs, n). (?h\<lparr>h_routingTable := t, h_emitter := None, h_routingTable := n\<rparr>, w))
        (run_all (on_table bbs) es t)"
    by (subst handle_all_silent) simp_all
  then show ?thesis
    using assms
    by (cases "run_all (on_table bbs) es t"; cases "h_emitter h")
      (auto simp: sync_end_def applyCachedEvents_def sync_begin_def handler_emit_def case_prod_beta Let_def)
qed

subsection \<open>Properties: events\<close>

text \<open>
  C27: Every BBS event is at most one call of the routing table: desired LRPs add, update or remove
  routes, actual LRPs add their endpoint where they run, and remove it where they ran and no longer
  do; everything else is ignored. The handler takes the table the call returns and emits the call's
  events with one \<open>Emit\<close> if there are any and it has an emitter, and changes nothing else.
\<close>

theorem event_dispatch:
  "handleEvent bbs e h w =
     (case event_call bbs e of
        None \<Rightarrow> None
      | Some None \<Rightarrow> Some (h, w)
      | Some (Some c) \<Rightarrow>
          (case run_call bbs c (h_routingTable h) of
             None \<Rightarrow> None
           | Some (rs, t) \<Rightarrow>
               Some (h\<lparr>h_routingTable := t\<rparr>,
                     case h_emitter h of
                       None \<Rightarrow> w | Some em \<Rightarrow> if rs = [] then w else snd (em rs w))))"
  by (auto simp: handleEvent_eq on_table_def handler_emit_def split: option.splits)

fun event_desired :: "bbs_event \<Rightarrow> desired_lrp option list" where
  "event_desired (DesiredLRPCreatedEvent d) = [d]"
| "event_desired (DesiredLRPChangedEvent before after) = [before, after]"
| "event_desired (DesiredLRPRemovedEvent d) = [d]"
| "event_desired _ = []"

fun event_groups :: "bbs_event \<Rightarrow> actual_lrp_group option list" where
  "event_groups (ActualLRPCreatedEvent g) = [g]"
| "event_groups (ActualLRPChangedEvent before after) = [before, after]"
| "event_groups (ActualLRPRemovedEvent g) = [g]"
| "event_groups _ = []"

text \<open>Data of an event the handler cannot do without is missing.\<close>

definition event_incomplete :: "bbs_models \<Rightarrow> bbs_event \<Rightarrow> bool" where
  "event_incomplete bbs e \<longleftrightarrow>
     list_ex (\<lambda>pointer. case pointer of
         None \<Rightarrow> True | Some d \<Rightarrow> dlrp_Routes d = None \<or> dlrp_ModificationTag d = None) (event_desired e) \<or>
     list_ex (\<lambda>pointer. case pointer of None \<Rightarrow> True | Some g \<Rightarrow> Resolve bbs g = None) (event_groups e)"

lemma if_running_cases:
  "if_running bbs p c = None \<longleftrightarrow> (case p of None \<Rightarrow> True | Some g \<Rightarrow> Resolve bbs g = None)"
  "if_running bbs p c = Some (Some c') \<Longrightarrow> \<exists>g. c' = c g \<and> Resolve bbs g \<noteq> None"
  by (auto simp: if_running_def bind_eq_None_conv bind_eq_Some_conv split: if_splits option.splits prod.splits)

lemma event_call_None: "event_call bbs e = None \<longleftrightarrow> event_incomplete bbs e"
  by (cases e)
    (auto simp: event_incomplete_def SchedulingInfo_None complete_lrp_def if_running_cases(1) bind_eq_None_conv
      split: option.splits)

lemma on_table_None: "on_table bbs e t = None \<longleftrightarrow> event_call bbs e = None"
proof -
  have "run_call bbs c t \<noteq> None" if "event_call bbs e = Some (Some c)" for c
    using that by (cases e)
      (auto simp: AddEndpoint_eq RemoveEndpoint_eq bind_eq_Some_conv dest!: if_running_cases(2) split: if_splits)
  then show ?thesis by (auto simp: on_table_def split: option.splits)
qed

text \<open>
  The handler panics on exactly these events: one with a desired LRP that is nil or
  whose routes or modification tag are, and one with an actual LRP group that is nil or does not
  resolve. The table and the emitter make no difference.
\<close>

lemma event_panics:
  "handleEvent bbs e h w = None \<longleftrightarrow> event_incomplete bbs e"
  by (simp add: handleEvent_eq step_result_def on_table_None event_call_None)

text \<open>
  No orphan routes, handler included: if the emitter delivers and the registry held no route the
  table does not have, then after any sequence of \<open>HandleEvent\<close> calls outside a sync it still holds none.
\<close>

lemma handler_no_orphans:
  assumes "delivers held em" and "h_emitter h = Some em" and "\<not> h_syncing h"
    and "held w \<subseteq> table_labels (h_routingTable h)"
    and "HandleEvents bbs es h w = Some (h', w')"
  shows "held w' \<subseteq> table_labels (h_routingTable h')"
proof -
  have "handle_all bbs es h w = Some (h', w')"
    using assms(3,5) by (simp add: HandleEvents_idle)
  then obtain rs where "run_all (on_table bbs) es (h_routingTable h) = Some (rs, h_routingTable h')"
    and w': "held w' = apply_events rs (held w)"
    using handle_all_delivered [OF assms(1,2)] by blast
  then show ?thesis
    unfolding w' using assms(4) by (intro events_api.calls_routes)
qed

subsection \<open>Properties: the end of a sync\<close>

text \<open>
  C6: A sync that failed has the effect of the events it cached, handled one after the other by
  \<open>HandleEvent\<close> in the order they arrived, and no other effect. A sync that succeeded but found no
  route takes the same path: the table is not swapped, and the routes of applications that are gone
  stay in the table and in the registry.
\<close>

theorem sync_failed_replays:
  "sync_end bbs ord None (sync_begin h\<lparr>h_cachedEvents := es\<rparr>) w =
     HandleEvents bbs es (h\<lparr>h_cachedEvents := [], h_syncing := False\<rparr>) w \<and>
   sync_end bbs ord (Some (NewTable None)) (sync_begin h\<lparr>h_cachedEvents := es\<rparr>) w =
     HandleEvents bbs es (h\<lparr>h_cachedEvents := [], h_syncing := False\<rparr>) w"
  by (simp add: sync_end_replay HandleEvents_idle)


text \<open>
  A successful sync repairs the registry: whatever it held before, afterwards it holds every
  route of the table, if the emitter delivers.
\<close>

lemma sync_repairs_registry:
  assumes "delivers held em" and "h_emitter h = Some em" and "RouteCount snapshot \<noteq> 0"
    and "sync_end bbs ord (Some snapshot) (sync_begin h\<lparr>h_cachedEvents := es\<rparr>) w = Some (h', w')"
  shows "table_labels (h_routingTable h') \<subseteq> held w'"
proof -
  from assms(3,4) obtain n where h': "h_routingTable h' = n"
    and w': "w' = handler_emit (fst (Swap ord (IsRoutingTable n) (h_routingTable h))) h w"
    by (auto simp: sync_end_swap)
  show ?thesis
    unfolding h' w' handler_emit_delivers [OF assms(1,2)]
    using events_api.swap_covers [where n = n and ord = ord and t = "h_routingTable h" and R = "held w"]
    by simp
qed

end
