(* ===== verification/Handler_Sync.thy ===== *)
theory Handler_Sync
  imports Handler_Laws
begin

text \<open>
  The whole of \<open>Sync\<close>: the table it builds from the BBS, and its interleavings with \<open>HandleEvent\<close> as a
  labelled step relation.
\<close>

subsection \<open>The table a sync builds\<close>

text \<open>The running groups of a response, and what each contributes.\<close>

definition is_running :: "bbs_models \<Rightarrow> actual_lrp_group \<Rightarrow> bool" where
  "is_running bbs g =
     (case Resolve bbs g of None \<Rightarrow> False | Some (a, _) \<Rightarrow> alrp_State a = ActualLRPStateRunning bbs)"

lemma running_groups_eq:
  "running_groups bbs gs =
     (if list_all (\<lambda>g. Resolve bbs g \<noteq> None) gs then Some (filter (is_running bbs) gs) else None)"
  by (induction gs) (auto simp: is_running_def [abs_def] split: Option.bind_splits)

lemma fetch_actual_None:
  "fetch_actual bbs client w = None \<longleftrightarrow>
     (case fst (ActualLRPGroups client w) of
        Inl _ \<Rightarrow> False | Inr groups \<Rightarrow> list_ex (\<lambda>g. Resolve bbs g = None) groups)"
proof -
  have not_all: "\<not> list_all (\<lambda>g. Resolve bbs g \<noteq> None) gs \<longleftrightarrow> list_ex (\<lambda>g. Resolve bbs g = None) gs" for gs
    by (induction gs) (simp_all del: not_None_eq)
  obtain r w1 where "ActualLRPGroups client w = (r, w1)" by fastforce
  then show ?thesis
    by (cases r) (simp_all add: fetch_actual_def running_groups_eq not_all [symmetric] del: not_None_eq)
qed

lemma AddEndpoint_entry_at:
  assumes "Resolve bbs g = Some (a, ev)"
  shows "AddEndpoint bbs g t = Some (rs, t') \<Longrightarrow>
    entry_at t' key = (case put_lrp bbs a ev key (entry_at t key) of None \<Rightarrow> entry_at t key | Some e \<Rightarrow> e)"
proof -
  assume "AddEndpoint bbs g t = Some (rs, t')"
  then have "t' = snd (loop_events (at_port (lrp_map a ev) (addEndpoint bbs)) (lrp_keys a) t)"
    by (simp add: AddEndpoint_eq assms prod_eq_iff)
  then show ?thesis
    by (auto simp: entry_at_of AddEndpoint_lookup entry_of_def split: option.splits)
qed

text \<open>The instances a group has under a key.\<close>

definition group_instance :: "bbs_models \<Rightarrow> actual_lrp_group \<Rightarrow> routing_key \<Rightarrow> endpoint_key \<Rightarrow> bool" where
  "group_instance bbs g key k =
     (case Resolve bbs g of
        None \<Rightarrow> False
      | Some (a, ev) \<Rightarrow>
          rk_ProcessGUID key = alrp_ProcessGuid a \<and> k = EndpointKey (alrp_InstanceGuid a) ev \<and>
          list_ex (\<lambda>pm. pm_ContainerPort pm = rk_ContainerPort key) (alrp_Ports a))"

lemma port_endpoint_iff:
  "port_endpoint a ev key = None \<longleftrightarrow>
     \<not> (rk_ProcessGUID key = alrp_ProcessGuid a \<and>
        list_ex (\<lambda>pm. pm_ContainerPort pm = rk_ContainerPort key) (alrp_Ports a))"
  by (auto simp: port_endpoint_def find_None_iff list_ex_iff)

lemma AddEndpoint_adds:
  assumes "AddEndpoint bbs g t = Some (rs, t')"
  shows "re_ExternalEndpoints (entry_at t' key) = re_ExternalEndpoints (entry_at t key)"
    and "k |\<in>| fmdom (re_Endpoints (entry_at t' key)) \<longleftrightarrow>
      k |\<in>| fmdom (re_Endpoints (entry_at t key)) \<or> group_instance bbs g key k"
proof -
  obtain a ev where r: "Resolve bbs g = Some (a, ev)"
    using assms by (cases "Resolve bbs g") (auto simp: AddEndpoint_eq)
  note e = AddEndpoint_entry_at [OF r assms, of key]
  show "re_ExternalEndpoints (entry_at t' key) = re_ExternalEndpoints (entry_at t key)"
    unfolding e by (auto simp: put_lrp_def split: option.splits if_splits)
  show "k |\<in>| fmdom (re_Endpoints (entry_at t' key)) \<longleftrightarrow>
      k |\<in>| fmdom (re_Endpoints (entry_at t key)) \<or> group_instance bbs g key k"
  proof (cases "port_endpoint a ev key")
    case None
    then have "\<not> group_instance bbs g key k"
      by (auto simp: group_instance_def r port_endpoint_iff)
    with None show ?thesis unfolding e by (simp add: put_lrp_def)
  next
    case (Some ep)
    then have g: "group_instance bbs g key k \<longleftrightarrow> k = endpoint_Key ep"
      using port_endpoint_key [OF Some] port_endpoint_iff [of a ev key] by (simp add: group_instance_def r)
    then show ?thesis
      unfolding e g using Some
      by (auto simp: put_lrp_def accepts_def fmlookup_dom_iff split: option.splits)
  qed
qed

lemma add_groups_adds:
  "add_groups bbs gs t = Some t' \<Longrightarrow>
   re_ExternalEndpoints (entry_at t' key) = re_ExternalEndpoints (entry_at t key) \<and>
   (k |\<in>| fmdom (re_Endpoints (entry_at t' key)) \<longleftrightarrow>
      k |\<in>| fmdom (re_Endpoints (entry_at t key)) \<or> list_ex (\<lambda>g. group_instance bbs g key k) gs)"
proof (induction gs arbitrary: t)
  case (Cons g gs)
  then obtain rs t1 where "AddEndpoint bbs g t = Some (rs, t1)" "add_groups bbs gs t1 = Some t'"
    by (auto simp: bind_eq_Some_conv)
  with Cons.IH show ?case using AddEndpoint_adds by auto
qed simp

lemma add_groups_None: "add_groups bbs gs t = None \<longleftrightarrow> list_ex (\<lambda>g. Resolve bbs g = None) gs"
proof (induction gs arbitrary: t)
  case (Cons g gs)
  then show ?case
    using AddEndpoint_None [of bbs g t] by (cases "AddEndpoint bbs g t") auto
qed simp

text \<open>
  What the code relies on of \<open>SucceededBy\<close>: an entry without a tag (the zero value) accepts any tag.
\<close>

definition nil_tag_accepts :: "bbs_models \<Rightarrow> bool" where
  "nil_tag_accepts bbs \<longleftrightarrow> (\<forall>tag. SucceededBy bbs None (Some tag))"

lemma desired_keys_guid: "key \<in> set (desired_keys bbs i) \<Longrightarrow> rk_ProcessGUID key = si_ProcessGuid i"
  by (auto simp: desired_keys_def NewRoutingKeysFromDesired_def)

lemma AddRoutes_fresh:
  assumes "nil_tag_accepts bbs" and "entry_at t key = zero_entry"
  shows "re_Endpoints (entry_at (snd (AddRoutes bbs i t)) key) = fmempty \<and>
    ports (re_ExternalEndpoints (entry_at (snd (AddRoutes bbs i t)) key)) =
      (if key \<in> set (desired_keys bbs i) then desired_ports bbs i key else {})"
  using assms
  by (auto simp: AddRoutes_def addRoutes_entry_at Let_def takes_routes_def desired_ports_eq nil_tag_accepts_def)

lemma AddRoutes_other:
  "key \<notin> set (desired_keys bbs i) \<Longrightarrow> entry_at (snd (AddRoutes bbs i t)) key = entry_at t key"
  by (simp add: AddRoutes_def addRoutes_other_keys)

lemma add_infos_other:
  "\<not> list_ex (\<lambda>i. key \<in> set (desired_keys bbs i)) is \<Longrightarrow> entry_at (add_infos bbs is t) key = entry_at t key"
  by (induction "is" arbitrary: t) (simp_all add: AddRoutes_other)

lemma add_infos_fresh:
  assumes "nil_tag_accepts bbs"
  shows "distinct (map si_ProcessGuid is) \<Longrightarrow> entry_at t key = zero_entry \<Longrightarrow>
    re_Endpoints (entry_at (add_infos bbs is t) key) = fmempty \<and>
    (p \<in> ports (re_ExternalEndpoints (entry_at (add_infos bbs is t) key)) \<longleftrightarrow>
       list_ex (\<lambda>i. key \<in> set (desired_keys bbs i) \<and> p \<in> desired_ports bbs i key) is)"
proof (induction "is" arbitrary: t)
  case (Cons i "is")
  show ?case
  proof (cases "key \<in> set (desired_keys bbs i)")
    case True
    have none: "\<not> list_ex (\<lambda>j. key \<in> set (desired_keys bbs j)) is"
      using Cons.prems(1) desired_keys_guid [OF True] desired_keys_guid [of key bbs]
      by (fastforce simp: list_ex_iff)
    then have "\<not> list_ex (\<lambda>j. key \<in> set (desired_keys bbs j) \<and> p \<in> desired_ports bbs j key) is"
      by (auto simp: list_ex_iff)
    with AddRoutes_fresh [OF assms Cons.prems(2), of i] none True show ?thesis
      by (simp add: add_infos_other)
  next
    case False
    with Cons show ?thesis by (simp add: AddRoutes_other)
  qed
qed simp

subsection \<open>Properties: the snapshot\<close>

text \<open>
  C8: The table a sync builds has exactly the routes the BBS describes: a route for every key and
  external port of a desired LRP and every instance of a running LRP of that process that maps the
  container port, and no other. The BBS lists a process once; an entry without a tag accepts any.
\<close>

theorem snapshot_routes:
  assumes "nil_tag_accepts bbs" and "distinct (map si_ProcessGuid infos)"
    and "running_groups bbs groups = Some running"
    and "build_table bbs (Inr running) (Inr infos) = Some (Some t)"
  shows "table_labels t =
    {(key, p, k).
       (\<exists>i. i \<in> set infos \<and> key \<in> set (desired_keys bbs i) \<and> p \<in> desired_ports bbs i key) \<and>
       (\<exists>g a ev pm. g \<in> set groups \<and> Resolve bbs g = Some (a, ev) \<and>
          alrp_State a = ActualLRPStateRunning bbs \<and> alrp_ProcessGuid a = rk_ProcessGUID key \<and>
          pm \<in> set (alrp_Ports a) \<and> pm_ContainerPort pm = rk_ContainerPort key \<and>
          k = EndpointKey (alrp_InstanceGuid a) ev)}"
proof -
  let ?t0 = "add_infos bbs infos (NewTable None)"
  have add: "add_groups bbs running ?t0 = Some t"
    using assms(4) by (auto simp: build_table_def)
  have run: "running = filter (is_running bbs) groups"
    using assms(3) by (simp add: running_groups_eq split: if_splits)
  have inst: "list_ex (\<lambda>g. group_instance bbs g key k) running \<longleftrightarrow>
      (\<exists>g a ev pm. g \<in> set groups \<and> Resolve bbs g = Some (a, ev) \<and>
          alrp_State a = ActualLRPStateRunning bbs \<and> alrp_ProcessGuid a = rk_ProcessGUID key \<and>
          pm \<in> set (alrp_Ports a) \<and> pm_ContainerPort pm = rk_ContainerPort key \<and>
          k = EndpointKey (alrp_InstanceGuid a) ev)" for key k
    unfolding run list_ex_iff group_instance_def is_running_def
    by (fastforce split: option.splits)
  have "(key, p, k) \<in> table_labels t \<longleftrightarrow>
      list_ex (\<lambda>i. key \<in> set (desired_keys bbs i) \<and> p \<in> desired_ports bbs i key) infos \<and>
      list_ex (\<lambda>g. group_instance bbs g key k) running" for key p k
    using add_infos_fresh [OF assms(1,2), of "NewTable None" key p]
      add_groups_adds [OF add, of key k]
    by (simp add: in_table_labels)
  then show ?thesis
    unfolding inst by (intro set_eqI) (simp add: split_paired_all list_ex_iff Bex_def)
qed

subsection \<open>Sync with events in between\<close>

text \<open>
  What a sync does if the events \<open>es\<close> arrive while it fetches: \<open>Sync\<close> with these events in the cache
  when its last critical section begins.
\<close>

definition Sync_caching ::
  "bbs_models \<Rightarrow> ('w \<Rightarrow> routing_key range_order) \<Rightarrow> 'w bbs_client \<Rightarrow> bool \<Rightarrow> bbs_event list \<Rightarrow>
   'w handler_step" where
  "Sync_caching bbs ord client actualFirst es h w = do {
     (actual, desired, w1) \<leftarrow> sync_fetch bbs client actualFirst w;
     temp \<leftarrow> build_table bbs actual desired;
     sync_end bbs (ord w1) temp (sync_begin h\<lparr>h_cachedEvents := es\<rparr>) w1
   }"

lemma Sync_is_caching_none: "Sync bbs ord client af h w = Sync_caching bbs ord client af [] h w"
proof -
  have no_events: "sync_begin h\<lparr>h_cachedEvents := []\<rparr> = sync_begin h" by (simp add: sync_begin_def)
  show ?thesis by (simp only: Sync_def Sync_caching_def Let_def no_events)
qed

text \<open>
  The interleavings: between \<open>Begin\<close> and \<open>End\<close> the two fetches happen in any order, and \<open>HandleEvent\<close>
  may be called at any time.
\<close>

datatype sync_phase = Idle | Fetching "fetched_actual option" "fetched_desired option"

datatype sync_label = Event bbs_event | Begin | GetActual | GetDesired | End

type_synonym 'w sync_state = "'w routing_table_handler \<times> sync_phase \<times> 'w"

inductive sync_step ::
  "bbs_models \<Rightarrow> ('w \<Rightarrow> routing_key range_order) \<Rightarrow> 'w bbs_client \<Rightarrow>
   'w sync_state \<Rightarrow> sync_label \<Rightarrow> 'w sync_state \<Rightarrow> bool"
  for bbs ord client where
  event: "HandleEvent bbs e h w = Some (h', w') \<Longrightarrow>
    sync_step bbs ord client (h, ph, w) (Event e) (h', ph, w')"
| begins: "sync_step bbs ord client (h, Idle, w) Begin (sync_begin h, Fetching None None, w)"
| actual: "fetch_actual bbs client w = Some (a, w') \<Longrightarrow>
    sync_step bbs ord client (h, Fetching None d, w) GetActual (h, Fetching (Some a) d, w')"
| desired: "fetch_desired client w = (d, w') \<Longrightarrow>
    sync_step bbs ord client (h, Fetching a None, w) GetDesired (h, Fetching a (Some d), w')"
| ends: "build_table bbs a d = Some temp \<Longrightarrow> sync_end bbs (ord w) temp h w = Some (h', w') \<Longrightarrow>
    sync_step bbs ord client (h, Fetching (Some a) (Some d), w) End (h', Idle, w')"

inductive_simps step_event: "sync_step bbs ord client s (Event e) s'"
inductive_simps step_begin: "sync_step bbs ord client s Begin s'"
inductive_simps step_actual: "sync_step bbs ord client s GetActual s'"
inductive_simps step_desired: "sync_step bbs ord client s GetDesired s'"
inductive_simps step_end: "sync_step bbs ord client s End s'"

lemmas step_simps = step_event step_begin step_actual step_desired step_end

inductive sync_run ::
  "bbs_models \<Rightarrow> ('w \<Rightarrow> routing_key range_order) \<Rightarrow> 'w bbs_client \<Rightarrow>
   'w sync_state \<Rightarrow> sync_label list \<Rightarrow> 'w sync_state \<Rightarrow> bool"
  for bbs ord client where
  stop: "sync_run bbs ord client s [] s"
| go: "sync_step bbs ord client s l s1 \<Longrightarrow> sync_run bbs ord client s1 ls s' \<Longrightarrow>
    sync_run bbs ord client s (l # ls) s'"

inductive_simps run_simps [simp]:
  "sync_run bbs ord client s [] s'"
  "sync_run bbs ord client s (l # ls) s'"

lemma run_append:
  "sync_run bbs ord client s (ls @ ls') s' \<longleftrightarrow>
     (\<exists>s1. sync_run bbs ord client s ls s1 \<and> sync_run bbs ord client s1 ls' s')"
proof (induction ls arbitrary: s)
  case (Cons l ls)
  show ?case unfolding append_Cons run_simps Cons.IH by blast
qed (simp del: split_paired_Ex)

fun events :: "sync_label list \<Rightarrow> bbs_event list" where
  "events [] = []"
| "events (Event e # ls) = e # events ls"
| "events (_ # ls) = events ls"

lemma events_append [simp]: "events (ls @ ls') = events ls @ events ls'"
  by (induction ls rule: events.induct) simp_all

lemma events_map [simp]: "events (map Event es) = es"
  by (induction es) simp_all

text \<open>While a sync fetches, the handler only caches events, and only the fetches touch the world.\<close>

fun fetches ::
  "bbs_models \<Rightarrow> 'w bbs_client \<Rightarrow> sync_label list \<Rightarrow> fetched_actual option \<Rightarrow> fetched_desired option \<Rightarrow> 'w \<Rightarrow>
   (fetched_actual option \<times> fetched_desired option \<times> 'w) option" where
  "fetches bbs client [] a d w = Some (a, d, w)"
| "fetches bbs client (Event e # ls) a d w = fetches bbs client ls a d w"
| "fetches bbs client (GetActual # ls) None d w =
     (case fetch_actual bbs client w of None \<Rightarrow> None | Some (a, w1) \<Rightarrow> fetches bbs client ls (Some a) d w1)"
| "fetches bbs client (GetDesired # ls) a None w =
     (case fetch_desired client w of (d, w1) \<Rightarrow> fetches bbs client ls a (Some d) w1)"
| "fetches bbs client _ _ _ _ = None"

lemma fetching_run:
  "h_syncing h \<Longrightarrow> End \<notin> set ls \<Longrightarrow>
   sync_run bbs ord client (h, Fetching a d, w) ls s \<longleftrightarrow>
     (\<exists>a' d' w'. fetches bbs client ls a d w = Some (a', d', w') \<and>
        s = (h\<lparr>h_cachedEvents := h_cachedEvents h @ events ls\<rparr>, Fetching a' d', w'))"
proof (induction ls arbitrary: h a d w)
  case (Cons l ls)
  show ?case
  proof (cases l)
    case (Event e)
    then show ?thesis using Cons by (simp add: step_event HandleEvent_def)
  next
    case Begin
    then show ?thesis using Cons by (simp add: step_begin)
  next
    case GetActual
    then show ?thesis using Cons by (cases a) (auto simp: step_actual split: option.splits)
  next
    case GetDesired
    then show ?thesis using Cons by (cases d) (auto simp: step_desired split: prod.splits)
  qed (use Cons.prems in simp)
qed auto

lemma fetches_done:
  "fetches bbs client ls (Some a) (Some d) w = Some (a', d', w') \<Longrightarrow> a' = Some a \<and> d' = Some d \<and> w' = w"
  by (induction bbs client ls "Some a" "Some d" w rule: fetches.induct) auto

lemma fetches_desired:
  "fetches bbs client ls (Some a) None w = Some (Some a', Some d', w') \<Longrightarrow>
   a' = a \<and> fetch_desired client w = (d', w')"
  by (induction bbs client ls "Some a" "None :: fetched_desired option" w rule: fetches.induct)
    (auto dest: fetches_done split: prod.splits)

lemma fetches_actual:
  "fetches bbs client ls None (Some d) w = Some (Some a', Some d', w') \<Longrightarrow>
   d' = d \<and> fetch_actual bbs client w = Some (a', w')"
  by (induction bbs client ls "None :: fetched_actual option" "Some d" w rule: fetches.induct)
    (auto dest: fetches_done split: option.splits)

lemma fetches_both:
  "fetches bbs client ls None None w = Some (Some a, Some d, w') \<Longrightarrow>
   \<exists>af. sync_fetch bbs client af w = Some (a, d, w')"
proof (induction bbs client ls "None :: fetched_actual option" "None :: fetched_desired option" w rule: fetches.induct)
  case (3 bbs client ls w)
  then obtain a1 w1 where "fetch_actual bbs client w = Some (a1, w1)"
    "fetches bbs client ls (Some a1) None w1 = Some (Some a, Some d, w')"
    by (auto split: option.splits)
  then have "sync_fetch bbs client True w = Some (a, d, w')"
    using fetches_desired [of bbs client ls a1 w1 a d w'] by (simp add: sync_fetch_def)
  then show ?case by blast
next
  case (4 bbs client ls w)
  then obtain d1 w1 where "fetch_desired client w = (d1, w1)"
    "fetches bbs client ls None (Some d1) w1 = Some (Some a, Some d, w')"
    by (auto split: prod.splits)
  then have "sync_fetch bbs client False w = Some (a, d, w')"
    using fetches_actual [of bbs client ls d1 w1 a d w'] by (simp add: sync_fetch_def)
  then show ?case by blast
qed auto

lemma sync_fetch_run:
  assumes "sync_fetch bbs client af w = Some (a, d, w')"
  shows "\<exists>ls. events ls = [] \<and> End \<notin> set ls \<and> fetches bbs client ls None None w = Some (Some a, Some d, w')"
proof -
  have "fetches bbs client (if af then [GetActual, GetDesired] else [GetDesired, GetActual]) None None w =
      Some (Some a, Some d, w')"
    using assms by (auto simp: sync_fetch_def bind_eq_Some_conv split: if_splits prod.splits)
  then show ?thesis
    by (intro exI [of _ "if af then [GetActual, GetDesired] else [GetDesired, GetActual]"]) simp
qed

lemma fetches_after_events: "fetches bbs client (map Event es @ ls) a d w = fetches bbs client ls a d w"
  by (induction es) simp_all

lemma Sync_caching_Some:
  "Sync_caching bbs ord client af es h w = Some (h', w') \<longleftrightarrow>
     (\<exists>a d w1 temp. sync_fetch bbs client af w = Some (a, d, w1) \<and> build_table bbs a d = Some temp \<and>
        sync_end bbs (ord w1) temp (sync_begin h\<lparr>h_cachedEvents := es\<rparr>) w1 = Some (h', w'))"
  by (auto simp: Sync_caching_def bind_eq_Some_conv)

lemma sync_run_interval:
  assumes "End \<notin> set ls"
  shows "sync_run bbs ord client (h, Idle, w) (Begin # ls @ [End]) (h', Idle, w') \<longleftrightarrow>
     (\<exists>a d w1 temp. fetches bbs client ls None None w = Some (Some a, Some d, w1) \<and>
        build_table bbs a d = Some temp \<and>
        sync_end bbs (ord w1) temp (sync_begin h\<lparr>h_cachedEvents := events ls\<rparr>) w1 = Some (h', w'))"
proof -
  have "sync_run bbs ord client (h, Idle, w) (Begin # ls @ [End]) (h', Idle, w') \<longleftrightarrow>
      sync_run bbs ord client (sync_begin h, Fetching None None, w) (ls @ [End]) (h', Idle, w')"
    by (simp add: step_begin)
  also have "\<dots> \<longleftrightarrow> (\<exists>a d w1. fetches bbs client ls None None w = Some (a, d, w1) \<and>
      sync_step bbs ord client (sync_begin h\<lparr>h_cachedEvents := events ls\<rparr>, Fetching a d, w1) End (h', Idle, w'))"
    unfolding run_append fetching_run [OF sync_begin_simps(3) assms] by (auto simp del: split_paired_Ex)
  finally show ?thesis unfolding step_end by auto
qed

subsection \<open>Properties: Sync\<close>

text \<open>
  C5: \<open>Sync\<close> is atomic up to its cache. Every run of a sync in which \<open>HandleEvent\<close> is called with the
  events \<open>es\<close> at any times between its first and its last critical section, and the two fetches
  happen in either order, ends in the state of a sync that fetches undisturbed and then applies \<open>es\<close>,
  in the order of arrival, in its last critical section; and every such end has a run. Without
  events it is \<open>Sync\<close> itself.
\<close>

theorem sync_atomic:
  "((\<exists>ls. events ls = es \<and> End \<notin> set ls \<and>
       sync_run bbs ord client (h, Idle, w) (Begin # ls @ [End]) (h', Idle, w')) \<longleftrightarrow>
    (\<exists>actualFirst. Sync_caching bbs ord client actualFirst es h w = Some (h', w'))) \<and>
   Sync bbs ord client actualFirst h w = Sync_caching bbs ord client actualFirst [] h w"
proof -
  have to: "\<exists>af. Sync_caching bbs ord client af es h w = Some (h', w')"
    if ls: "events ls = es" "End \<notin> set ls"
      "sync_run bbs ord client (h, Idle, w) (Begin # ls @ [End]) (h', Idle, w')" for ls
    using ls(3) unfolding sync_run_interval [OF ls(2)] ls(1) Sync_caching_Some
    using fetches_both [of bbs client ls w] by blast
  have from_caching: "\<exists>ls. events ls = es \<and> End \<notin> set ls \<and>
       sync_run bbs ord client (h, Idle, w) (Begin # ls @ [End]) (h', Idle, w')"
    if af: "Sync_caching bbs ord client af es h w = Some (h', w')" for af
  proof -
    from af obtain a d w1 temp where f: "sync_fetch bbs client af w = Some (a, d, w1)"
      and b: "build_table bbs a d = Some temp"
      and e: "sync_end bbs (ord w1) temp (sync_begin h\<lparr>h_cachedEvents := es\<rparr>) w1 = Some (h', w')"
      unfolding Sync_caching_Some by blast
    obtain ls where ls: "events ls = []" "End \<notin> set ls"
      "fetches bbs client ls None None w = Some (Some a, Some d, w1)"
      using sync_fetch_run [OF f] by blast
    let ?ls = "map Event es @ ls"
    have no_end: "End \<notin> set ?ls" and ev: "events ?ls = es" using ls by auto
    have "fetches bbs client ?ls None None w = Some (Some a, Some d, w1)"
      using ls(3) by (simp add: fetches_after_events)
    then have "sync_run bbs ord client (h, Idle, w) (Begin # ?ls @ [End]) (h', Idle, w')"
      unfolding sync_run_interval [OF no_end] ev using b e by blast
    with no_end ev show ?thesis by blast
  qed
  show ?thesis
    by (intro conjI iffI Sync_is_caching_none; elim exE conjE) (rule to, assumption+, rule from_caching)
qed

text \<open>
  Undisturbed, \<open>Sync\<close> panics only if the BBS answers with a group that does not resolve; building
  and swapping the table never does.
\<close>

lemma Sync_panics_only_in_Resolve:
  "Sync bbs ord client actualFirst h w = None \<longleftrightarrow>
     (case fst (ActualLRPGroups client (if actualFirst then w else snd (fetch_desired client w))) of
        Inl _ \<Rightarrow> False | Inr groups \<Rightarrow> list_ex (\<lambda>g. Resolve bbs g = None) groups)"
proof -
  have build: "build_table bbs a d \<noteq> None" if fetched: "sync_fetch bbs client actualFirst w = Some (a, d, w1)" for a d w1
  proof -
    obtain v v' where v: "fetch_actual bbs client v = Some (a, v')"
      using fetched by (auto simp: sync_fetch_def bind_eq_Some_conv split: if_splits prod.splits)
    have "list_all (\<lambda>g. Resolve bbs g \<noteq> None) gs" if "a = Inr gs" for gs
      using v that unfolding fetch_actual_def running_groups_eq
      by (auto simp: list_all_iff split: prod.splits sum.splits if_splits)
    then have "add_groups bbs gs t \<noteq> None" if "a = Inr gs" for gs t
      using that by (simp add: add_groups_None list_all_iff list_ex_iff)
    then show ?thesis
      by (cases a; cases d) (simp_all add: build_table_def)
  qed
  have fin: "sync_end bbs o' temp (sync_begin h) w1 \<noteq> None" for o' temp w1
  proof -
    have none: "sync_begin h = sync_begin h\<lparr>h_cachedEvents := []\<rparr>" by (simp add: sync_begin_def)
    show ?thesis
    proof (cases "temp = None \<or> temp = Some (NewTable None)")
      case True
      then show ?thesis by (subst none, subst sync_end_replay) simp_all
    next
      case False
      then obtain t where "temp = Some t" "t \<noteq> NewTable None" by auto
      then have "sync_end bbs o' temp (sync_begin h\<lparr>h_cachedEvents := []\<rparr>) w1 \<noteq> None"
        by (subst \<open>temp = Some t\<close>, subst sync_end_swap) simp_all
      then show ?thesis by (subst none)
    qed
  qed
  have "Sync bbs ord client actualFirst h w = None \<longleftrightarrow> sync_fetch bbs client actualFirst w = None"
    using build fin
    by (cases "sync_fetch bbs client actualFirst w") (auto simp: Sync_def bind_eq_None_conv)
  also have "\<dots> \<longleftrightarrow> fetch_actual bbs client (if actualFirst then w else snd (fetch_desired client w)) = None"
    by (cases actualFirst) (auto simp: sync_fetch_def bind_eq_None_conv Let_def case_prod_beta)
  also have "\<dots> \<longleftrightarrow> (case fst (ActualLRPGroups client (if actualFirst then w else snd (fetch_desired client w))) of
        Inl _ \<Rightarrow> False | Inr groups \<Rightarrow> list_ex (\<lambda>g. Resolve bbs g = None) groups)"
    by (rule fetch_actual_None)
  finally show ?thesis .
qed

subsection \<open>Properties: reachable states\<close>

lemma on_table_reachable: "on_table bbs e t = Some (rs, t') \<Longrightarrow> reachable_table bbs t \<Longrightarrow> reachable_table bbs t'"
  by (elim on_table_cases) (simp, rule reachable_table.call)

lemma run_all_reachable:
  "run_all (on_table bbs) es t = Some (rs, t') \<Longrightarrow> reachable_table bbs t \<Longrightarrow> reachable_table bbs t'"
proof (induction es arbitrary: t rs)
  case (Cons e es)
  then show ?case unfolding run_all_Cons_Some using on_table_reachable by blast
qed simp

lemma handle_all_table:
  "handle_all bbs es h w = Some (h', w') \<Longrightarrow>
   (\<exists>rs. run_all (on_table bbs) es (h_routingTable h) = Some (rs, h_routingTable h')) \<and>
   h' = h\<lparr>h_routingTable := h_routingTable h'\<rparr>"
proof (induction es arbitrary: h w)
  case (Cons e es)
  obtain rs t where on: "on_table bbs e (h_routingTable h) = Some (rs, t)"
    and rest: "handle_all bbs es (h\<lparr>h_routingTable := t\<rparr>) (handler_emit rs h w) = Some (h', w')"
    using Cons.prems by (cases "on_table bbs e (h_routingTable h)") (auto simp: handleEvent_eq)
  from Cons.IH [OF rest] on show ?case by auto
qed simp

lemma add_infos_reachable: "reachable_table bbs t \<Longrightarrow> reachable_table bbs (add_infos bbs is t)"
proof (induction "is" arbitrary: t)
  case (Cons i "is")
  have "reachable_table bbs (snd (AddRoutes bbs i t))"
    by (rule reachable_table.call [OF Cons.prems, of "CallAddRoutes i" "fst (AddRoutes bbs i t)"]) simp
  then show ?case by (simp add: Cons.IH)
qed simp

lemma add_groups_reachable:
  "add_groups bbs gs t = Some t' \<Longrightarrow> reachable_table bbs t \<Longrightarrow> reachable_table bbs t'"
proof (induction gs arbitrary: t)
  case (Cons g gs)
  then obtain rs t1 where "AddEndpoint bbs g t = Some (rs, t1)" "add_groups bbs gs t1 = Some t'"
    by (auto simp: bind_eq_Some_conv)
  moreover from this(1) have "reachable_table bbs t1"
    by (intro reachable_table.call [OF Cons.prems(2), of "CallAddEndpoint g" rs]) simp
  ultimately show ?case by (intro Cons.IH)
qed simp

lemma build_table_reachable:
  assumes "build_table bbs a d = Some (Some t)"
  shows "reachable_table bbs t"
proof -
  obtain gs "is" where "add_groups bbs gs (add_infos bbs is (NewTable None)) = Some t"
    using assms by (auto simp: build_table_def split: sum.splits)
  then show ?thesis
    by (rule add_groups_reachable) (intro add_infos_reachable reachable_table.new_table)
qed

text \<open>The states of a handler made for the emitter \<open>em\<close>.\<close>

definition sound_state :: "bbs_models \<Rightarrow> 'w emitter option \<Rightarrow> 'w sync_state \<Rightarrow> bool" where
  "sound_state bbs em s \<longleftrightarrow>
     (case s of (h, ph, w) \<Rightarrow>
        reachable_table bbs (h_routingTable h) \<and> h_emitter h = em \<and>
        h_syncing h = (ph \<noteq> Idle) \<and> (ph = Idle \<longrightarrow> h_cachedEvents h = []))"

lemma sound_end:
  assumes "reachable_table bbs (h_routingTable h)" "h_syncing h"
    and "build_table bbs a d = Some temp" "sync_end bbs ord temp h w = Some (h', w')"
  shows "reachable_table bbs (h_routingTable h') \<and> h_emitter h' = h_emitter h \<and>
    \<not> h_syncing h' \<and> h_cachedEvents h' = []"
proof -
  let ?es = "h_cachedEvents h"
  have h: "h = sync_begin h\<lparr>h_cachedEvents := ?es\<rparr>"
    using assms(2) by (cases h) (simp add: sync_begin_def)
  have ended: "sync_end bbs ord temp (sync_begin h\<lparr>h_cachedEvents := ?es\<rparr>) w = Some (h', w')"
    using assms(4) by (subst h [symmetric])
  show ?thesis
  proof (cases "temp = None \<or> temp = Some (NewTable None)")
    case True
    have "handle_all bbs ?es (h\<lparr>h_cachedEvents := [], h_syncing := False\<rparr>) w = Some (h', w')"
      using ended unfolding sync_end_replay [OF True] .
    from handle_all_table [OF this] obtain rs n where
      "run_all (on_table bbs) ?es (h_routingTable h) = Some (rs, n)"
      "h' = h\<lparr>h_cachedEvents := [], h_syncing := False, h_routingTable := n\<rparr>" by auto
    then show ?thesis using assms(1) run_all_reachable by auto
  next
    case False
    then obtain t where t: "temp = Some t" "t \<noteq> NewTable None" by auto
    have "sync_end bbs ord (Some t) (sync_begin h\<lparr>h_cachedEvents := ?es\<rparr>) w = Some (h', w')"
      using ended unfolding t(1) .
    then obtain rs n where "run_all (on_table bbs) ?es t = Some (rs, n)"
      "h' = h\<lparr>h_routingTable := n, h_cachedEvents := [], h_syncing := False\<rparr>"
      unfolding sync_end_swap [OF t(2)] by auto
    then show ?thesis
      using build_table_reachable run_all_reachable assms(3) t(1) by auto
  qed
qed

lemma sound_step:
  assumes "sync_step bbs ord client s l s'" and "sound_state bbs em s"
  shows "sound_state bbs em s'"
  using assms
proof (induction rule: sync_step.induct)
  case (event e h w h' w' ph)
  show ?case
  proof (cases "h_syncing h")
    case True
    with event show ?thesis by (auto simp: HandleEvent_def sound_state_def)
  next
    case False
    with event(1) obtain rs t where on: "on_table bbs e (h_routingTable h) = Some (rs, t)"
      and h': "h' = h\<lparr>h_routingTable := t\<rparr>"
      by (cases "on_table bbs e (h_routingTable h)") (auto simp: HandleEvent_def handleEvent_eq)
    with event(2) show ?thesis
      using on_table_reachable [OF on] by (auto simp: sound_state_def)
  qed
next
  case (ends a d temp w h h' w')
  then have "reachable_table bbs (h_routingTable h)" "h_syncing h" "h_emitter h = em"
    by (auto simp: sound_state_def)
  with sound_end [OF _ _ ends(1,2)] show ?case by (simp add: sound_state_def)
qed (simp_all add: sound_state_def)

lemma sound_run: "sync_run bbs ord client s ls s' \<Longrightarrow> sound_state bbs em s \<Longrightarrow> sound_state bbs em s'"
  by (induction rule: sync_run.induct) (simp_all add: sound_step)

text \<open>
  C10: In every state reachable by events and syncs in any interleaving from a new handler with an
  empty table: the table is one that calls of its interface and swaps produce; the emitter, which
  \<open>applyCachedEvents\<close> takes away, is back; \<open>Syncing\<close> tells whether a sync is running; and outside a
  sync no event is left in the cache.
\<close>

theorem handler_states_sound:
  assumes "sync_run bbs ord client (NewRoutingTableHandler (NewTable None) em, Idle, w0) ls (h, ph, w)"
  shows "reachable_table bbs (h_routingTable h) \<and> h_emitter h = em \<and>
    Syncing h = (ph \<noteq> Idle) \<and> (Syncing h \<or> h_cachedEvents h = [])"
proof -
  have "sound_state bbs em (NewRoutingTableHandler (NewTable None) em, Idle, w0)"
    by (simp add: sound_state_def NewRoutingTableHandler_def reachable_table.new_table)
  from sound_run [OF assms this] show ?thesis by (auto simp: sound_state_def Syncing_def)
qed

subsection \<open>Witnesses\<close>

definition sample_events :: "bbs_event list" where
  "sample_events =
     [DesiredLRPCreatedEvent (Some (sample_desired ''ABCB'' 1)), ActualLRPCreatedEvent (Some (sample_group ''i'' 1))]"

definition registry_emitter :: "label set emitter" where
  "registry_emitter rs R = (None, apply_batch rs R)"

lemma registry_emitter_delivers: "delivers (\<lambda>R. R) registry_emitter"
  by (simp add: delivers_def registry_emitter_def)

definition sample_handler :: "label set routing_table_handler" where
  "sample_handler = NewRoutingTableHandler (NewTable None) (Some registry_emitter)"

lemma sample_handler_simps [simp]:
  "h_routingTable sample_handler = NewTable None"
  "h_emitter sample_handler = Some registry_emitter"
  "\<not> h_syncing sample_handler"
  by (simp_all add: sample_handler_def NewRoutingTableHandler_def)

lemma sample_desired_info: "DesiredLRPSchedulingInfo (Some (sample_desired raw i)) = Some (sample_info raw i)"
  by (simp add: DesiredLRPSchedulingInfo_def sample_desired_def sample_info_def)

lemma sample_AddEndpoint:
  "\<exists>rs. AddEndpoint sample_bbs (sample_group ''i'' 1)
     (snd (AddRoutes sample_bbs (sample_info ''ABCB'' 1) (NewTable None))) = Some (rs, sample_table)"
  by (simp add: sample_table_def AddEndpoint_eq sample_group_def prod_eq_iff)

lemma sample_events_run:
  "\<exists>rs. run_all (on_table sample_bbs) sample_events (NewTable None) = Some (rs, sample_table)"
proof -
  obtain rs1 t1 where r1: "AddRoutes sample_bbs (sample_info ''ABCB'' 1) (NewTable None) = (rs1, t1)" by fastforce
  obtain rs2 where r2: "AddEndpoint sample_bbs (sample_group ''i'' 1) t1 = Some (rs2, sample_table)"
    using sample_AddEndpoint r1 by auto
  have "if_running sample_bbs (Some (sample_group ''i'' 1)) c = Some (Some (c (sample_group ''i'' 1)))" for c
    by (simp add: if_running_def sample_group_def sample_lrp_def)
  then show ?thesis
    by (simp add: sample_events_def on_table_def sample_desired_info r1 r2)
qed

lemma handle_all_runs:
  "run_all (on_table bbs) es (h_routingTable h) = Some (rs, t) \<Longrightarrow>
   \<exists>w'. handle_all bbs es h w = Some (h\<lparr>h_routingTable := t\<rparr>, w')"
proof (induction es arbitrary: h rs w)
  case (Cons e es)
  then obtain rs1 t1 rs2 where e: "on_table bbs e (h_routingTable h) = Some (rs1, t1)"
    and es: "run_all (on_table bbs) es t1 = Some (rs2, t)"
    unfolding run_all_Cons_Some by blast
  obtain w' where "handle_all bbs es (h\<lparr>h_routingTable := t1\<rparr>) (handler_emit rs1 h w) =
      Some (h\<lparr>h_routingTable := t\<rparr>, w')"
    using Cons.IH [of "h\<lparr>h_routingTable := t1\<rparr>"] es by fastforce
  with e show ?case by (simp add: handleEvent_eq)
qed simp

lemma sample_HandleEvents:
  "\<exists>w'. HandleEvents sample_bbs sample_events sample_handler {} =
     Some (sample_handler\<lparr>h_routingTable := sample_table\<rparr>, w')"
  using sample_events_run handle_all_runs [of sample_bbs sample_events sample_handler]
  by (auto simp: HandleEvents_idle)

lemma handler_no_orphans_witness:
  "\<exists>h' w'. HandleEvents sample_bbs sample_events sample_handler {} = Some (h', w') \<and>
     h_routingTable h' = sample_table \<and> w' \<subseteq> table_labels sample_table"
proof -
  obtain w' where run: "HandleEvents sample_bbs sample_events sample_handler {} =
      Some (sample_handler\<lparr>h_routingTable := sample_table\<rparr>, w')"
    using sample_HandleEvents by blast
  have "w' \<subseteq> table_labels (h_routingTable (sample_handler\<lparr>h_routingTable := sample_table\<rparr>))"
    by (rule handler_no_orphans [OF registry_emitter_delivers _ _ _ run]) simp_all
  with run show ?thesis by auto
qed

lemma sample_table_not_empty: "sample_table \<noteq> NewTable None"
  by (metis NewTable_simps(1) fmupd_not_empty sample_table_entries)


lemma sample_label: "(sample_key, 65, EndpointKey ''i'' False) \<in> table_labels sample_table"
  by (simp add: in_table_labels)

lemma sync_repairs_registry_witness:
  "\<exists>h' w'. sync_end sample_bbs sorted_order (Some sample_table)
       (sync_begin sample_handler\<lparr>h_cachedEvents := []\<rparr>) {} = Some (h', w') \<and>
     (sample_key, 65, EndpointKey ''i'' False) \<in> w'"
proof -
  obtain w' where run: "sync_end sample_bbs sorted_order (Some sample_table)
       (sync_begin sample_handler\<lparr>h_cachedEvents := []\<rparr>) {} =
     Some (sample_handler\<lparr>h_routingTable := sample_table, h_cachedEvents := [], h_syncing := False\<rparr>, w')"
    unfolding sync_end_swap [OF sample_table_not_empty] by simp
  have "table_labels sample_table \<subseteq> w'"
    using sync_repairs_registry [OF registry_emitter_delivers sample_handler_simps(2) _ run]
      sample_table_not_empty by simp
  with run sample_label show ?thesis by blast
qed

lemma snapshot_routes_witness:
  "\<exists>t. build_table sample_bbs (Inr [sample_group ''i'' 1]) (Inr [sample_info ''ABCB'' 1]) = Some (Some t) \<and>
     (sample_key, 65, EndpointKey ''i'' False) \<in> table_labels t"
proof -
  obtain rs where add: "AddEndpoint sample_bbs (sample_group ''i'' 1)
      (snd (AddRoutes sample_bbs (sample_info ''ABCB'' 1) (NewTable None))) = Some (rs, sample_table)"
    using sample_AddEndpoint by blast
  have built: "build_table sample_bbs (Inr [sample_group ''i'' 1]) (Inr [sample_info ''ABCB'' 1]) =
      Some (Some sample_table)"
    by (simp add: build_table_def add)
  have running: "running_groups sample_bbs [sample_group ''i'' 1] = Some [sample_group ''i'' 1]"
    by (simp add: sample_group_def sample_lrp_def)
  have nil: "nil_tag_accepts sample_bbs" by (simp add: nil_tag_accepts_def)
  have "(sample_key, 65, EndpointKey ''i'' False) \<in> table_labels sample_table"
    unfolding snapshot_routes [OF nil _ running built, simplified]
    by (auto simp: sample_key_def desired_keys_def NewRoutingKeysFromDesired_def NewRoutingKey_def
        desired_ports_def sample_info_def sample_group_def sample_lrp_def intro!: exI)
  with built show ?thesis by blast
qed

lemma handler_states_sound_witness:
  "\<exists>h. sync_run sample_bbs (\<lambda>_. sorted_order) \<lparr>ActualLRPGroups = \<lambda>w. (Inr [], w),
        DesiredLRPSchedulingInfos = \<lambda>w. (Inr [], w)\<rparr>
      (sample_handler, Idle, {}) [Begin, Event (ActualLRPCreatedEvent (Some (sample_group ''i'' 1)))]
      (h, Fetching None None, {}) \<and>
    reachable_table sample_bbs (h_routingTable h) \<and> h_emitter h = Some registry_emitter \<and>
    Syncing h \<and> h_cachedEvents h \<noteq> []"
proof -
  let ?h = "sync_begin sample_handler\<lparr>h_cachedEvents := [ActualLRPCreatedEvent (Some (sample_group ''i'' 1))]\<rparr>"
  have run: "sync_run sample_bbs (\<lambda>_. sorted_order) \<lparr>ActualLRPGroups = \<lambda>w. (Inr [], w),
        DesiredLRPSchedulingInfos = \<lambda>w. (Inr [], w)\<rparr>
      (NewRoutingTableHandler (NewTable None) (Some registry_emitter), Idle, {})
      [Begin, Event (ActualLRPCreatedEvent (Some (sample_group ''i'' 1)))] (?h, Fetching None None, {})"
    by (simp add: step_begin step_event HandleEvent_def sample_handler_def)
  from handler_states_sound [OF run] run show ?thesis
    by (intro exI [of _ ?h]) (simp add: sample_handler_def Syncing_def)
qed

end
