(* ===== verification/Watcher.thy ===== *)
theory Watcher
  imports Handler_Sync
begin

text \<open>
  \<open>watcher/watcher.go\<close>: the select loop of \<open>Run\<close> and the goroutine \<open>checkForEvents\<close> as a step relation.
  The channels are unbuffered, so a send and its receive are one step, possible while the loop is in
  its select; every case of the select is a function of the state. A select that could take several
  cases takes any. The goroutines are a list, of which any may take the next step; that there is only
  one is a theorem.

  An event source is a number. \<open>SubscribeToEvents\<close> and \<open>Next\<close> may answer anything. The lists of events
  read, events handled and sources closed are history, no step depends on them.
\<close>

subsection \<open>The goroutine checkForEvents\<close>

datatype checker =
    Subscribing
  | Reading nat
  | SendingEvent nat bbs_event
  | SendingError go_error

datatype next_error = ErrUnrecognizedEventType | OtherError go_error

record 'w watcher =
  wa_stopped :: bool
  wa_eventSource :: "nat option"
  wa_checkers :: "checker list"
  wa_handler :: "'w routing_table_handler"
  wa_world :: 'w
  wa_read :: "bbs_event list"
  wa_handled :: "bbs_event list"
  wa_closed :: "nat list"

text \<open>The goroutine after \<open>SubscribeToEvents\<close>, and what it stores in the shared event source.\<close>

fun check_subscribe :: "go_error + nat \<Rightarrow> nat option \<Rightarrow> checker \<times> nat option" where
  "check_subscribe (Inl err) eventSource = (SendingError err, eventSource)"
| "check_subscribe (Inr es) eventSource = (Reading es, Some es)"

text \<open>One round of its loop, from the answer of \<open>es.Next()\<close>.\<close>

definition check_next :: "nat \<Rightarrow> bbs_event option \<Rightarrow> next_error option \<Rightarrow> checker" where
  "check_next es event err =
     (case err of
        Some (OtherError e) \<Rightarrow> SendingError e
      | _ \<Rightarrow> (case event of None \<Rightarrow> Reading es | Some e \<Rightarrow> SendingEvent es e))"

definition read_event :: "checker \<Rightarrow> bbs_event list" where
  "read_event c = (case c of SendingEvent _ e \<Rightarrow> [e] | _ \<Rightarrow> [])"

subsection \<open>The select loop of Run\<close>

text \<open>The state when the loop starts: one goroutine, no event source.\<close>

definition watcher_start :: "'w routing_table_handler \<Rightarrow> 'w \<Rightarrow> 'w watcher" where
  "watcher_start handler w =
     \<lparr>wa_stopped = False, wa_eventSource = None, wa_checkers = [Subscribing], wa_handler = handler,
      wa_world = w, wa_read = [], wa_handled = [], wa_closed = []\<rparr>"

definition close_source :: "'w watcher \<Rightarrow> 'w watcher" where
  "close_source s =
     (case wa_eventSource s of None \<Rightarrow> s | Some es \<Rightarrow> s\<lparr>wa_closed := wa_closed s @ [es]\<rparr>)"

definition on_event :: "bbs_models \<Rightarrow> bbs_event \<Rightarrow> 'w watcher \<Rightarrow> 'w watcher option" where
  "on_event bbs e s =
     map_option (\<lambda>(h, w). s\<lparr>wa_handler := h, wa_world := w, wa_handled := wa_handled s @ [e]\<rparr>)
       (HandleEvent bbs e (wa_handler s) (wa_world s))"

definition on_sync ::
  "bbs_models \<Rightarrow> ('w \<Rightarrow> routing_key range_order) \<Rightarrow> 'w bbs_client \<Rightarrow> bool \<Rightarrow> 'w watcher \<Rightarrow>
   'w watcher option" where
  "on_sync bbs ord client actualFirst s =
     map_option (\<lambda>(h, w). s\<lparr>wa_handler := h, wa_world := w\<rparr>)
       (Sync bbs ord client actualFirst (wa_handler s) (wa_world s))"

definition on_resubscribe :: "'w watcher \<Rightarrow> 'w watcher" where
  "on_resubscribe s =
     (let s1 = close_source s in s1\<lparr>wa_checkers := Subscribing # wa_checkers s1\<rparr>)"

definition on_signal :: "'w watcher \<Rightarrow> 'w watcher" where
  "on_signal s = (close_source s)\<lparr>wa_stopped := True\<rparr>"

inductive watcher_step ::
  "bbs_models \<Rightarrow> ('w \<Rightarrow> routing_key range_order) \<Rightarrow> 'w bbs_client \<Rightarrow> 'w watcher \<Rightarrow> 'w watcher \<Rightarrow> bool"
  for bbs ord client where
  subscribe: "wa_checkers s = cs @ Subscribing # cs' \<Longrightarrow> check_subscribe r (wa_eventSource s) = (c, es) \<Longrightarrow>
    watcher_step bbs ord client s (s\<lparr>wa_checkers := cs @ c # cs', wa_eventSource := es\<rparr>)"
| next_event: "wa_checkers s = cs @ Reading es # cs' \<Longrightarrow> c = check_next es event err \<Longrightarrow>
    watcher_step bbs ord client s
      (s\<lparr>wa_checkers := cs @ c # cs', wa_read := wa_read s @ read_event c\<rparr>)"
| handle: "\<not> wa_stopped s \<Longrightarrow> wa_checkers s = cs @ SendingEvent es e # cs' \<Longrightarrow>
    on_event bbs e (s\<lparr>wa_checkers := cs @ Reading es # cs'\<rparr>) = Some s' \<Longrightarrow>
    watcher_step bbs ord client s s'"
| resubscribe: "\<not> wa_stopped s \<Longrightarrow> wa_checkers s = cs @ SendingError err # cs' \<Longrightarrow>
    watcher_step bbs ord client s (on_resubscribe (s\<lparr>wa_checkers := cs @ cs'\<rparr>))"
| sync: "\<not> wa_stopped s \<Longrightarrow> on_sync bbs ord client actualFirst s = Some s' \<Longrightarrow>
    watcher_step bbs ord client s s'"
| signal: "\<not> wa_stopped s \<Longrightarrow> watcher_step bbs ord client s (on_signal s)"

inductive_cases watcher_stepE: "watcher_step bbs ord client s s'"

abbreviation watcher_steps ::
  "bbs_models \<Rightarrow> ('w \<Rightarrow> routing_key range_order) \<Rightarrow> 'w bbs_client \<Rightarrow> 'w watcher \<Rightarrow> 'w watcher \<Rightarrow> bool" where
  "watcher_steps bbs ord client \<equiv> (watcher_step bbs ord client)\<^sup>*\<^sup>*"

subsection \<open>The invariant\<close>

text \<open>The source a goroutine reads from, and the event it has read and not delivered.\<close>

definition checker_source :: "checker \<Rightarrow> nat option" where
  "checker_source c = (case c of Reading es \<Rightarrow> Some es | SendingEvent es _ \<Rightarrow> Some es | _ \<Rightarrow> None)"

definition watcher_inv :: "bbs_models \<Rightarrow> 'w emitter option \<Rightarrow> 'w watcher \<Rightarrow> bool" where
  "watcher_inv bbs em s \<longleftrightarrow>
     (\<exists>c. wa_checkers s = [c] \<and> wa_read s = wa_handled s @ read_event c \<and>
        (checker_source c = None \<or> wa_eventSource s = checker_source c)) \<and>
     sound_state bbs em (wa_handler s, Idle, wa_world s)"

lemma HandleEvent_sound:
  "HandleEvent bbs e h w = Some (h', w') \<Longrightarrow> sound_state bbs em (h, Idle, w) \<Longrightarrow>
   sound_state bbs em (h', Idle, w')"
  by (rule sound_step [OF sync_step.event])

lemma Sync_sound:
  assumes "Sync bbs ord client af h w = Some (h', w')" and "sound_state bbs em (h, Idle, w)"
  shows "sound_state bbs em (h', Idle, w')"
proof -
  have "Sync_caching bbs ord client af [] h w = Some (h', w')"
    using assms(1) by (simp only: Sync_is_caching_none)
  then obtain a d w1 temp where f: "sync_fetch bbs client af w = Some (a, d, w1)"
    and b: "build_table bbs a d = Some temp"
    and e: "sync_end bbs (ord w1) temp (sync_begin h\<lparr>h_cachedEvents := []\<rparr>) w1 = Some (h', w')"
    unfolding Sync_caching_Some by blast
  have "reachable_table bbs (h_routingTable h') \<and> h_emitter h' = h_emitter h \<and> \<not> h_syncing h' \<and>
      h_cachedEvents h' = []"
    using sound_end [OF _ _ b e] assms(2) by (simp add: sound_state_def)
  with assms(2) show ?thesis by (simp add: sound_state_def)
qed

lemma close_source_simps [simp]:
  "wa_checkers (close_source s) = wa_checkers s" "wa_handler (close_source s) = wa_handler s"
  "wa_world (close_source s) = wa_world s" "wa_read (close_source s) = wa_read s"
  "wa_handled (close_source s) = wa_handled s" "wa_eventSource (close_source s) = wa_eventSource s"
  "wa_stopped (close_source s) = wa_stopped s"
  by (simp_all add: close_source_def split: option.splits)

lemma single_checker: "cs @ c' # cs' = [c] \<longleftrightarrow> c' = c \<and> cs = [] \<and> cs' = []"
  by (cases cs) auto

lemma checker_simps [simp]:
  "read_event Subscribing = []" "read_event (Reading es) = []"
  "read_event (SendingEvent es e) = [e]" "read_event (SendingError err) = []"
  "checker_source Subscribing = None" "checker_source (Reading es) = Some es"
  "checker_source (SendingEvent es e) = Some es" "checker_source (SendingError err) = None"
  by (simp_all add: read_event_def checker_source_def)

lemma watcher_inv_step:
  assumes "watcher_step bbs ord client s s'" "watcher_inv bbs em s"
  shows "watcher_inv bbs em s'"
  using assms(1)
proof (cases rule: watcher_step.cases)
  case (subscribe cs cs' r c es)
  with assms(2) show ?thesis
    by (cases r) (auto simp: watcher_inv_def single_checker)
next
  case (next_event cs es cs' c event err)
  with assms(2) show ?thesis
    by (auto simp: watcher_inv_def single_checker check_next_def
        split: option.splits next_error.splits)
next
  case (handle cs es e cs')
  with assms(2) show ?thesis
    by (auto simp: watcher_inv_def single_checker on_event_def
        intro: HandleEvent_sound)
next
  case (resubscribe cs err cs')
  with assms(2) show ?thesis
    by (auto simp: watcher_inv_def single_checker on_resubscribe_def Let_def)
next
  case (sync actualFirst)
  with assms(2) show ?thesis
    by (auto simp: watcher_inv_def on_sync_def intro: Sync_sound)
next
  case signal
  with assms(2) show ?thesis by (simp add: watcher_inv_def on_signal_def)
qed

lemma watcher_inv_steps: "watcher_steps bbs ord client s s' \<Longrightarrow> watcher_inv bbs em s \<Longrightarrow> watcher_inv bbs em s'"
  by (induction rule: rtranclp_induct) (simp_all add: watcher_inv_step)

lemma stopped_step:
  assumes "watcher_step bbs ord client s s'" "wa_stopped s"
  shows "wa_stopped s' \<and> wa_handler s' = wa_handler s \<and> wa_world s' = wa_world s \<and>
    wa_handled s' = wa_handled s \<and> wa_closed s' = wa_closed s"
  using assms by (auto elim: watcher_stepE)

lemma stopped_steps:
  assumes "watcher_steps bbs ord client s s'" "wa_stopped s"
  shows "wa_stopped s' \<and> wa_handler s' = wa_handler s \<and> wa_world s' = wa_world s \<and>
    wa_handled s' = wa_handled s \<and> wa_closed s' = wa_closed s"
  using assms by (induction rule: rtranclp_induct) (auto dest: stopped_step)

lemma stuck_step:
  assumes "watcher_step bbs ord client s s'" "wa_stopped s"
  shows "wa_checkers s \<noteq> [SendingEvent es e] \<and> wa_checkers s \<noteq> [SendingError err]"
  using assms by (auto elim!: watcher_stepE simp: single_checker)

subsection \<open>Properties\<close>

text \<open>
  C11: In every state of a running watcher with a new handler there is exactly one goroutine reading
  events, resubscriptions included; the events handed to the handler are those read, in the same
  order, none lost and none twice, except at most the one on its way; the goroutine reads from the
  source the watcher would close. Between two calls the handler is idle: since the select loop calls
  \<open>HandleEvent\<close> and \<open>Sync\<close> itself, no event ever arrives during a sync and the cache stays empty.
\<close>

theorem watcher_sound:
  assumes "watcher_steps bbs ord client (watcher_start (NewRoutingTableHandler (NewTable None) em) w) s"
  shows "(\<exists>c. wa_checkers s = [c] \<and> checker_source c \<in> {None, wa_eventSource s} \<and>
      wa_read s = wa_handled s @ read_event c) \<and>
    \<not> Syncing (wa_handler s) \<and> h_cachedEvents (wa_handler s) = [] \<and>
    h_emitter (wa_handler s) = em \<and> reachable_table bbs (h_routingTable (wa_handler s))"
proof -
  have "watcher_inv bbs em (watcher_start (NewRoutingTableHandler (NewTable None) em) w)"
    by (simp add: watcher_inv_def watcher_start_def sound_state_def NewRoutingTableHandler_def
        reachable_table.new_table)
  from watcher_inv_steps [OF assms this] show ?thesis
    by (auto simp: watcher_inv_def sound_state_def Syncing_def)
qed

text \<open>
  C20: After the signal the watcher calls the handler no more and closes nothing more. A goroutine that
  has an event or an error to send when the loop ends can never send it: no step is possible any
  more, it blocks for good.
\<close>

theorem watcher_stopped:
  assumes "watcher_steps bbs ord client s s'" and "wa_stopped s"
  shows "wa_stopped s' \<and> wa_handler s' = wa_handler s \<and> wa_world s' = wa_world s \<and>
    wa_handled s' = wa_handled s \<and> wa_closed s' = wa_closed s \<and>
    (s' = s \<or> (\<nexists>es e err. wa_checkers s = [SendingEvent es e] \<or> wa_checkers s = [SendingError err]))"
proof (cases "s' = s")
  case False
  with assms(1) obtain s1 where "watcher_step bbs ord client s s1"
    by (auto elim: converse_rtranclpE)
  from stuck_step [OF this assms(2)] show ?thesis
    using stopped_steps [OF assms] by blast
qed (use assms in simp)

text \<open>
  C21: A subscription that succeeds after the signal is never closed: for every event source there is
  a run that stops before the goroutine has subscribed to it, then subscribes and reads, and no
  continuation closes the source. The flag \<open>stopEventSource\<close> that \<open>Run\<close> sets is read nowhere.
\<close>

theorem late_subscription_leaks:
  "\<exists>s. watcher_steps bbs ord client (watcher_start h w) s \<and> wa_stopped s \<and>
     wa_checkers s = [Reading es] \<and> wa_eventSource s = Some es \<and>
     {s'. watcher_steps bbs ord client s s' \<and> es \<in> set (wa_closed s')} = {}"
proof -
  let ?s0 = "watcher_start h w"
  let ?s1 = "?s0\<lparr>wa_stopped := True\<rparr>"
  let ?s2 = "?s1\<lparr>wa_checkers := [Reading es], wa_eventSource := Some es\<rparr>"
  have "watcher_step bbs ord client ?s0 (on_signal ?s0)"
    by (rule watcher_step.signal) (simp add: watcher_start_def)
  moreover have "on_signal ?s0 = ?s1"
    by (simp add: on_signal_def close_source_def watcher_start_def)
  moreover have "watcher_step bbs ord client ?s1 ?s2"
    using watcher_step.subscribe [where s = ?s1 and cs = "[]" and cs' = "[]" and r = "Inr es"]
    by (simp add: watcher_start_def)
  ultimately have run: "watcher_steps bbs ord client ?s0 ?s2"
    by (metis r_into_rtranclp rtranclp.rtrancl_into_rtrancl)
  have "wa_closed s' = []" if "watcher_steps bbs ord client ?s2 s'" for s'
    using stopped_steps [OF that] by (simp add: watcher_start_def)
  then have "{s'. watcher_steps bbs ord client ?s2 s' \<and> es \<in> set (wa_closed s')} = {}" by auto
  with run show ?thesis by (intro exI [of _ ?s2]) simp
qed

subsection \<open>Witnesses\<close>

definition sample_client :: "label set bbs_client" where
  "sample_client = \<lparr>ActualLRPGroups = \<lambda>w. (Inr [], w), DesiredLRPSchedulingInfos = \<lambda>w. (Inr [], w)\<rparr>"

lemma watcher_sound_witness:
  "\<exists>s. watcher_steps sample_bbs (\<lambda>_. sorted_order) sample_client (watcher_start sample_handler {}) s \<and>
     wa_checkers s = [Reading 7] \<and> wa_read s = wa_handled s \<and> \<not> Syncing (wa_handler s)"
proof -
  let ?s0 = "watcher_start sample_handler {}"
  let ?s1 = "?s0\<lparr>wa_checkers := [Reading 7], wa_eventSource := Some 7\<rparr>"
  have "watcher_step sample_bbs (\<lambda>_. sorted_order) sample_client ?s0 ?s1"
    using watcher_step.subscribe [where s = ?s0 and cs = "[]" and cs' = "[]" and r = "Inr 7"]
    by (simp add: watcher_start_def)
  then have run: "watcher_steps sample_bbs (\<lambda>_. sorted_order) sample_client
      (watcher_start (NewRoutingTableHandler (NewTable None) (Some registry_emitter)) {}) ?s1"
    unfolding sample_handler_def by blast
  have "\<exists>c. wa_checkers ?s1 = [c] \<and> wa_read ?s1 = wa_handled ?s1 @ read_event c"
    and "\<not> Syncing (wa_handler ?s1)"
    using watcher_sound [OF run] by blast+
  with run show ?thesis
    by (intro exI [of _ ?s1]) (simp add: sample_handler_def)
qed

lemma watcher_stopped_witness:
  "\<exists>s s'. watcher_steps sample_bbs (\<lambda>_. sorted_order) sample_client s s' \<and> s' \<noteq> s \<and>
     wa_stopped s' \<and> wa_handler s' = wa_handler s \<and> wa_closed s' = wa_closed s"
proof -
  let ?s = "on_signal (watcher_start sample_handler {})"
  let ?s' = "?s\<lparr>wa_checkers := [Reading 7], wa_eventSource := Some 7\<rparr>"
  have start: "wa_stopped ?s" "wa_checkers ?s = [Subscribing]"
    by (simp_all add: on_signal_def watcher_start_def)
  then have "watcher_step sample_bbs (\<lambda>_. sorted_order) sample_client ?s ?s'"
    using watcher_step.subscribe [where s = ?s and cs = "[]" and cs' = "[]" and r = "Inr 7"] by simp
  then have run: "watcher_steps sample_bbs (\<lambda>_. sorted_order) sample_client ?s ?s'" by blast
  have "wa_checkers ?s' \<noteq> wa_checkers ?s" using start by simp
  then have "?s' \<noteq> ?s" by metis
  with run watcher_stopped [OF run start(1)] show ?thesis by blast
qed

end
