(* ===== verification/Syncer.thy ===== *)
theory Syncer
  imports Tcp_Prelude
begin

text \<open>
  \<open>syncer/syncer.go\<close>: the ticker loop of \<open>Run\<close> as a program counter with one function per statement that
  other goroutines can see: the start, the tick, the non-blocking send of \<open>sync()\<close>, the making of the
  ticker and the signal. The channel belongs to the watcher, and whether a receiver waits on it is an
  argument of \<open>sync_send\<close>. The counters of requests sent and dropped and of ticks are history.

  The clock is another package's. Its ticker may tick at any time; the model asks of the clock only
  for which intervals \<open>NewTicker\<close> returns instead of panicking.
\<close>

record clock =
  NewTicker :: "int \<Rightarrow> bool"

text \<open>
  Where \<open>Run\<close> is: not called, before the first \<open>sync()\<close>, before \<open>NewTicker\<close>, in its select, before the
  \<open>sync()\<close> of a tick, at its end.
\<close>

datatype syncer_phase = NotStarted | Starting | MakingTicker | Selecting | Requesting | Returned

record syncer =
  sy_clock :: clock
  sy_syncInterval :: int
  sy_phase :: syncer_phase
  sy_sent :: nat
  sy_dropped :: nat
  sy_ticks :: nat

definition syncer_New :: "clock \<Rightarrow> int \<Rightarrow> syncer" where
  "syncer_New clock syncInterval =
     \<lparr>sy_clock = clock, sy_syncInterval = syncInterval, sy_phase = NotStarted, sy_sent = 0, sy_dropped = 0, sy_ticks = 0\<rparr>"

text \<open>\<open>Run\<close> is called: it goes straight to its first \<open>sync()\<close>.\<close>

definition syncer_start :: "syncer \<Rightarrow> syncer option" where
  "syncer_start s = (if sy_phase s = NotStarted then Some (s\<lparr>sy_phase := Starting\<rparr>) else None)"

text \<open>
  \<open>sync()\<close>: the send if a receiver waits, the default case otherwise; then \<open>Run\<close> goes on, after the first
  \<open>sync()\<close> with the ticker and else with its select.
\<close>

definition sync_send :: "bool \<Rightarrow> syncer \<Rightarrow> syncer option" where
  "sync_send receiver s =
     (if sy_phase s \<noteq> Starting \<and> sy_phase s \<noteq> Requesting then None
      else
        (let s1 = s\<lparr>sy_phase := (if sy_phase s = Starting then MakingTicker else Selecting)\<rparr> in
         if receiver then Some (s1\<lparr>sy_sent := Suc (sy_sent s1)\<rparr>)
         else Some (s1\<lparr>sy_dropped := Suc (sy_dropped s1)\<rparr>)))"

text \<open>The ticker is made, or making it panics.\<close>

definition syncer_ticker :: "syncer \<Rightarrow> syncer option" where
  "syncer_ticker s =
     (if sy_phase s = MakingTicker \<and> NewTicker (sy_clock s) (sy_syncInterval s)
      then Some (s\<lparr>sy_phase := Selecting\<rparr>) else None)"

definition ticker_panics :: "syncer \<Rightarrow> bool" where
  "ticker_panics s \<longleftrightarrow> sy_phase s = MakingTicker \<and> \<not> NewTicker (sy_clock s) (sy_syncInterval s)"

text \<open>The two cases of the select.\<close>

definition syncer_tick :: "syncer \<Rightarrow> syncer option" where
  "syncer_tick s =
     (if sy_phase s = Selecting then Some (s\<lparr>sy_phase := Requesting, sy_ticks := Suc (sy_ticks s)\<rparr>)
      else None)"

definition syncer_signal :: "syncer \<Rightarrow> syncer option" where
  "syncer_signal s = (if sy_phase s = Selecting then Some (s\<lparr>sy_phase := Returned\<rparr>) else None)"

lemmas syncer_defs = syncer_start_def sync_send_def syncer_ticker_def syncer_tick_def syncer_signal_def Let_def

text \<open>A \<open>sync()\<close> is due.\<close>

definition sync_due :: "syncer \<Rightarrow> bool" where
  "sync_due s \<longleftrightarrow> sy_phase s = Starting \<or> sy_phase s = Requesting"

text \<open>
  The requests made so far: one at the start and one for every tick; and no tick without a ticker.
\<close>

definition syncer_ok :: "syncer \<Rightarrow> bool" where
  "syncer_ok s \<longleftrightarrow>
     (if sy_phase s = NotStarted then sy_sent s + sy_dropped s + sy_ticks s = 0
      else sy_sent s + sy_dropped s + (if sync_due s then 1 else 0) = Suc (sy_ticks s)) \<and>
     (sy_phase s \<in> {Starting, MakingTicker} \<longrightarrow> sy_ticks s = 0) \<and>
     (sy_phase s \<in> {Selecting, Requesting, Returned} \<longrightarrow> NewTicker (sy_clock s) (sy_syncInterval s))"

lemma syncer_New_ok [contract]: "syncer_ok (syncer_New c i)"
  by (simp add: syncer_ok_def syncer_New_def)

lemma syncer_ok_step [contract]:
  "syncer_start s = Some s' \<Longrightarrow> syncer_ok s \<Longrightarrow> syncer_ok s'"
  "sync_send r s = Some s' \<Longrightarrow> syncer_ok s \<Longrightarrow> syncer_ok s'"
  "syncer_ticker s = Some s' \<Longrightarrow> syncer_ok s \<Longrightarrow> syncer_ok s'"
  "syncer_tick s = Some s' \<Longrightarrow> syncer_ok s \<Longrightarrow> syncer_ok s'"
  "syncer_signal s = Some s' \<Longrightarrow> syncer_ok s \<Longrightarrow> syncer_ok s'"
  by (auto simp: syncer_ok_def sync_due_def syncer_defs split: if_splits)

text \<open>What no step of the syncer changes, and what each does to the counter of requests sent.\<close>

lemma syncer_keeps:
  "syncer_start s = Some s' \<Longrightarrow> sy_clock s' = sy_clock s \<and> sy_syncInterval s' = sy_syncInterval s"
  "sync_send r s = Some s' \<Longrightarrow> sy_clock s' = sy_clock s \<and> sy_syncInterval s' = sy_syncInterval s"
  "syncer_ticker s = Some s' \<Longrightarrow> sy_clock s' = sy_clock s \<and> sy_syncInterval s' = sy_syncInterval s"
  "syncer_tick s = Some s' \<Longrightarrow> sy_clock s' = sy_clock s \<and> sy_syncInterval s' = sy_syncInterval s"
  "syncer_signal s = Some s' \<Longrightarrow> sy_clock s' = sy_clock s \<and> sy_syncInterval s' = sy_syncInterval s"
  by (auto simp: syncer_defs split: if_splits)

lemma sent_simps:
  "syncer_start s = Some s' \<Longrightarrow> sy_sent s' = sy_sent s"
  "sync_send r s = Some s' \<Longrightarrow> sy_sent s' = sy_sent s + (if r then 1 else 0)"
  "syncer_ticker s = Some s' \<Longrightarrow> sy_sent s' = sy_sent s"
  "syncer_tick s = Some s' \<Longrightarrow> sy_sent s' = sy_sent s"
  "syncer_signal s = Some s' \<Longrightarrow> sy_sent s' = sy_sent s"
  by (auto simp: syncer_defs split: if_splits)

lemma dropped_simps:
  "syncer_start s = Some s' \<Longrightarrow> sy_dropped s' = sy_dropped s"
  "sync_send r s = Some s' \<Longrightarrow> sy_dropped s' = sy_dropped s + (if r then 0 else 1)"
  "syncer_ticker s = Some s' \<Longrightarrow> sy_dropped s' = sy_dropped s"
  "syncer_tick s = Some s' \<Longrightarrow> sy_dropped s' = sy_dropped s"
  "syncer_signal s = Some s' \<Longrightarrow> sy_dropped s' = sy_dropped s"
  by (auto simp: syncer_defs split: if_splits)

end
