(* ===== verification/System.thy ===== *)
theory System
  imports Watcher Syncer
begin

text \<open>
  The members of the process group that \<open>main.go\<close> builds around the sync channel: the watcher's loop, its
  event goroutine and the syncer, as one step relation in which any of them may take the next step.
  Here a call of the handler is not one step: the watcher receives an event or a request, is busy, and
  returns to its select later, while the other goroutines go on. The channel is unbuffered and the
  syncer's send does not block, so a request arrives exactly if the watcher waits in its select.

  The ordered group starts the syncer after the watcher has closed its \<open>ready\<close> channel; the watcher does
  that before it enters its select.

  A panic, in a call of the handler or in \<open>NewTicker\<close>, ends the process: no member makes a step any more.
\<close>

subsection \<open>The goroutines and the channel\<close>

text \<open>Where the loop of the watcher's \<open>Run\<close> is.\<close>

datatype watcher_position = BeforeReady | Entering | Waiting | InEvent bbs_event | InSync | Finished

record 'w system =
  sys_watcher :: "'w watcher"
  sys_position :: watcher_position
  sys_syncer :: syncer
  sys_syncs :: nat
  sys_crashed :: bool

text \<open>
  The struct \<open>Watcher\<close> without its channel and its logger; the channel is the one the syncer sends on. Its
  clock is never used.
\<close>

record 'w watcher_struct =
  ws_bbsClient :: "'w bbs_client"
  ws_clock :: clock
  ws_routingTableHandler :: "'w routing_table_handler"

definition NewWatcher :: "'w bbs_client \<Rightarrow> clock \<Rightarrow> 'w routing_table_handler \<Rightarrow> 'w watcher_struct" where
  "NewWatcher bbsClient clock routingTableHandler =
     \<lparr>ws_bbsClient = bbsClient, ws_clock = clock, ws_routingTableHandler = routingTableHandler\<rparr>"

text \<open>The two members before either has made a step.\<close>

definition join_members :: "'w watcher_struct \<Rightarrow> syncer \<Rightarrow> 'w \<Rightarrow> 'w system" where
  "join_members watcher syncRunner w =
     \<lparr>sys_watcher = watcher_start (ws_routingTableHandler watcher) w, sys_position = BeforeReady,
      sys_syncer = syncRunner, sys_syncs = 0, sys_crashed = False\<rparr>"

definition system_start :: "clock \<Rightarrow> 'w routing_table_handler \<Rightarrow> 'w \<Rightarrow> int \<Rightarrow> 'w system" where
  "system_start clk h w interval =
     \<lparr>sys_watcher = watcher_start h w, sys_position = BeforeReady, sys_syncer = syncer_New clk interval,
      sys_syncs = 0, sys_crashed = False\<rparr>"

lemma join_members_start:
  "join_members (NewWatcher client clk h) (syncer_New clk interval) w = system_start clk h w interval"
  by (simp add: join_members_def NewWatcher_def system_start_def)

text \<open>The goroutine \<open>checkForEvents\<close> up to its sends.\<close>

inductive checker_step :: "'w watcher \<Rightarrow> 'w watcher \<Rightarrow> bool" where
  subscribed: "wa_checkers s = cs @ Subscribing # cs' \<Longrightarrow> check_subscribe r (wa_eventSource s) = (c, es) \<Longrightarrow>
    checker_step s (s\<lparr>wa_checkers := cs @ c # cs', wa_eventSource := es\<rparr>)"
| next_read: "wa_checkers s = cs @ Reading es # cs' \<Longrightarrow> c = check_next es event err \<Longrightarrow>
    checker_step s (s\<lparr>wa_checkers := cs @ c # cs', wa_read := wa_read s @ read_event c\<rparr>)"

definition receiver_waits :: "'w system \<Rightarrow> bool" where
  "receiver_waits s \<longleftrightarrow> sys_position s = Waiting"

text \<open>The steps of the members.\<close>

inductive member_step ::
  "bbs_models \<Rightarrow> ('w \<Rightarrow> routing_key range_order) \<Rightarrow> 'w bbs_client \<Rightarrow> 'w system \<Rightarrow> 'w system \<Rightarrow> bool"
  for bbs ord client where
  checker: "checker_step (sys_watcher s) wa \<Longrightarrow> member_step bbs ord client s (s\<lparr>sys_watcher := wa\<rparr>)"
| ready: "sys_position s = BeforeReady \<Longrightarrow> member_step bbs ord client s (s\<lparr>sys_position := Entering\<rparr>)"
| enter: "sys_position s = Entering \<Longrightarrow> member_step bbs ord client s (s\<lparr>sys_position := Waiting\<rparr>)"
| receive_event: "sys_position s = Waiting \<Longrightarrow> wa_checkers (sys_watcher s) = cs @ SendingEvent es e # cs' \<Longrightarrow>
    member_step bbs ord client s
      (s\<lparr>sys_watcher := (sys_watcher s)\<lparr>wa_checkers := cs @ Reading es # cs'\<rparr>, sys_position := InEvent e\<rparr>)"
| event_done: "sys_position s = InEvent e \<Longrightarrow> on_event bbs e (sys_watcher s) = Some wa \<Longrightarrow>
    member_step bbs ord client s (s\<lparr>sys_watcher := wa, sys_position := Entering\<rparr>)"
| receive_error: "sys_position s = Waiting \<Longrightarrow> wa_checkers (sys_watcher s) = cs @ SendingError err # cs' \<Longrightarrow>
    member_step bbs ord client s
      (s\<lparr>sys_watcher := on_resubscribe ((sys_watcher s)\<lparr>wa_checkers := cs @ cs'\<rparr>), sys_position := Entering\<rparr>)"
| sync_done: "sys_position s = InSync \<Longrightarrow> on_sync bbs ord client af (sys_watcher s) = Some wa \<Longrightarrow>
    member_step bbs ord client s
      (s\<lparr>sys_watcher := wa, sys_position := Entering, sys_syncs := Suc (sys_syncs s)\<rparr>)"
| watcher_signal: "sys_position s = Waiting \<Longrightarrow>
    member_step bbs ord client s (s\<lparr>sys_watcher := on_signal (sys_watcher s), sys_position := Finished\<rparr>)"
| start_syncer: "sys_position s \<noteq> BeforeReady \<Longrightarrow> syncer_start (sys_syncer s) = Some y \<Longrightarrow>
    member_step bbs ord client s (s\<lparr>sys_syncer := y\<rparr>)"
| request: "sync_send (receiver_waits s) (sys_syncer s) = Some y \<Longrightarrow>
    member_step bbs ord client s
      (s\<lparr>sys_syncer := y, sys_position := (if receiver_waits s then InSync else sys_position s)\<rparr>)"
| make_ticker: "syncer_ticker (sys_syncer s) = Some y \<Longrightarrow> member_step bbs ord client s (s\<lparr>sys_syncer := y\<rparr>)"
| tick: "syncer_tick (sys_syncer s) = Some y \<Longrightarrow> member_step bbs ord client s (s\<lparr>sys_syncer := y\<rparr>)"
| syncer_stops: "syncer_signal (sys_syncer s) = Some y \<Longrightarrow> member_step bbs ord client s (s\<lparr>sys_syncer := y\<rparr>)"

text \<open>The steps of the process: those of its members, and the panics of the calls in progress.\<close>

inductive system_step ::
  "bbs_models \<Rightarrow> ('w \<Rightarrow> routing_key range_order) \<Rightarrow> 'w bbs_client \<Rightarrow> 'w system \<Rightarrow> 'w system \<Rightarrow> bool"
  for bbs ord client where
  member: "\<not> sys_crashed s \<Longrightarrow> member_step bbs ord client s s' \<Longrightarrow> system_step bbs ord client s s'"
| event_panic: "\<not> sys_crashed s \<Longrightarrow> sys_position s = InEvent e \<Longrightarrow> on_event bbs e (sys_watcher s) = None \<Longrightarrow>
    system_step bbs ord client s (s\<lparr>sys_crashed := True\<rparr>)"
| sync_panic: "\<not> sys_crashed s \<Longrightarrow> sys_position s = InSync \<Longrightarrow>
    on_sync bbs ord client af (sys_watcher s) = None \<Longrightarrow>
    system_step bbs ord client s (s\<lparr>sys_crashed := True\<rparr>)"
| ticker_panic: "\<not> sys_crashed s \<Longrightarrow> ticker_panics (sys_syncer s) \<Longrightarrow>
    system_step bbs ord client s (s\<lparr>sys_crashed := True\<rparr>)"

inductive_cases checker_stepE: "checker_step s s'"
inductive_cases member_stepE: "member_step bbs ord client s s'"

abbreviation system_steps ::
  "bbs_models \<Rightarrow> ('w \<Rightarrow> routing_key range_order) \<Rightarrow> 'w bbs_client \<Rightarrow> 'w system \<Rightarrow> 'w system \<Rightarrow> bool" where
  "system_steps bbs ord client \<equiv> (system_step bbs ord client)\<^sup>*\<^sup>*"

subsection \<open>The watcher a system state stands for\<close>

text \<open>
  The atomic watcher has handled an event as soon as it has received it, and has synced only when the
  sync is done. \<open>None\<close>: the call in progress panics.
\<close>

definition settled :: "bbs_models \<Rightarrow> 'w system \<Rightarrow> 'w watcher option" where
  "settled bbs s =
     (case sys_position s of InEvent e \<Rightarrow> on_event bbs e (sys_watcher s) | _ \<Rightarrow> Some (sys_watcher s))"

lemma checker_is_watcher_step: "checker_step s s' \<Longrightarrow> watcher_step bbs ord client s s'"
  by (induction rule: checker_step.induct) (blast intro: watcher_step.subscribe watcher_step.next_event)+

lemma checker_keeps:
  "checker_step s s' \<Longrightarrow> wa_handler s' = wa_handler s \<and> wa_world s' = wa_world s \<and>
     wa_stopped s' = wa_stopped s \<and> wa_handled s' = wa_handled s"
  by (induction rule: checker_step.induct) simp_all

text \<open>A step of the goroutine and the handling of an event commute.\<close>

lemma on_event_checker:
  assumes step: "checker_step s s'" and e: "on_event bbs e s' = Some t'"
  shows "\<exists>t. on_event bbs e s = Some t \<and> checker_step t t'"
  using assms
proof (cases rule: checker_step.cases)
  case (subscribed cs cs' r c es)
  from e subscribed obtain h w where hw: "HandleEvent bbs e (wa_handler s) (wa_world s) = Some (h, w)"
    by (auto simp: on_event_def)
  let ?t = "s\<lparr>wa_handler := h, wa_world := w, wa_handled := wa_handled s @ [e]\<rparr>"
  have "checker_step ?t (?t\<lparr>wa_checkers := cs @ c # cs', wa_eventSource := es\<rparr>)"
    using subscribed by (intro checker_step.subscribed) simp_all
  moreover have "t' = ?t\<lparr>wa_checkers := cs @ c # cs', wa_eventSource := es\<rparr>"
    using e hw subscribed by (cases s) (simp add: on_event_def)
  ultimately show ?thesis using hw by (auto simp: on_event_def)
next
  case (next_read cs es cs' c event err)
  from e next_read obtain h w where hw: "HandleEvent bbs e (wa_handler s) (wa_world s) = Some (h, w)"
    by (auto simp: on_event_def)
  let ?t = "s\<lparr>wa_handler := h, wa_world := w, wa_handled := wa_handled s @ [e]\<rparr>"
  have "checker_step ?t (?t\<lparr>wa_checkers := cs @ c # cs', wa_read := wa_read ?t @ read_event c\<rparr>)"
    using next_read by (intro checker_step.next_read) simp_all
  moreover have "t' = ?t\<lparr>wa_checkers := cs @ c # cs', wa_read := wa_read ?t @ read_event c\<rparr>"
    using e hw next_read by (cases s) (simp add: on_event_def)
  ultimately show ?thesis using hw by (auto simp: on_event_def)
qed

text \<open>Stopped exactly at the end.\<close>

definition system_ok :: "'w system \<Rightarrow> bool" where
  "system_ok s \<longleftrightarrow>
     wa_stopped (sys_watcher s) = (sys_position s = Finished) \<and>
     syncer_ok (sys_syncer s) \<and>
     sy_sent (sys_syncer s) = sys_syncs s + (if sys_position s = InSync then 1 else 0)"

lemma on_event_keeps: "on_event bbs e s = Some s' \<Longrightarrow> wa_stopped s' = wa_stopped s"
  by (auto simp: on_event_def)

lemma on_sync_keeps: "on_sync bbs ord client af s = Some s' \<Longrightarrow> wa_stopped s' = wa_stopped s"
  by (auto simp: on_sync_def)

lemma on_resubscribe_keeps: "wa_stopped (on_resubscribe s) = wa_stopped s"
  by (simp add: on_resubscribe_def Let_def)

lemma member_alive: "member_step bbs ord client s s' \<Longrightarrow> sys_crashed s' = sys_crashed s"
  by (induction rule: member_step.induct) simp_all

lemma member_ok: "member_step bbs ord client s s' \<Longrightarrow> system_ok s \<Longrightarrow> system_ok s'"
  by (induction rule: member_step.induct)
    (auto simp: system_ok_def checker_keeps on_event_keeps on_sync_keeps on_resubscribe_keeps sent_simps
      receiver_waits_def on_signal_def dest: syncer_ok_step)

lemma system_ok_step: "system_step bbs ord client s s' \<Longrightarrow> system_ok s \<Longrightarrow> system_ok s'"
  by (induction rule: system_step.induct) (auto simp: system_ok_def dest: member_ok)

lemma system_ok_start: "system_ok (system_start clk h w i)"
  by (simp add: system_ok_def system_start_def watcher_start_def syncer_New_ok)
    (simp add: syncer_New_def)

lemma system_ok_steps: "system_steps bbs ord client s s' \<Longrightarrow> system_ok s \<Longrightarrow> system_ok s'"
  by (induction rule: rtranclp_induct) (simp_all add: system_ok_step)

subsection \<open>The system refines the atomic watcher\<close>

lemma settled_simps [simp]:
  "settled bbs (s\<lparr>sys_syncer := y\<rparr>) = settled bbs s"
  "settled bbs (s\<lparr>sys_syncs := n\<rparr>) = settled bbs s"
  "settled bbs (s\<lparr>sys_crashed := c\<rparr>) = settled bbs s"
  by (cases "sys_position s"; simp add: settled_def)+

lemma settled_outside_events:
  "(\<nexists>e. sys_position s = InEvent e) \<Longrightarrow> settled bbs s = Some (sys_watcher s)"
  by (cases "sys_position s") (simp_all add: settled_def)

lemma settled_checker:
  assumes "checker_step (sys_watcher s) wa" and "settled bbs (s\<lparr>sys_watcher := wa\<rparr>) = Some wb"
  shows "\<exists>wc. settled bbs s = Some wc \<and> checker_step wc wb"
proof (cases "\<exists>e. sys_position s = InEvent e")
  case True
  with assms on_event_checker [OF assms(1)] show ?thesis by (auto simp: settled_def)
next
  case False
  then have "settled bbs s = Some (sys_watcher s)" "settled bbs (s\<lparr>sys_watcher := wa\<rparr>) = Some wa"
    by (simp_all add: settled_outside_events)
  with assms show ?thesis by simp
qed

lemma settled_member:
  assumes "member_step bbs ord client s s'" and ok: "system_ok s" and "settled bbs s' = Some wb"
  shows "\<exists>wa. settled bbs s = Some wa \<and> (wb = wa \<or> watcher_step bbs ord client wa wb)"
  using assms(1)
proof (cases rule: member_step.cases)
  case (checker wa)
  with settled_checker assms(3) checker_is_watcher_step show ?thesis by metis
next
  case (receive_event cs es e cs')
  with assms show ?thesis
    by (intro exI [of _ "sys_watcher s"]) (auto simp: settled_def system_ok_def intro: watcher_step.handle)
next
  case (receive_error cs err cs')
  with assms show ?thesis
    by (auto simp: settled_def system_ok_def intro: watcher_step.resubscribe)
next
  case (sync_done af wa)
  with assms show ?thesis
    by (auto simp: settled_def system_ok_def intro: watcher_step.sync)
next
  case watcher_signal
  with assms show ?thesis
    by (auto simp: settled_def system_ok_def intro: watcher_step.signal)
next
  case (request y)
  with assms(3) show ?thesis
    by (cases "sys_position s") (auto simp: settled_def receiver_waits_def)
next
  case ready
  with assms(3) show ?thesis by (simp add: settled_outside_events)
next
  case enter
  with assms(3) show ?thesis by (simp add: settled_outside_events)
next
  case (event_done e wa)
  with assms(3) show ?thesis by (simp add: settled_def)
qed (use assms(3) in simp_all)

lemma settled_step:
  assumes "system_step bbs ord client s s'" and "system_ok s" and "settled bbs s' = Some wb"
  shows "\<exists>wa. settled bbs s = Some wa \<and> (wb = wa \<or> watcher_step bbs ord client wa wb)"
  using assms by (cases rule: system_step.cases) (auto dest: settled_member)

lemma settled_start: "settled bbs (system_start clk h w i) = Some (watcher_start h w)"
  by (simp add: settled_def system_start_def)

lemma member_dropped: "member_step bbs ord client s s' \<Longrightarrow> sy_dropped (sys_syncer s) \<le> sy_dropped (sys_syncer s')"
  by (induction rule: member_step.induct) (auto simp: dropped_simps)

lemma dropped_mono: "system_steps bbs ord client s s' \<Longrightarrow> sy_dropped (sys_syncer s) \<le> sy_dropped (sys_syncer s')"
proof (induction rule: rtranclp_induct)
  case (step s1 s2)
  from step.hyps(2) have "sy_dropped (sys_syncer s1) \<le> sy_dropped (sys_syncer s2)"
    by (cases rule: system_step.cases) (auto dest: member_dropped)
  with step.IH show ?case by simp
qed simp

subsection \<open>Stopping\<close>

text \<open>The call of the handler in progress, if any, does not panic.\<close>

definition call_returns ::
  "bbs_models \<Rightarrow> ('w \<Rightarrow> routing_key range_order) \<Rightarrow> 'w bbs_client \<Rightarrow> bool \<Rightarrow> 'w system \<Rightarrow> bool" where
  "call_returns bbs ord client af s \<longleftrightarrow>
     (case sys_position s of
        InEvent e \<Rightarrow> on_event bbs e (sys_watcher s) \<noteq> None
      | InSync \<Rightarrow> on_sync bbs ord client af (sys_watcher s) \<noteq> None
      | _ \<Rightarrow> True)"

definition system_within ::
  "bbs_models \<Rightarrow> ('w \<Rightarrow> routing_key range_order) \<Rightarrow> 'w bbs_client \<Rightarrow> nat \<Rightarrow> 'w system \<Rightarrow> 'w system \<Rightarrow> bool" where
  "system_within bbs ord client k s s' \<longleftrightarrow> (\<exists>n\<le>k. (system_step bbs ord client ^^ n) s s')"

lemma within_0: "system_within bbs ord client k s s"
  unfolding system_within_def by (intro exI [of _ 0]) simp

lemma within_Suc:
  assumes "\<not> sys_crashed s" and "member_step bbs ord client s s1" and "system_within bbs ord client k s1 s'"
  shows "system_within bbs ord client (Suc k) s s'"
proof -
  from assms(3) obtain n where "n \<le> k" "(system_step bbs ord client ^^ n) s1 s'"
    unfolding system_within_def by blast
  moreover from relpowp_Suc_I2 [OF system_step.member [OF assms(1,2)] this(2)]
  have "(system_step bbs ord client ^^ Suc n) s s'" .
  ultimately show ?thesis
    unfolding system_within_def by (intro exI [of _ "Suc n"]) simp
qed

lemma within_add:
  assumes "system_within bbs ord client j s s1" and "system_within bbs ord client k s1 s'"
  shows "system_within bbs ord client (j + k) s s'"
proof -
  from assms obtain m n where "m \<le> j" "(system_step bbs ord client ^^ m) s s1"
    and "n \<le> k" "(system_step bbs ord client ^^ n) s1 s'" unfolding system_within_def by blast
  then show ?thesis
    unfolding system_within_def by (intro exI [of _ "m + n"]) (auto simp: relpowp_add)
qed

lemma within_mono: "system_within bbs ord client j s s' \<Longrightarrow> j \<le> k \<Longrightarrow> system_within bbs ord client k s s'"
  unfolding system_within_def by (meson le_trans)

definition watcher_can_stop ::
  "bbs_models \<Rightarrow> ('w \<Rightarrow> routing_key range_order) \<Rightarrow> 'w bbs_client \<Rightarrow> nat \<Rightarrow> 'w system \<Rightarrow> bool" where
  "watcher_can_stop bbs ord client k s \<longleftrightarrow> (\<exists>s'. system_within bbs ord client k s s' \<and>
     sys_position s' = Finished \<and> sys_syncer s' = sys_syncer s \<and> \<not> sys_crashed s')"

lemma can_stop_Suc:
  "\<not> sys_crashed s \<Longrightarrow> member_step bbs ord client s s1 \<Longrightarrow> sys_syncer s1 = sys_syncer s \<Longrightarrow>
   watcher_can_stop bbs ord client k s1 \<Longrightarrow> watcher_can_stop bbs ord client (Suc k) s"
  unfolding watcher_can_stop_def using within_Suc by metis

lemma finished_can_stop:
  "sys_position s = Finished \<Longrightarrow> \<not> sys_crashed s \<Longrightarrow> watcher_can_stop bbs ord client k s"
  unfolding watcher_can_stop_def using within_0 by blast

lemma waiting_can_stop:
  "sys_position s = Waiting \<Longrightarrow> \<not> sys_crashed s \<Longrightarrow> watcher_can_stop bbs ord client (Suc k) s"
  by (rule can_stop_Suc [OF _ member_step.watcher_signal]) (simp_all add: finished_can_stop)

lemma entering_can_stop:
  "sys_position s = Entering \<Longrightarrow> \<not> sys_crashed s \<Longrightarrow> watcher_can_stop bbs ord client (Suc (Suc k)) s"
  by (rule can_stop_Suc [OF _ member_step.enter]) (simp_all add: waiting_can_stop)

lemma watcher_stops:
  assumes alive: "\<not> sys_crashed s" and "call_returns bbs ord client af s"
  shows "watcher_can_stop bbs ord client 3 s"
proof (cases "sys_position s")
  case BeforeReady
  with alive have "watcher_can_stop bbs ord client (Suc (Suc (Suc 0))) s"
    by (intro can_stop_Suc [OF _ member_step.ready] entering_can_stop) simp_all
  then show ?thesis by (simp only: numeral_3_eq_3)
next
  case Entering
  with entering_can_stop [where k = 1] alive show ?thesis by (simp only: numeral_3_eq_3 One_nat_def)
next
  case Waiting
  with waiting_can_stop [where k = 2] alive show ?thesis by (simp only: numeral_3_eq_3 numeral_2_eq_2)
next
  case (InEvent e)
  with assms obtain wa where "on_event bbs e (sys_watcher s) = Some wa" by (auto simp: call_returns_def)
  with InEvent alive have "watcher_can_stop bbs ord client (Suc (Suc (Suc 0))) s"
    by (intro can_stop_Suc [OF _ member_step.event_done] entering_can_stop) simp_all
  then show ?thesis by (simp only: numeral_3_eq_3)
next
  case InSync
  with assms obtain wa where "on_sync bbs ord client af (sys_watcher s) = Some wa"
    by (auto simp: call_returns_def)
  with InSync alive have "watcher_can_stop bbs ord client (Suc (Suc (Suc 0))) s"
    by (intro can_stop_Suc [OF _ member_step.sync_done] entering_can_stop) simp_all
  then show ?thesis by (simp only: numeral_3_eq_3)
next
  case Finished
  then show ?thesis using alive by (rule finished_can_stop)
qed

text \<open>The syncer of a system whose watcher has returned: its loop can end too.\<close>

definition syncer_can_stop ::
  "bbs_models \<Rightarrow> ('w \<Rightarrow> routing_key range_order) \<Rightarrow> 'w bbs_client \<Rightarrow> nat \<Rightarrow> 'w system \<Rightarrow> bool" where
  "syncer_can_stop bbs ord client k s \<longleftrightarrow> (\<exists>s'. system_within bbs ord client k s s' \<and>
     sys_position s' = Finished \<and> sy_phase (sys_syncer s') \<in> {NotStarted, Returned})"

text \<open>The ticker of the syncer is made or can be.\<close>

definition ticker_fine :: "'w system \<Rightarrow> bool" where
  "ticker_fine s \<longleftrightarrow> NewTicker (sy_clock (sys_syncer s)) (sy_syncInterval (sys_syncer s))"

lemma syncer_stop_Suc:
  "\<not> sys_crashed s \<Longrightarrow> member_step bbs ord client s s1 \<Longrightarrow> syncer_can_stop bbs ord client k s1 \<Longrightarrow>
   syncer_can_stop bbs ord client (Suc k) s"
  unfolding syncer_can_stop_def using within_Suc by metis

lemma done_can_stop:
  "sys_position s = Finished \<Longrightarrow> sy_phase (sys_syncer s) \<in> {NotStarted, Returned} \<Longrightarrow>
   syncer_can_stop bbs ord client k s"
  unfolding syncer_can_stop_def using within_0 by blast

lemma selecting_can_stop:
  assumes "sys_position s = Finished" "\<not> sys_crashed s" "sy_phase (sys_syncer s) = Selecting"
  shows "syncer_can_stop bbs ord client (Suc k) s"
  using assms(2)
  by (rule syncer_stop_Suc [OF _ member_step.syncer_stops
        [where y = "(sys_syncer s)\<lparr>sy_phase := Returned\<rparr>"] done_can_stop])
    (use assms in \<open>simp_all add: syncer_signal_def\<close>)

lemma ticker_can_stop:
  assumes "sys_position s = Finished" "\<not> sys_crashed s" "sy_phase (sys_syncer s) = MakingTicker" "ticker_fine s"
  shows "syncer_can_stop bbs ord client (Suc (Suc k)) s"
  using assms(2)
  by (rule syncer_stop_Suc [OF _ member_step.make_ticker
        [where y = "(sys_syncer s)\<lparr>sy_phase := Selecting\<rparr>"] selecting_can_stop])
    (use assms in \<open>simp_all add: syncer_ticker_def ticker_fine_def\<close>)

lemma requesting_can_stop:
  assumes "sys_position s = Finished" "\<not> sys_crashed s" "sync_due (sys_syncer s)" "ticker_fine s"
  shows "syncer_can_stop bbs ord client (Suc (Suc (Suc k))) s"
proof -
  let ?ph = "if sy_phase (sys_syncer s) = Starting then MakingTicker else Selecting"
  let ?y = "(sys_syncer s)\<lparr>sy_phase := ?ph, sy_dropped := Suc (sy_dropped (sys_syncer s))\<rparr>"
  let ?s = "s\<lparr>sys_syncer := ?y, sys_position := (if receiver_waits s then InSync else sys_position s)\<rparr>"
  have pos: "\<not> receiver_waits s" using assms(1) by (simp add: receiver_waits_def)
  have "member_step bbs ord client s ?s"
    by (rule member_step.request) (use assms(3) pos in \<open>auto simp: sync_send_def sync_due_def\<close>)
  moreover have "syncer_can_stop bbs ord client (Suc (Suc k)) ?s"
  proof (cases "sy_phase (sys_syncer s) = Starting")
    case True
    with assms pos show ?thesis by (intro ticker_can_stop) (simp_all add: ticker_fine_def)
  next
    case False
    with assms pos show ?thesis by (intro selecting_can_stop) simp_all
  qed
  ultimately show ?thesis by (rule syncer_stop_Suc [OF assms(2)])
qed

lemma syncer_stops_too:
  assumes "sys_position s = Finished" "\<not> sys_crashed s" "ticker_fine s"
  shows "syncer_can_stop bbs ord client 3 s"
proof (cases "sy_phase (sys_syncer s)")
  case MakingTicker
  with ticker_can_stop [where k = 1] assms show ?thesis by (simp only: numeral_3_eq_3 One_nat_def)
next
  case Selecting
  with selecting_can_stop [where k = 2] assms show ?thesis by (simp only: numeral_3_eq_3 numeral_2_eq_2)
next
  case Starting
  then have "sync_due (sys_syncer s)" by (simp add: sync_due_def)
  with requesting_can_stop [where k = 0] assms show ?thesis by (simp only: numeral_3_eq_3)
next
  case Requesting
  then have "sync_due (sys_syncer s)" by (simp add: sync_due_def)
  with requesting_can_stop [where k = 0] assms show ?thesis by (simp only: numeral_3_eq_3)
qed (rule done_can_stop [OF assms(1)], simp)+

lemma system_run_refines:
  assumes "system_steps bbs ord client (system_start clk h w interval) s" and "settled bbs s = Some wa"
  shows "watcher_steps bbs ord client (watcher_start h w) wa"
  using assms
proof (induction arbitrary: wa rule: rtranclp_induct)
  case base
  then show ?case by (simp add: settled_start)
next
  case (step s s')
  have "system_ok s" using system_ok_steps [OF step.hyps(1) system_ok_start] .
  from settled_step [OF step.hyps(2) this step.prems] obtain wb
    where "settled bbs s = Some wb" and wb: "wa = wb \<or> watcher_step bbs ord client wb wa" by blast
  with step.IH have "watcher_steps bbs ord client (watcher_start h w) wb" by blast
  with wb show ?case by (auto intro: rtranclp.rtrancl_into_rtrancl)
qed

text \<open>The syncer is faster than the watcher: its first request is dropped.\<close>

lemma request_lost:
  assumes "NewTicker clk interval"
  shows "\<exists>s. system_steps bbs ord client (system_start clk h w interval) s \<and> sys_position s = Waiting \<and>
     sy_phase (sys_syncer s) = Selecting \<and> \<not> sys_crashed s \<and> sy_dropped (sys_syncer s) = 1"
proof -
  let ?y1 = "(syncer_New clk interval)\<lparr>sy_phase := Starting\<rparr>"
  let ?y2 = "?y1\<lparr>sy_phase := MakingTicker, sy_dropped := 1\<rparr>"
  let ?y3 = "?y2\<lparr>sy_phase := Selecting\<rparr>"
  let ?s0 = "system_start clk h w interval"
  let ?s1 = "?s0\<lparr>sys_position := Entering\<rparr>"
  let ?s2 = "?s1\<lparr>sys_syncer := ?y1\<rparr>"
  let ?s3 = "?s2\<lparr>sys_syncer := ?y2, sys_position := (if receiver_waits ?s2 then InSync else sys_position ?s2)\<rparr>"
  let ?s4 = "?s3\<lparr>sys_position := Waiting\<rparr>"
  let ?s5 = "?s4\<lparr>sys_syncer := ?y3\<rparr>"
  note defs = system_start_def syncer_New_def syncer_defs receiver_waits_def
  have "system_step bbs ord client ?s0 ?s1"
    by (intro system_step.member member_step.ready) (simp_all add: defs)
  moreover have "system_step bbs ord client ?s1 ?s2"
    by (intro system_step.member member_step.start_syncer) (simp_all add: defs)
  moreover have "system_step bbs ord client ?s2 ?s3"
    by (intro system_step.member member_step.request) (simp_all add: defs)
  moreover have "system_step bbs ord client ?s3 ?s4"
    by (intro system_step.member member_step.enter) (simp_all add: defs)
  moreover have "system_step bbs ord client ?s4 ?s5"
    by (intro system_step.member member_step.make_ticker) (simp_all add: defs assms)
  ultimately have "system_steps bbs ord client ?s0 ?s5"
    by (meson converse_rtranclp_into_rtranclp rtranclp.rtrancl_refl)
  then show ?thesis by (intro exI [of _ ?s5]) (simp add: system_start_def)
qed

subsection \<open>Properties\<close>

text \<open>
  C12: The system does nothing the atomic watcher could not do. In every state the system reaches whose
  call in progress does not panic, the watcher with the event in progress handled is a reachable
  watcher: one goroutine, events in order, an idle handler between calls and a sound table, whatever
  the syncer and the goroutine did while the watcher was busy.
\<close>

theorem system_refines_watcher:
  assumes "system_steps bbs ord client (system_start clk h w interval) s" and "settled bbs s = Some wa"
  shows "watcher_steps bbs ord client (watcher_start h w) wa"
  using assms by (rule system_run_refines)

text \<open>
  C16: Every request of the syncer is accounted for. It makes one at its start and one per tick; each is
  either dropped, at once and for good, or starts exactly one sync of the watcher. So the syncs done,
  the one in progress and the requests dropped are together none before the syncer runs, as many as the
  ticks while a request is due (the first one, or the one of the last tick, still to be made), and one
  more than the ticks otherwise: never more syncs than ticks and the first request, and no sync
  without a request.
\<close>

theorem sync_requests_accounted:
  assumes "system_steps bbs ord client (system_start clk h w interval) s"
  shows "sys_syncs s + (if sys_position s = InSync then 1 else 0) + sy_dropped (sys_syncer s) =
    (if sy_phase (sys_syncer s) = NotStarted then 0
     else sy_ticks (sys_syncer s) + (if sync_due (sys_syncer s) then 0 else 1))"
proof -
  have "system_ok s" using system_ok_steps [OF assms system_ok_start] .
  then show ?thesis by (auto simp: system_ok_def syncer_ok_def split: if_splits)
qed

text \<open>
  C17: The first sync can get lost. The watcher closes its \<open>ready\<close> channel, which lets the syncer start,
  before it waits in its select; if the syncer is faster, its first send finds no receiver and is dropped
  as \<open>sync-already-in-progress\<close>. Then no sync at all is done or begun before the next tick.
\<close>

theorem initial_sync_can_be_lost:
  assumes "NewTicker clk interval"
  shows "\<exists>s. system_steps bbs ord client (system_start clk h w interval) s \<and> sys_position s = Waiting \<and>
     sy_phase (sys_syncer s) = Selecting \<and> \<not> sys_crashed s \<and>
     {s'. system_steps bbs ord client s s' \<and> sy_ticks (sys_syncer s') = 0 \<and>
        (sys_position s' = InSync \<or> 0 < sys_syncs s')} = {}"
proof -
  obtain s where run: "system_steps bbs ord client (system_start clk h w interval) s"
    and at: "sys_position s = Waiting" "sy_phase (sys_syncer s) = Selecting" "\<not> sys_crashed s"
    and lost: "sy_dropped (sys_syncer s) = 1"
    using request_lost [OF assms, of bbs ord client h w] by (elim exE conjE)
  have "\<not> (sys_position s' = InSync \<or> 0 < sys_syncs s')"
    if "system_steps bbs ord client s s'" "sy_ticks (sys_syncer s') = 0" for s'
  proof -
    have "system_ok s'"
      using system_ok_steps [OF that(1) system_ok_steps [OF run system_ok_start]] .
    moreover have "1 \<le> sy_dropped (sys_syncer s')" using dropped_mono [OF that(1)] lost by simp
    ultimately show ?thesis using that(2) by (auto simp: system_ok_def syncer_ok_def split: if_splits)
  qed
  with run at show ?thesis by blast
qed

text \<open>
  C18: The system can be stopped. From any state that has not crashed, whose call in progress does not
  panic and whose interval the clock accepts, there are at most six steps after which the watcher is at
  its end and the syncer has returned or was never started: the call returns, the watcher is back in
  its select and takes the signal, and a syncer that runs, whose send cannot block, makes its ticker if
  it has none and takes its own.
\<close>

theorem system_can_stop:
  assumes "\<not> sys_crashed s" and "call_returns bbs ord client af s"
    and "NewTicker (sy_clock (sys_syncer s)) (sy_syncInterval (sys_syncer s))"
  shows "\<exists>s'. system_within bbs ord client 6 s s' \<and> sys_position s' = Finished \<and>
    sy_phase (sys_syncer s') \<in> {NotStarted, Returned}"
proof -
  from watcher_stops [OF assms(1,2)] obtain s1 where w: "system_within bbs ord client 3 s s1"
    and at: "sys_position s1 = Finished" "\<not> sys_crashed s1" and same: "sys_syncer s1 = sys_syncer s"
    unfolding watcher_can_stop_def by blast
  from same assms(3) have "ticker_fine s1" by (simp add: ticker_fine_def)
  from syncer_stops_too [OF at this] obtain s' where "system_within bbs ord client 3 s1 s'"
    and fin: "sys_position s' = Finished" "sy_phase (sys_syncer s') \<in> {NotStarted, Returned}"
    unfolding syncer_can_stop_def by blast
  from within_add [OF w this(1)] have "system_within bbs ord client 6 s s'" by simp
  with fin show ?thesis by blast
qed

subsection \<open>Witnesses\<close>

text \<open>Go's clock, whose \<open>NewTicker\<close> panics unless the interval is positive.\<close>

definition real_clock :: clock where
  "real_clock = \<lparr>NewTicker = \<lambda>d. 0 < d\<rparr>"

text \<open>A run to the first sync: the group starts, the watcher waits, the request gets through.\<close>

definition sample_syncing :: "label set system" where
  "sample_syncing =
     \<lparr>sys_watcher = watcher_start sample_handler {}, sys_position = InSync,
      sys_syncer = \<lparr>sy_clock = real_clock, sy_syncInterval = 20, sy_phase = MakingTicker, sy_sent = 1,
         sy_dropped = 0, sy_ticks = 0\<rparr>,
      sys_syncs = 0, sys_crashed = False\<rparr>"

lemma sample_syncing_run:
  "system_steps sample_bbs (\<lambda>_. sorted_order) sample_client (system_start real_clock sample_handler {} 20) sample_syncing"
proof -
  let ?step = "system_step sample_bbs (\<lambda>_. sorted_order) sample_client"
  let ?y = "(syncer_New real_clock 20)\<lparr>sy_phase := Starting\<rparr>"
  let ?s0 = "system_start real_clock sample_handler {} 20"
  let ?s1 = "?s0\<lparr>sys_position := Entering\<rparr>"
  let ?s2 = "?s1\<lparr>sys_position := Waiting\<rparr>"
  let ?s3 = "?s2\<lparr>sys_syncer := ?y\<rparr>"
  note defs = system_start_def syncer_New_def syncer_defs receiver_waits_def
  have "?step ?s0 ?s1" by (intro system_step.member member_step.ready) (simp_all add: defs)
  moreover have "?step ?s1 ?s2" by (intro system_step.member member_step.enter) (simp_all add: defs)
  moreover have "?step ?s2 ?s3"
    by (intro system_step.member member_step.start_syncer) (simp_all add: defs)
  moreover have "?step ?s3 sample_syncing"
    using system_step.member [OF _ member_step.request
        [where s = ?s3 and y = "?y\<lparr>sy_phase := MakingTicker, sy_sent := 1\<rparr>"]]
    by (simp add: defs sample_syncing_def)
  ultimately show ?thesis by (meson converse_rtranclp_into_rtranclp rtranclp.rtrancl_refl)
qed

lemma system_refines_watcher_witness:
  "\<exists>s wa. system_steps sample_bbs (\<lambda>_. sorted_order) sample_client (system_start real_clock sample_handler {} 20) s \<and>
     sys_position s = InSync \<and> settled sample_bbs s = Some wa \<and>
     watcher_steps sample_bbs (\<lambda>_. sorted_order) sample_client (watcher_start sample_handler {}) wa"
proof -
  have settled: "settled sample_bbs sample_syncing = Some (sys_watcher sample_syncing)"
    and "sys_position sample_syncing = InSync"
    by (simp_all add: settled_def sample_syncing_def)
  with sample_syncing_run system_refines_watcher [OF sample_syncing_run settled] show ?thesis by blast
qed

lemma sync_requests_accounted_witness:
  "sy_phase (sys_syncer sample_syncing) = MakingTicker \<and>
   sys_syncs sample_syncing + 1 + sy_dropped (sys_syncer sample_syncing) =
     sy_ticks (sys_syncer sample_syncing) + 1"
  using sync_requests_accounted [OF sample_syncing_run] by (simp add: sample_syncing_def sync_due_def)

lemma initial_sync_can_be_lost_witness:
  "\<exists>s. system_steps sample_bbs (\<lambda>_. sorted_order) sample_client (system_start real_clock sample_handler {} 20) s \<and>
     sys_position s = Waiting \<and> \<not> sys_crashed s \<and>
     {s'. system_steps sample_bbs (\<lambda>_. sorted_order) sample_client s s' \<and> sy_ticks (sys_syncer s') = 0 \<and>
        (sys_position s' = InSync \<or> 0 < sys_syncs s')} = {}"
  using initial_sync_can_be_lost [of real_clock 20 sample_bbs "\<lambda>_. sorted_order" sample_client sample_handler "{}"]
  by (auto simp: real_clock_def)

lemma system_can_stop_witness:
  "\<exists>s'. system_within sample_bbs (\<lambda>_. sorted_order) sample_client 6 sample_syncing s' \<and>
     sys_position s' = Finished \<and> sy_phase (sys_syncer s') \<in> {NotStarted, Returned}"
proof -
  have "on_sync sample_bbs (\<lambda>_. sorted_order) sample_client True (sys_watcher sample_syncing) \<noteq> None"
    by (simp add: on_sync_def Sync_def sync_fetch_def sample_client_def fetch_actual_def fetch_desired_def
        build_table_def sync_end_def sync_begin_def applyCachedEvents_def sample_syncing_def watcher_start_def)
  then have "call_returns sample_bbs (\<lambda>_. sorted_order) sample_client True sample_syncing"
    by (simp add: call_returns_def sample_syncing_def)
  then show ?thesis
    by (rule system_can_stop [rotated]) (simp_all add: sample_syncing_def real_clock_def)
qed

end
