(* ===== verification/Crash.thy ===== *)
theory Crash
  imports System
begin

text \<open>
  When the process crashes. A panic in any goroutine ends the program; in the code these are the
  dereferences of incomplete event data, the \<open>Resolve\<close> of a group without an LRP, both in calls of the
  handler, and \<open>NewTicker\<close> for an interval the clock does not accept.
\<close>

text \<open>The BBS answers a sync with a group that does not resolve, asked first or second.\<close>

definition answer_incomplete :: "bbs_models \<Rightarrow> 'w bbs_client \<Rightarrow> 'w \<Rightarrow> bool" where
  "answer_incomplete bbs client w \<longleftrightarrow>
     (\<exists>w1 groups. w1 \<in> {w, snd (DesiredLRPSchedulingInfos client w)} \<and>
        fst (ActualLRPGroups client w1) = Inr groups \<and> list_ex (\<lambda>g. Resolve bbs g = None) groups)"

lemma on_event_None:
  "\<not> h_syncing (wa_handler wa) \<Longrightarrow> on_event bbs e wa = None \<longleftrightarrow> event_incomplete bbs e"
  by (simp add: on_event_def HandleEvent_def handleEvent_eq step_result_def on_table_None event_call_None)

lemma on_sync_None:
  "(\<exists>af. on_sync bbs ord client af wa = None) \<longleftrightarrow> answer_incomplete bbs client (wa_world wa)"
  unfolding on_sync_def answer_incomplete_def map_option_is_None Sync_panics_only_in_Resolve ex_bool_eq
  by (auto simp: fetch_desired_def split: sum.splits)

subsection \<open>What stays as it is\<close>

text \<open>The handler is idle whenever the watcher calls it.\<close>

abbreviation idle :: "'w system \<Rightarrow> bool" where
  "idle s \<equiv> \<not> h_syncing (wa_handler (sys_watcher s))"

lemma on_event_idle:
  "on_event bbs e wa = Some wa' \<Longrightarrow> \<not> h_syncing (wa_handler wa) \<Longrightarrow> \<not> h_syncing (wa_handler wa')"
  by (auto simp: on_event_def HandleEvent_def dest: handleEvent_syncing)

lemma on_sync_idle: "on_sync bbs ord client af wa = Some wa' \<Longrightarrow> \<not> h_syncing (wa_handler wa')"
  by (auto simp: on_sync_def Sync_def sync_end_def bind_eq_Some_conv)

lemma member_idle: "member_step bbs ord client s s' \<Longrightarrow> idle s \<Longrightarrow> idle s'"
  by (induction rule: member_step.induct)
    (auto simp: checker_keeps on_resubscribe_def on_signal_def Let_def dest: on_event_idle on_sync_idle)

lemma system_idle: "system_steps bbs ord client s s' \<Longrightarrow> idle s \<Longrightarrow> idle s'"
  by (induction rule: rtranclp_induct) (auto elim!: system_step.cases dest: member_idle)

text \<open>The clock and the interval of the syncer.\<close>

definition same_ticker :: "'w system \<Rightarrow> 'w system \<Rightarrow> bool" where
  "same_ticker s s' \<longleftrightarrow> sy_clock (sys_syncer s') = sy_clock (sys_syncer s) \<and>
     sy_syncInterval (sys_syncer s') = sy_syncInterval (sys_syncer s)"

lemma member_ticker: "member_step bbs ord client s s' \<Longrightarrow> same_ticker s s'"
  by (induction rule: member_step.induct) (auto simp: same_ticker_def syncer_keeps)

lemma system_ticker: "system_steps bbs ord client s s' \<Longrightarrow> same_ticker s s'"
proof (induction rule: rtranclp_induct)
  case (step s1 s2)
  from step.hyps(2) have "same_ticker s1 s2"
    by (cases rule: system_step.cases) (auto simp: same_ticker_def dest: member_ticker)
  with step.IH show ?case by (simp add: same_ticker_def)
qed (simp add: same_ticker_def)

lemma started_ticker:
  assumes "system_steps bbs ord client (system_start clk h w interval) s"
  shows "sy_clock (sys_syncer s) = clk" "sy_syncInterval (sys_syncer s) = interval"
  using system_ticker [OF assms] by (simp_all add: same_ticker_def system_start_def syncer_New_def)

subsection \<open>Properties\<close>

lemma crash_step_iff:
  assumes "\<not> sys_crashed s"
  shows "(\<exists>s'. system_step bbs ord client s s' \<and> sys_crashed s') \<longleftrightarrow>
    (\<exists>e. sys_position s = InEvent e \<and> on_event bbs e (sys_watcher s) = None) \<or>
    (sys_position s = InSync \<and> (\<exists>af. on_sync bbs ord client af (sys_watcher s) = None)) \<or>
    ticker_panics (sys_syncer s)"
proof
  assume "\<exists>s'. system_step bbs ord client s s' \<and> sys_crashed s'"
  then obtain s' where "system_step bbs ord client s s'" "sys_crashed s'" by blast
  then show "(\<exists>e. sys_position s = InEvent e \<and> on_event bbs e (sys_watcher s) = None) \<or>
    (sys_position s = InSync \<and> (\<exists>af. on_sync bbs ord client af (sys_watcher s) = None)) \<or>
    ticker_panics (sys_syncer s)"
    by (cases rule: system_step.cases) (auto dest: member_alive)
next
  have "sys_crashed (s\<lparr>sys_crashed := True\<rparr>)" by simp
  moreover assume "(\<exists>e. sys_position s = InEvent e \<and> on_event bbs e (sys_watcher s) = None) \<or>
    (sys_position s = InSync \<and> (\<exists>af. on_sync bbs ord client af (sys_watcher s) = None)) \<or>
    ticker_panics (sys_syncer s)"
  then have "system_step bbs ord client s (s\<lparr>sys_crashed := True\<rparr>)"
    using assms by (auto intro: system_step.event_panic system_step.sync_panic system_step.ticker_panic)
  ultimately show "\<exists>s'. system_step bbs ord client s s' \<and> sys_crashed s'" by blast
qed

text \<open>What the next step panics on, in terms of the events, the answers of the BBS and the clock.\<close>

definition panics_next ::
  "bbs_models \<Rightarrow> 'w bbs_client \<Rightarrow> clock \<Rightarrow> int \<Rightarrow> 'w system \<Rightarrow> bool" where
  "panics_next bbs client clk interval s \<longleftrightarrow>
     (\<exists>e. sys_position s = InEvent e \<and> event_incomplete bbs e) \<or>
     (sys_position s = InSync \<and> answer_incomplete bbs client (wa_world (sys_watcher s))) \<or>
     (sy_phase (sys_syncer s) = MakingTicker \<and> \<not> NewTicker clk interval)"

lemma crash_condition:
  assumes "system_steps bbs ord client (system_start clk h w interval) s" and "\<not> h_syncing h"
    and "\<not> sys_crashed s"
  shows "(\<exists>s'. system_step bbs ord client s s' \<and> sys_crashed s') \<longleftrightarrow> panics_next bbs client clk interval s"
proof -
  have "idle s"
    using system_idle [OF assms(1)] assms(2) by (simp add: system_start_def watcher_start_def)
  moreover have "ticker_panics (sys_syncer s) \<longleftrightarrow> sy_phase (sys_syncer s) = MakingTicker \<and> \<not> NewTicker clk interval"
    by (simp add: ticker_panics_def started_ticker [OF assms(1)])
  ultimately show ?thesis
    by (simp add: crash_step_iff [OF assms(3)] on_event_None on_sync_None panics_next_def)
qed

text \<open>A crash is reached exactly from a state that has not crashed.\<close>

lemma crash_reached:
  assumes "\<not> h_syncing h"
  shows "(\<exists>s. system_steps bbs ord client (system_start clk h w interval) s \<and> sys_crashed s) \<longleftrightarrow>
    (\<exists>s. system_steps bbs ord client (system_start clk h w interval) s \<and> \<not> sys_crashed s \<and>
       panics_next bbs client clk interval s)"
    (is "(\<exists>s. ?run s \<and> _) = ?right")
proof
  assume "\<exists>s. ?run s \<and> sys_crashed s"
  then obtain s where "?run s" "sys_crashed s" by blast
  then show ?right
  proof (cases rule: rtranclp.cases)
    case (rtrancl_into_rtrancl s1)
    moreover from this have "\<not> sys_crashed s1" by (auto elim: system_step.cases)
    ultimately show ?thesis using crash_condition [OF _ assms, of bbs ord client clk w interval s1] \<open>sys_crashed s\<close> by blast
  qed (simp add: system_start_def)
next
  assume ?right
  then obtain s where "?run s" "\<not> sys_crashed s" "panics_next bbs client clk interval s" by blast
  with crash_condition [OF this(1) assms this(2)] show "\<exists>s. ?run s \<and> sys_crashed s"
    by (blast intro: rtranclp.rtrancl_into_rtrancl)
qed

text \<open>
  C14: Exactly when the process can crash. In a state that has not crashed, the next step can be a panic if
  and only if the watcher is in a call of the handler with an event that lacks data, or in a sync to
  which the BBS may answer with a group that does not resolve, or the syncer is about to make a ticker
  of an interval the clock does not accept. Once crashed, nothing happens any more.
\<close>

theorem crash_exactly:
  assumes "system_steps bbs ord client (system_start clk h w interval) s" and "\<not> h_syncing h"
  shows "(\<not> sys_crashed s \<longrightarrow> (\<exists>s'. system_step bbs ord client s s' \<and> sys_crashed s') =
      ((\<exists>e. sys_position s = InEvent e \<and> event_incomplete bbs e) \<or>
       (sys_position s = InSync \<and> answer_incomplete bbs client (wa_world (sys_watcher s))) \<or>
       (sy_phase (sys_syncer s) = MakingTicker \<and> \<not> NewTicker clk interval))) \<and>
    (sys_crashed s \<longrightarrow> (\<nexists>s'. system_step bbs ord client s s'))"
  using crash_condition [OF assms] unfolding panics_next_def by (auto elim: system_step.cases)

subsection \<open>Witness\<close>

text \<open>In the sample's first sync nothing can crash.\<close>

lemma crash_exactly_witness:
  "\<not> sys_crashed sample_syncing \<and> sys_position sample_syncing = InSync \<and>
   (\<nexists>s'. system_step sample_bbs (\<lambda>_. sorted_order) sample_client sample_syncing s' \<and> sys_crashed s')"
proof -
  have "\<not> h_syncing sample_handler" by simp
  from crash_exactly [OF sample_syncing_run this] show ?thesis
    by (simp add: sample_syncing_def real_clock_def answer_incomplete_def sample_client_def)
qed

end
