(* ===== verification/Announcement.thy ===== *)
theory Announcement
  imports Handler_Sync
begin

text \<open>
  The whole way of an announcement, from the BBS event to the mappings the routing API holds: the
  handler's calls of the table, the events, their translation to requests and the emitter's two
  attempts. The registry of \<open>Route_Registry\<close> speaks of labels; here a route is a label together with the
  external endpoint and the backend the request is made of, so what \<open>Valid\<close> rejects, the 16-bit ports
  and the router groups are seen.

  Two labels may give the same mapping (two external ports that are equal modulo \<open>2 ^ 16\<close>, a host and
  port reused by another instance). Then unregistering one takes away the other; the theorems assume
  that this does not happen among the routes concerned.
\<close>

subsection \<open>Routes with what their requests are made of\<close>

type_synonym route = "label \<times> external_endpoint_info \<times> endpoint"

text \<open>\<open>P\<close> selects the entries by their external endpoints.\<close>

type_synonym ext_filter = "external_endpoint_info list \<Rightarrow> bool"

definition any_ports :: ext_filter where
  "any_ports exts = True"

definition zero_free :: ext_filter where
  "zero_free exts \<longleftrightarrow> 0 \<notin> ports exts"

definition entry_routes :: "ext_filter \<Rightarrow> routing_key \<Rightarrow> routable_endpoints \<Rightarrow> route set" where
  "entry_routes P key e =
     {((key, ee_Port x, k), x, ep) | x k ep. P (re_ExternalEndpoints e) \<and>
        x \<in> set (re_ExternalEndpoints e) \<and> fmlookup (re_Endpoints e) k = Some ep}"

definition table_routes :: "ext_filter \<Rightarrow> routing_table \<Rightarrow> route set" where
  "table_routes P t = (\<Union>key. entry_routes P key (entry_at t key))"

definition routes_of_type :: "ext_filter \<Rightarrow> routing_event_type \<Rightarrow> routing_event list \<Rightarrow> route set" where
  "routes_of_type P ty rs =
     (\<Union>r \<in> {r \<in> set rs. ev_EventType r = ty}. entry_routes P (ev_Key r) (ev_Entry r))"

lemma in_entry_routes [simp]:
  "((key', p, k), x, ep) \<in> entry_routes P key e \<longleftrightarrow>
     key' = key \<and> p = ee_Port x \<and> P (re_ExternalEndpoints e) \<and> x \<in> set (re_ExternalEndpoints e) \<and>
     fmlookup (re_Endpoints e) k = Some ep"
  by (auto simp: entry_routes_def)

lemma in_table_routes:
  "((key, p, k), x, ep) \<in> table_routes P t \<longleftrightarrow>
     p = ee_Port x \<and> P (re_ExternalEndpoints (entry_at t key)) \<and>
     x \<in> set (re_ExternalEndpoints (entry_at t key)) \<and> fmlookup (re_Endpoints (entry_at t key)) k = Some ep"
  by (auto simp: table_routes_def)

lemma entry_routes_empty: "\<not> deliverable e \<Longrightarrow> entry_routes P key e = {}"
  by (auto simp: deliverable_def entry_routes_def)

lemma routes_of_type_simps [simp]:
  "routes_of_type P ty [] = {}"
  "routes_of_type P ty (rs @ rs') = routes_of_type P ty rs \<union> routes_of_type P ty rs'"
  "routes_of_type P ty (createRoutingEvent key e ty') = (if ty' = ty then entry_routes P key e else {})"
  by (auto simp: routes_of_type_def createRoutingEvent_eq entry_routes_empty)

lemma table_routes_new [simp]: "table_routes P (NewTable None) = {}"
  by (auto simp: table_routes_def entry_routes_def)

lemma any_ports: "any_ports exts"
  by (simp add: any_ports_def)

lemma labels_of_routes:
  "fst ` table_routes any_ports t = table_labels t"
  "fst ` routes_of_type any_ports ty rs = labels_of_type ty rs"
proof -
  have "fst ` entry_routes any_ports key e = entry_labels key e" for key e
    by (auto simp: any_ports entry_routes_def entry_labels_def image_iff ports_iff fmlookup_dom_iff)
  then show "fst ` table_routes any_ports t = table_labels t"
    and "fst ` routes_of_type any_ports ty rs = labels_of_type ty rs"
    by (simp_all add: table_routes_def table_labels_def routes_of_type_def labels_of_type_def
        event_labels_def image_UN)
qed

lemma routes_filter:
  "table_routes P t \<subseteq> table_routes any_ports t"
  "routes_of_type P ty rs \<subseteq> routes_of_type any_ports ty rs"
  by (auto simp: any_ports table_routes_def routes_of_type_def entry_routes_def)

subsection \<open>What a step announces\<close>

text \<open>
  The contract of the table's operations: a route of the table after the step was one before or is
  announced by an event of the step, and only routes the table had are taken back.
\<close>

locale announcing_step =
  fixes body :: "'a \<Rightarrow> routing_table \<Rightarrow> routing_event list \<times> routing_table"
  assumes step_keeps: "table_routes P (snd (body a t)) \<subseteq>
      table_routes P t \<union> routes_of_type P RouteRegistrationEvent (fst (body a t))"
    and step_takes: "routes_of_type any_ports RouteUnregistrationEvent (fst (body a t)) \<subseteq>
      table_routes any_ports t"
begin

lemma loop_keeps:
  "table_routes P (snd (loop_events body xs t)) \<subseteq>
     table_routes P t \<union> routes_of_type P RouteRegistrationEvent (fst (loop_events body xs t))"
proof (induction xs arbitrary: t)
  case (Cons a xs)
  from Cons.IH [of "snd (body a t)"] step_keeps [of P a t] show ?case by auto
qed simp

lemma loop_takes:
  "routes_of_type any_ports RouteUnregistrationEvent (fst (loop_events body xs t)) \<subseteq>
     table_routes any_ports t \<union> routes_of_type any_ports RouteRegistrationEvent (fst (loop_events body xs t))"
proof (induction xs arbitrary: t)
  case (Cons a xs)
  from Cons.IH [of "snd (body a t)"] step_takes [of a t] step_keeps [of any_ports a t] show ?case by auto
qed simp

end

interpretation add_route_announcing: announcing_step "add_route bbs info routes" for bbs info routes
  by unfold_locales
    (auto simp: any_ports fst_add_route snd_add_route route_events_def takes_routes_def in_table_routes
      ext_Remove_filter split: if_splits)

interpretation remove_key_announcing: announcing_step "remove_key bbs tag" for bbs tag
  by unfold_locales
    (auto simp: any_ports remove_key_eq in_table_routes entry_at_Some split: option.splits if_splits)

interpretation add_endpoint_announcing: announcing_step "at_port m (addEndpoint bbs)" for m bbs
  by unfold_locales
    (auto simp: any_ports at_port_def addEndpoint_eq in_table_routes split: option.splits if_splits)

interpretation remove_endpoint_announcing: announcing_step "at_port m (removeEndpoint bbs)" for m bbs
  by unfold_locales
    (auto simp: any_ports at_port_def removeEndpoint_eq in_table_routes removable_endpoint_def
      split: option.splits if_splits)

lemma addRoutes_announces:
  "table_routes P (snd (addRoutes bbs info t)) \<subseteq>
     table_routes P t \<union> routes_of_type P RouteRegistrationEvent (fst (addRoutes bbs info t))"
  "routes_of_type any_ports RouteUnregistrationEvent (fst (addRoutes bbs info t)) \<subseteq>
     table_routes any_ports t \<union> routes_of_type any_ports RouteRegistrationEvent (fst (addRoutes bbs info t))"
  unfolding addRoutes_def Let_def
  by (rule add_route_announcing.loop_keeps, rule add_route_announcing.loop_takes)

lemma removeRoutingKeys_announces:
  "table_routes P (snd (removeRoutingKeys bbs ks tag t)) \<subseteq>
     table_routes P t \<union> routes_of_type P RouteRegistrationEvent (fst (removeRoutingKeys bbs ks tag t))"
  "routes_of_type any_ports RouteUnregistrationEvent (fst (removeRoutingKeys bbs ks tag t)) \<subseteq>
     table_routes any_ports t \<union>
     routes_of_type any_ports RouteRegistrationEvent (fst (removeRoutingKeys bbs ks tag t))"
  unfolding removeRoutingKeys_def
  by (rule remove_key_announcing.loop_keeps, rule remove_key_announcing.loop_takes)

lemma UpdateRoutes_announces:
  "table_routes P (snd (UpdateRoutes bbs before after t)) \<subseteq>
     table_routes P t \<union> routes_of_type P RouteRegistrationEvent (fst (UpdateRoutes bbs before after t))"
  "routes_of_type any_ports RouteUnregistrationEvent (fst (UpdateRoutes bbs before after t)) \<subseteq>
     table_routes any_ports t \<union>
     routes_of_type any_ports RouteRegistrationEvent (fst (UpdateRoutes bbs before after t))"
proof -
  let ?t = "snd (addRoutes bbs after t)"
  note add = addRoutes_announces [where bbs = bbs and info = after and t = t]
  note rem = removeRoutingKeys_announces [where bbs = bbs and t = ?t
      and ks = "keys_Remove (desired_keys bbs before) (desired_keys bbs after)"
      and tag = "Some (si_ModificationTag after)"]
  show "table_routes P (snd (UpdateRoutes bbs before after t)) \<subseteq>
     table_routes P t \<union> routes_of_type P RouteRegistrationEvent (fst (UpdateRoutes bbs before after t))"
    unfolding UpdateRoutes_fst UpdateRoutes_snd routes_of_type_simps
    using add(1) [of P] rem(1) [of P] by blast
  show "routes_of_type any_ports RouteUnregistrationEvent (fst (UpdateRoutes bbs before after t)) \<subseteq>
     table_routes any_ports t \<union>
     routes_of_type any_ports RouteRegistrationEvent (fst (UpdateRoutes bbs before after t))"
    unfolding UpdateRoutes_fst routes_of_type_simps
    using add rem(2) by blast
qed

lemma run_call_announces:
  assumes "run_call bbs c t = Some (rs, t')"
  shows "table_routes P t' \<subseteq> table_routes P t \<union> routes_of_type P RouteRegistrationEvent rs"
    and "routes_of_type any_ports RouteUnregistrationEvent rs \<subseteq>
      table_routes any_ports t \<union> routes_of_type any_ports RouteRegistrationEvent rs"
proof -
  have "table_routes P t' \<subseteq> table_routes P t \<union> routes_of_type P RouteRegistrationEvent rs \<and>
    routes_of_type any_ports RouteUnregistrationEvent rs \<subseteq>
      table_routes any_ports t \<union> routes_of_type any_ports RouteRegistrationEvent rs"
  proof (cases c)
    case (CallAddRoutes info)
    with assms have "rs = fst (addRoutes bbs info t)" "t' = snd (addRoutes bbs info t)"
      by (simp_all add: AddRoutes_def)
    with addRoutes_announces show ?thesis by metis
  next
    case (CallUpdateRoutes before after)
    with assms have "rs = fst (UpdateRoutes bbs before after t)" "t' = snd (UpdateRoutes bbs before after t)"
      by simp_all
    with UpdateRoutes_announces show ?thesis by metis
  next
    case (CallRemoveRoutes info)
    with assms have "RemoveRoutes bbs info t = (rs, t')" by simp
    then have "rs = fst (RemoveRoutes bbs info t)" "t' = snd (RemoveRoutes bbs info t)" by simp_all
    with removeRoutingKeys_announces show ?thesis unfolding RemoveRoutes_def by metis
  next
    case (CallAddEndpoint g)
    with assms obtain a ev where
      loop: "loop_events (at_port (lrp_map a ev) (addEndpoint bbs)) (lrp_keys a) t = (rs, t')"
      by (auto simp: AddEndpoint_eq)
    show ?thesis
      using add_endpoint_announcing.loop_keeps [where m = "lrp_map a ev" and bbs = bbs and t = t and xs = "lrp_keys a"]
        add_endpoint_announcing.loop_takes [where m = "lrp_map a ev" and bbs = bbs and t = t and xs = "lrp_keys a"]
      unfolding loop by auto
  next
    case (CallRemoveEndpoint g)
    with assms obtain a ev where
      loop: "loop_events (at_port (lrp_map a ev) (removeEndpoint bbs)) (lrp_keys a) t = (rs, t')"
      by (auto simp: RemoveEndpoint_eq)
    show ?thesis
      using remove_endpoint_announcing.loop_keeps [where m = "lrp_map a ev" and bbs = bbs and t = t and xs = "lrp_keys a"]
        remove_endpoint_announcing.loop_takes [where m = "lrp_map a ev" and bbs = bbs and t = t and xs = "lrp_keys a"]
      unfolding loop by auto
  qed
  then show "table_routes P t' \<subseteq> table_routes P t \<union> routes_of_type P RouteRegistrationEvent rs"
    and "routes_of_type any_ports RouteUnregistrationEvent rs \<subseteq>
      table_routes any_ports t \<union> routes_of_type any_ports RouteRegistrationEvent rs" by blast+
qed

lemma on_table_announces:
  assumes "on_table bbs e t = Some (rs, t')"
  shows "table_routes P t' \<subseteq> table_routes P t \<union> routes_of_type P RouteRegistrationEvent rs"
    and "routes_of_type any_ports RouteUnregistrationEvent rs \<subseteq>
      table_routes any_ports t \<union> routes_of_type any_ports RouteRegistrationEvent rs"
  using assms by (cases rule: on_table_cases; auto dest: run_call_announces)+

lemma routes_of_Swap:
  "routes_of_type P ty (fst (Swap ord (IsRoutingTable n) t)) =
     (\<Union>key. routes_of_type P ty (swap_events n t key))"
  by (auto simp: routes_of_type_def set_Swap)

lemma Swap_announces:
  "table_routes P n \<subseteq> routes_of_type P RouteRegistrationEvent (fst (Swap ord (IsRoutingTable n) t))"
  "routes_of_type P RouteRegistrationEvent (fst (Swap ord (IsRoutingTable n) t)) \<subseteq> table_routes P n"
  "routes_of_type any_ports RouteUnregistrationEvent (fst (Swap ord (IsRoutingTable n) t)) \<subseteq>
     table_routes any_ports t"
proof -
  have reg: "routes_of_type P RouteRegistrationEvent (swap_events n t key) = entry_routes P key (entry_at n key)" for key
    by (cases rule: entry_at_cases [of n key]) (auto simp: swap_events_def entry_routes_def)
  show "table_routes P n \<subseteq> routes_of_type P RouteRegistrationEvent (fst (Swap ord (IsRoutingTable n) t))"
    and "routes_of_type P RouteRegistrationEvent (fst (Swap ord (IsRoutingTable n) t)) \<subseteq> table_routes P n"
    by (simp_all add: routes_of_Swap reg table_routes_def)
  have "routes_of_type any_ports RouteUnregistrationEvent (swap_events n t key) \<subseteq>
      entry_routes any_ports key (entry_at t key)" for key
    by (auto simp: swap_events_def any_ports ext_Remove_filter split: option.splits)
  then show "routes_of_type any_ports RouteUnregistrationEvent (fst (Swap ord (IsRoutingTable n) t)) \<subseteq>
      table_routes any_ports t"
    by (auto simp: routes_of_Swap table_routes_def)
qed

subsection \<open>Requests and what the routing API holds\<close>

definition mapping_of :: "'m mapping_maker \<Rightarrow> int \<Rightarrow> route \<Rightarrow> 'm" where
  "mapping_of mk ttl r = request_of mk ttl (fst (snd r)) (snd (snd r))"

text \<open>The mappings of a table: its entries without an external port 0, one per external endpoint and backend.\<close>

definition table_mappings :: "'m mapping_maker \<Rightarrow> int \<Rightarrow> routing_table \<Rightarrow> 'm set" where
  "table_mappings mk ttl t =
     {request_of mk ttl x ep | key x k ep. 0 \<notin> ports (re_ExternalEndpoints (entry_at t key)) \<and>
        x \<in> set (re_ExternalEndpoints (entry_at t key)) \<and> fmlookup (re_Endpoints (entry_at t key)) k = Some ep}"

text \<open>No two labels share a mapping.\<close>

definition separate :: "'m mapping_maker \<Rightarrow> int \<Rightarrow> route set \<Rightarrow> bool" where
  "separate mk ttl S \<longleftrightarrow>
     (\<forall>r \<in> S. \<forall>r' \<in> S. mapping_of mk ttl r = mapping_of mk ttl r' \<longrightarrow> fst r = fst r')"

lemma table_mappings_routes: "table_mappings mk ttl t = mapping_of mk ttl ` table_routes zero_free t"
proof -
  have "mapping_of mk ttl ((key, ee_Port x, k), x, ep) \<in> table_mappings mk ttl t"
    if "((key, ee_Port x, k), x, ep) \<in> table_routes zero_free t" for key x k ep
    using that by (auto simp: in_table_routes zero_free_def table_mappings_def mapping_of_def)
  moreover have "request_of mk ttl x ep \<in> mapping_of mk ttl ` table_routes zero_free t"
    if "0 \<notin> ports (re_ExternalEndpoints (entry_at t key))" "x \<in> set (re_ExternalEndpoints (entry_at t key))"
      "fmlookup (re_Endpoints (entry_at t key)) k = Some ep" for key x k ep
    using that by (intro image_eqI [of _ _ "((key, ee_Port x, k), x, ep)"])
      (simp_all add: in_table_routes zero_free_def mapping_of_def)
  ultimately show ?thesis
    by (auto simp: table_mappings_def table_routes_def entry_routes_def)
qed

lemma requests_are_routes:
  "(\<Union>r \<in> set (valid_events ty rs). event_requests mk ttl r) =
     mapping_of mk ttl ` routes_of_type zero_free ty rs"
proof -
  have one: "(if Valid r then event_requests mk ttl r else {}) =
      mapping_of mk ttl ` entry_routes zero_free (ev_Key r) (ev_Entry r)" for r
    by (force simp: Valid_iff event_requests_def mapping_of_def entry_routes_def zero_free_def image_iff
        fmempty_iff_lookup)
  have "(\<Union>r \<in> set (valid_events ty rs). event_requests mk ttl r) =
      (\<Union>r \<in> {r \<in> set rs. ev_EventType r = ty}. if Valid r then event_requests mk ttl r else {})"
    by (auto simp: valid_events_def split: if_splits)
  then show ?thesis unfolding one by (auto simp: routes_of_type_def)
qed

lemma emit_mappings:
  assumes "lawful_clients held em" "only_tokens_expire em" "h_emitter h = Some (Emit mk ord em)"
  shows "held (handler_emit rs h w) =
    (held w \<union> mapping_of mk (te_ttl em) ` routes_of_type zero_free RouteRegistrationEvent rs) -
      mapping_of mk (te_ttl em) ` routes_of_type zero_free RouteUnregistrationEvent rs"
proof (cases "rs = []")
  case False
  obtain regs unregs where reqs: "ToMappingRequests mk (ord w) rs (te_ttl em) = (regs, unregs)" by fastforce
  from Emit_sent [where ord = ord and w = w, OF assms(1,2) reqs] False assms(3) show ?thesis
    by (simp add: handler_emit_def ToMappingRequests_sets [OF reqs] requests_are_routes)
qed simp

text \<open>What is announced is not taken back, if the labels taken back are not those of the table.\<close>

lemma not_taken_back:
  assumes "separate mk ttl U" and "table_routes any_ports t' \<subseteq> U"
    and "routes_of_type any_ports RouteUnregistrationEvent rs \<subseteq> U"
    and "labels_of_type RouteUnregistrationEvent rs \<inter> table_labels t' = {}"
  shows "mapping_of mk ttl ` table_routes zero_free t' \<inter>
    mapping_of mk ttl ` routes_of_type zero_free RouteUnregistrationEvent rs = {}"
proof -
  have "mapping_of mk ttl r \<noteq> mapping_of mk ttl r'"
    if "r \<in> table_routes any_ports t'" and "r' \<in> routes_of_type any_ports RouteUnregistrationEvent rs" for r r'
  proof
    assume "mapping_of mk ttl r = mapping_of mk ttl r'"
    with that assms(1-3) have "fst r = fst r'" unfolding separate_def by blast
    moreover have "fst r \<in> table_labels t'" "fst r' \<in> labels_of_type RouteUnregistrationEvent rs"
      using that by (simp_all add: labels_of_routes [symmetric])
    ultimately show False using assms(4) by auto
  qed
  then show ?thesis
    using routes_filter(1) [of zero_free t'] routes_filter(2) [of zero_free RouteUnregistrationEvent rs] by blast
qed

text \<open>The call of the event merely takes ports away from an entry it is accepted by.\<close>

definition event_shrinks :: "bbs_models \<Rightarrow> bbs_event \<Rightarrow> routing_table \<Rightarrow> bool" where
  "event_shrinks bbs e t = (case event_call bbs e of Some (Some c) \<Rightarrow> call_shrinks bbs c t | _ \<Rightarrow> False)"

lemma not_shrinking_labels:
  assumes "on_table bbs e t = Some (rs, t')" and "\<not> event_shrinks bbs e t"
  shows "labels_of_type RouteUnregistrationEvent rs \<inter> table_labels t' = {}"
proof -
  have "apply_events rs (table_labels t) = table_labels t'"
  proof (cases "event_call bbs e")
    case (Some c)
    with assms show ?thesis
      by (cases c) (auto simp: on_table_def event_shrinks_def run_call_labels(2))
  qed (use assms(1) in \<open>simp add: on_table_def\<close>)
  moreover have "consistent rs" by (rule events_api.call_consistent [OF assms(1)])
  ultimately show ?thesis by (auto simp: consistent_batch apply_batch_def)
qed

text \<open>One event, among routes \<open>U\<close> no two of which share a mapping.\<close>

lemma event_announces:
  assumes "lawful_clients held em" "only_tokens_expire em" "h_emitter h = Some (Emit mk ord em)"
    and on: "on_table bbs e (h_routingTable h) = Some (rs, t')" and "\<not> event_shrinks bbs e (h_routingTable h)"
    and U: "separate mk (te_ttl em) U" "table_routes any_ports (h_routingTable h) \<subseteq> U"
      "routes_of_type any_ports RouteRegistrationEvent rs \<subseteq> U"
    and held: "mapping_of mk (te_ttl em) ` table_routes zero_free (h_routingTable h) \<subseteq> held w"
  shows "mapping_of mk (te_ttl em) ` table_routes zero_free t' \<subseteq> held (handler_emit rs h w)"
    and "table_routes any_ports t' \<subseteq> U"
proof -
  let ?m = "mapping_of mk (te_ttl em)"
  note ann = on_table_announces [OF on]
  show sub: "table_routes any_ports t' \<subseteq> U"
    using ann(1) [of any_ports] U(2,3) by blast
  have "routes_of_type any_ports RouteUnregistrationEvent rs \<subseteq> U"
    using ann(2) U(2,3) by blast
  note free = not_taken_back [OF U(1) sub this not_shrinking_labels [OF on assms(5)]]
  have "?m ` table_routes zero_free t' \<subseteq> held w \<union> ?m ` routes_of_type zero_free RouteRegistrationEvent rs"
    using ann(1) [of zero_free] held by blast
  with free show "?m ` table_routes zero_free t' \<subseteq> held (handler_emit rs h w)"
    by (auto simp: emit_mappings [OF assms(1-3)])
qed

text \<open>The end of a sync with a snapshot that has a route.\<close>

lemma swap_announces:
  assumes "lawful_clients held em" "only_tokens_expire em" "h_emitter h = Some (Emit mk ord em)"
    and U: "separate mk (te_ttl em) U" "table_routes any_ports (h_routingTable h) \<subseteq> U" "table_routes any_ports n \<subseteq> U"
  shows "mapping_of mk (te_ttl em) ` table_routes zero_free n \<subseteq>
    held (handler_emit (fst (Swap sord (IsRoutingTable n) (h_routingTable h))) h w)"
proof -
  let ?rs = "fst (Swap sord (IsRoutingTable n) (h_routingTable h))" and ?m = "mapping_of mk (te_ttl em)"
  have "labels_of_type RouteUnregistrationEvent ?rs \<inter> table_labels n = {}"
    using consistent_Swap [of sord n "h_routingTable h"]
      Swap_labels [where n = n and t = "h_routingTable h" and ord = sord]
    by (auto simp: consistent_def)
  from not_taken_back [OF U(1) U(3) _ this] Swap_announces(3) [where n = n and t = "h_routingTable h" and ord = sord] U(2)
  have "?m ` table_routes zero_free n \<inter> ?m ` routes_of_type zero_free RouteUnregistrationEvent ?rs = {}"
    by blast
  moreover have "?m ` table_routes zero_free n \<subseteq> ?m ` routes_of_type zero_free RouteRegistrationEvent ?rs"
    using Swap_announces(1) by (rule image_mono)
  ultimately show ?thesis
    unfolding emit_mappings [OF assms(1-3)] by blast
qed

text \<open>The events a list of BBS events makes the table emit, and that none of them shrinks an entry.\<close>

fun no_event_shrinks :: "bbs_models \<Rightarrow> bbs_event list \<Rightarrow> routing_table \<Rightarrow> bool" where
  "no_event_shrinks bbs [] t = True"
| "no_event_shrinks bbs (e # es) t =
     (\<not> event_shrinks bbs e t \<and>
      (case on_table bbs e t of None \<Rightarrow> True | Some (_, t') \<Rightarrow> no_event_shrinks bbs es t'))"

lemma handle_all_announces:
  assumes "lawful_clients held em" "only_tokens_expire em"
  shows "h_emitter h = Some (Emit mk ord em) \<Longrightarrow> handle_all bbs es h w = Some (h', w') \<Longrightarrow>
    no_event_shrinks bbs es (h_routingTable h) \<Longrightarrow>
    run_all (on_table bbs) es (h_routingTable h) = Some (rs, t') \<Longrightarrow>
    separate mk (te_ttl em) (table_routes any_ports (h_routingTable h) \<union>
      routes_of_type any_ports RouteRegistrationEvent rs) \<Longrightarrow>
    mapping_of mk (te_ttl em) ` table_routes zero_free (h_routingTable h) \<subseteq> held w \<Longrightarrow>
    mapping_of mk (te_ttl em) ` table_routes zero_free (h_routingTable h') \<subseteq> held w'"
proof (induction es arbitrary: h w rs)
  case (Cons e es)
  let ?t = "h_routingTable h" and ?m = "mapping_of mk (te_ttl em)"
  from Cons.prems(4) obtain rs1 t1 rs2 where on: "on_table bbs e ?t = Some (rs1, t1)"
    and rest: "run_all (on_table bbs) es t1 = Some (rs2, t')" and rs: "rs = rs1 @ rs2"
    unfolding run_all_Cons_Some by blast
  let ?h1 = "h\<lparr>h_routingTable := t1\<rparr>" and ?w1 = "handler_emit rs1 h w"
  let ?U = "table_routes any_ports ?t \<union> routes_of_type any_ports RouteRegistrationEvent rs"
  have handle: "handle_all bbs es ?h1 ?w1 = Some (h', w')"
    using Cons.prems(2) on by (simp add: handleEvent_eq)
  have free: "\<not> event_shrinks bbs e ?t" "no_event_shrinks bbs es t1" using Cons.prems(3) on by simp_all
  have "routes_of_type any_ports RouteRegistrationEvent rs1 \<subseteq> ?U" by (auto simp: rs)
  note one = event_announces [OF assms Cons.prems(1) on free(1) Cons.prems(5) Un_upper1 this Cons.prems(6)]
  have "table_routes any_ports t1 \<union> routes_of_type any_ports RouteRegistrationEvent rs2 \<subseteq> ?U"
    using one(2) by (auto simp: rs)
  with Cons.prems(5) have "separate mk (te_ttl em)
      (table_routes any_ports t1 \<union> routes_of_type any_ports RouteRegistrationEvent rs2)"
    unfolding separate_def by blast
  then show ?case
    using Cons.IH [of ?h1 ?w1 rs2] Cons.prems(1) handle free(2) rest one(1) by simp
qed simp

subsection \<open>Nothing is left behind\<close>

text \<open>
  Among the routes of \<open>S\<close> labels and mappings correspond, and all of them can be requested: no external
  port is 0.
\<close>

definition one_to_one :: "'m mapping_maker \<Rightarrow> int \<Rightarrow> route set \<Rightarrow> bool" where
  "one_to_one mk ttl S \<longleftrightarrow>
     (\<forall>r \<in> S. ee_Port (fst (snd r)) \<noteq> 0) \<and>
     (\<forall>r \<in> S. \<forall>r' \<in> S. mapping_of mk ttl r = mapping_of mk ttl r' \<longleftrightarrow> fst r = fst r')"

lemma one_to_one_mono: "one_to_one mk ttl U \<Longrightarrow> S \<subseteq> U \<Longrightarrow> one_to_one mk ttl S"
  unfolding one_to_one_def by blast

text \<open>Where no external port is 0, no event is invalid.\<close>

lemma one_to_one_requested:
  assumes "one_to_one mk ttl U"
  shows "table_routes any_ports t \<subseteq> U \<Longrightarrow> table_routes zero_free t = table_routes any_ports t"
    and "routes_of_type any_ports ty rs \<subseteq> U \<Longrightarrow> routes_of_type zero_free ty rs = routes_of_type any_ports ty rs"
proof -
  have one: "entry_routes zero_free key e = entry_routes any_ports key e" if "entry_routes any_ports key e \<subseteq> U" for key e
  proof -
    have "zero_free (re_ExternalEndpoints e)" if "fmlookup (re_Endpoints e) k = Some ep" for k ep
    proof (rule ccontr)
      assume "\<not> zero_free (re_ExternalEndpoints e)"
      then obtain x where "x \<in> set (re_ExternalEndpoints e)" "ee_Port x = 0"
        by (auto simp: zero_free_def ports_iff)
      with that have "((key, 0, k), x, ep) \<in> U"
        using \<open>entry_routes any_ports key e \<subseteq> U\<close> by (auto simp: any_ports)
      with assms \<open>ee_Port x = 0\<close> show False by (force simp: one_to_one_def)
    qed
    then show ?thesis by (auto simp: any_ports entry_routes_def)
  qed
  then show "table_routes any_ports t \<subseteq> U \<Longrightarrow> table_routes zero_free t = table_routes any_ports t"
    and "routes_of_type any_ports ty rs \<subseteq> U \<Longrightarrow> routes_of_type zero_free ty rs = routes_of_type any_ports ty rs"
    by (simp_all add: table_routes_def routes_of_type_def UN_subset_iff)
qed

text \<open>Nothing is left behind by one event.\<close>

lemma event_leaves_nothing:
  assumes "lawful_clients held em" "only_tokens_expire em" "h_emitter h = Some (Emit mk ord em)"
    and on: "on_table bbs e (h_routingTable h) = Some (rs, t')"
    and U: "one_to_one mk (te_ttl em) U" "table_routes any_ports (h_routingTable h) \<subseteq> U"
      "routes_of_type any_ports RouteRegistrationEvent rs \<subseteq> U"
    and held: "held w \<subseteq> mapping_of mk (te_ttl em) ` table_routes any_ports (h_routingTable h)"
  shows "held (handler_emit rs h w) \<subseteq> mapping_of mk (te_ttl em) ` table_routes any_ports t'"
    and "table_routes any_ports t' \<subseteq> U"
proof -
  let ?m = "mapping_of mk (te_ttl em)" and ?t = "h_routingTable h"
  let ?reg = "routes_of_type any_ports RouteRegistrationEvent rs"
    and ?unreg = "routes_of_type any_ports RouteUnregistrationEvent rs"
  note ann = on_table_announces [OF on]
  show sub: "table_routes any_ports t' \<subseteq> U" using ann(1) [of any_ports] U(2,3) by blast
  have unreg: "?unreg \<subseteq> U" using ann(2) U(2,3) by blast
  have labels: "table_labels ?t \<union> labels_of_type RouteRegistrationEvent rs
      \<subseteq> labels_of_type RouteUnregistrationEvent rs \<union> table_labels t'"
    using events_api.call_routes [OF on] events_api.call_consistent [OF on]
    by (auto simp: consistent_batch apply_batch_def)
  have "?m r \<in> ?m ` ?unreg \<or> ?m r \<in> ?m ` table_routes any_ports t'"
    if "r \<in> table_routes any_ports ?t \<union> ?reg" for r
  proof -
    from that have "fst r \<in> fst ` ?unreg \<union> fst ` table_routes any_ports t'"
      using labels unfolding labels_of_routes by (auto simp: labels_of_routes [symmetric])
    then obtain r' where "fst r = fst r'" "r' \<in> ?unreg \<union> table_routes any_ports t'"
      unfolding image_Un [symmetric] by (rule imageE)
    moreover from this that have "?m r = ?m r'"
      using U sub unreg unfolding one_to_one_def by blast
    ultimately show ?thesis by auto
  qed
  then show "held (handler_emit rs h w) \<subseteq> ?m ` table_routes any_ports t'"
    using held unfolding emit_mappings [OF assms(1-3)] one_to_one_requested(2) [OF U(1) U(3)]
      one_to_one_requested(2) [OF U(1) unreg] by blast
qed

lemma handle_all_leaves_nothing:
  assumes "lawful_clients held em" "only_tokens_expire em"
  shows "h_emitter h = Some (Emit mk ord em) \<Longrightarrow> handle_all bbs es h w = Some (h', w') \<Longrightarrow>
    run_all (on_table bbs) es (h_routingTable h) = Some (rs, t') \<Longrightarrow>
    one_to_one mk (te_ttl em) U \<Longrightarrow> table_routes any_ports (h_routingTable h) \<subseteq> U \<Longrightarrow>
    routes_of_type any_ports RouteRegistrationEvent rs \<subseteq> U \<Longrightarrow>
    held w \<subseteq> mapping_of mk (te_ttl em) ` table_routes any_ports (h_routingTable h) \<Longrightarrow>
    held w' \<subseteq> mapping_of mk (te_ttl em) ` table_routes any_ports (h_routingTable h') \<and>
    table_routes any_ports (h_routingTable h') \<subseteq> U"
proof (induction es arbitrary: h w rs)
  case (Cons e es)
  let ?t = "h_routingTable h"
  from Cons.prems(3) obtain rs1 t1 rs2 where on: "on_table bbs e ?t = Some (rs1, t1)"
    and rest: "run_all (on_table bbs) es t1 = Some (rs2, t')" and rs: "rs = rs1 @ rs2"
    unfolding run_all_Cons_Some by blast
  let ?h1 = "h\<lparr>h_routingTable := t1\<rparr>" and ?w1 = "handler_emit rs1 h w"
  have "handle_all bbs es ?h1 ?w1 = Some (h', w')"
    using Cons.prems(2) on by (simp add: handleEvent_eq)
  moreover have reg: "routes_of_type any_ports RouteRegistrationEvent rs1 \<subseteq> U"
    and "routes_of_type any_ports RouteRegistrationEvent rs2 \<subseteq> U"
    using Cons.prems(6) by (simp_all add: rs)
  moreover note event_leaves_nothing [OF assms Cons.prems(1) on Cons.prems(4,5) reg Cons.prems(7)]
  ultimately show ?case
    using Cons.IH [of ?h1 ?w1 rs2] Cons.prems(1,4) rest by simp
qed simp

subsection \<open>Properties\<close>

text \<open>
  Every route is announced. Let a new handler with the real emitter handle any events, over clients
  of which only the tokens may expire. If no event merely takes ports from an entry and no two routes
  it ever registers share a mapping, then the routing API holds a mapping for every external endpoint
  and every backend of every entry of its table, unless the entry has an external port 0.
\<close>

lemma handler_announces:
  assumes "lawful_clients held em" and "only_tokens_expire em"
    and "HandleEvents bbs es (NewRoutingTableHandler (NewTable None) (Some (Emit mk ord em))) w = Some (h', w')"
    and "run_all (on_table bbs) es (NewTable None) = Some (rs, t')"
    and "no_event_shrinks bbs es (NewTable None)"
    and "separate mk (te_ttl em) (routes_of_type any_ports RouteRegistrationEvent rs)"
  shows "h_routingTable h' = t' \<and> table_mappings mk (te_ttl em) t' \<subseteq> held w'"
proof -
  let ?h = "NewRoutingTableHandler (NewTable None) (Some (Emit mk ord em))"
  have "\<not> h_syncing ?h" "h_emitter ?h = Some (Emit mk ord em)" "h_routingTable ?h = NewTable None"
    by (simp_all add: NewRoutingTableHandler_def)
  moreover from this assms(3) have all: "handle_all bbs es ?h w = Some (h', w')"
    by (simp add: HandleEvents_idle)
  ultimately have "mapping_of mk (te_ttl em) ` table_routes zero_free (h_routingTable h') \<subseteq> held w'"
    using handle_all_announces [OF assms(1,2), of ?h mk ord bbs es w h' w' rs t'] assms(4-6) by simp
  moreover have "h_routingTable h' = t'"
    using handle_all_table [OF all] assms(4) by (simp add: NewRoutingTableHandler_def)
  ultimately show ?thesis by (simp add: table_mappings_routes)
qed

text \<open>
  C9: The events leave no orphan mapping. Let a handler with the real emitter, outside a sync, handle
  any events without a panic, shrinking ones included, over clients of which only the tokens may expire. If at the
  start the routing API holds no mapping but those of the handler's table, then so it does at the end:
  a mapping that is no longer the table's has been deleted. Assumed is that among the routes of the
  table and those the events register no external port is 0, and that labels and mappings
  correspond one to one: a mapping has one label, and a label one mapping, which a change of router
  group breaks. Swaps are left out; they leave stale backends behind (C23).
\<close>

theorem no_orphan_mappings:
  assumes "lawful_clients held em" and "only_tokens_expire em"
    and "h_emitter h = Some (Emit mk ord em)" and "\<not> h_syncing h"
    and "HandleEvents bbs es h w = Some (h', w')"
    and "run_all (on_table bbs) es (h_routingTable h) = Some (rs, t')"
    and "one_to_one mk (te_ttl em) (table_routes any_ports (h_routingTable h) \<union>
      routes_of_type any_ports RouteRegistrationEvent rs)"
    and "held w \<subseteq> table_mappings mk (te_ttl em) (h_routingTable h)"
  shows "held w' \<subseteq> table_mappings mk (te_ttl em) (h_routingTable h')"
proof -
  have all: "handle_all bbs es h w = Some (h', w')" using assms(4,5) by (simp add: HandleEvents_idle)
  have "held w \<subseteq> mapping_of mk (te_ttl em) ` table_routes any_ports (h_routingTable h)"
    using assms(8) routes_filter(1) [of zero_free "h_routingTable h"] unfolding table_mappings_routes by blast
  from handle_all_leaves_nothing [OF assms(1-3) all assms(6,7) Un_upper1 Un_upper2 this]
  show ?thesis by (simp add: table_mappings_routes one_to_one_requested(1) [OF assms(7)])
qed

text \<open>
  C4: A sync announces everything anew. Provided that only tokens expire (they can be fetched, with a fresh one the
  routing API accepts every request and it drops nothing on its own) and that no two routes of the
  table before and the table after share a mapping: after a sync of a handler with the real emitter
  whose snapshot has a route and whose cached events do not panic, whatever the routing API held before, it holds a mapping for every external endpoint and backend of every
  entry of the handler's table, unless the entry has an external port 0.
\<close>

theorem sync_announces:
  assumes "lawful_clients held em" and "only_tokens_expire em" and "h_emitter h = Some (Emit mk ord em)"
    and "RouteCount snapshot \<noteq> 0"
    and "sync_end bbs sord (Some snapshot) (sync_begin h\<lparr>h_cachedEvents := es\<rparr>) w = Some (h', w')"
    and "separate mk (te_ttl em) (table_routes any_ports (h_routingTable h) \<union>
      table_routes any_ports (h_routingTable h'))"
  shows "table_mappings mk (te_ttl em) (h_routingTable h') \<subseteq> held w'"
proof -
  from assms(4,5) have "w' = handler_emit (fst (Swap sord (IsRoutingTable (h_routingTable h')) (h_routingTable h))) h w"
    by (auto simp: sync_end_swap)
  with swap_announces [OF assms(1-3,6) Un_upper1 Un_upper2] show ?thesis
    by (simp add: table_mappings_routes)
qed

text \<open>
  C32: A changed router group is not noticed. A desired LRP that asks for exactly the external ports its
  entries have, in whatever router groups and with whatever newer tag, changes nothing: no event, and
  the table keeps the old groups and the old tag, because \<open>mergeRoutes\<close> compares ports only.
\<close>

theorem router_group_change_ignored:
  assumes "\<And>key. key \<in> set (desired_keys bbs info) \<Longrightarrow>
      desired_ports bbs info key = ports (re_ExternalEndpoints (entry_at t key))"
  shows "AddRoutes bbs info t = ([], t)"
proof -
  let ?routes = "fst (TCPRoutesFromRoutingInfo bbs (si_Routes info))"
  have "add_route bbs info ?routes key t = ([], t)" if "key \<in> set (desired_keys bbs info)" for key
  proof -
    have same: "ports (route_exts key ?routes) = ports (re_ExternalEndpoints (entry_at t key))"
      using assms [OF that] by (simp add: desired_ports_eq)
    then have "\<not> takes_routes bbs info ?routes key (entry_at t key)"
      "\<not> deliverable (RemoveExternalEndpoints (entry_at t key) (route_exts key ?routes))"
      by (simp_all add: takes_routes_def deliverable_def ext_Remove_eq_Nil)
    then show ?thesis
      by (intro prod_eqI) (simp_all add: fst_add_route snd_add_route route_events_def createRoutingEvent_eq)
  qed
  then have "loop_events (add_route bbs info ?routes) ks t = ([], t)"
    if "set ks \<subseteq> set (desired_keys bbs info)" for ks
    using that by (induction ks) (auto intro!: prod_eqI)
  then show ?thesis by (simp add: AddRoutes_def addRoutes_eq)
qed

subsection \<open>Witnesses\<close>

text \<open>The table of the two ports and one instance, reached by events and by a sync.\<close>

definition sample_routed :: routing_table where
  "sample_routed = snd (AddRoutes sample_bbs (sample_info ''ABCB'' 1) (NewTable None))"

lemma sample_AddRoutes: "AddRoutes sample_bbs (sample_info ''ABCB'' 1) (NewTable None) = ([], sample_routed)"
  by (simp add: sample_routed_def table_eval)

lemma sample_AddEndpoint_routed:
  "AddEndpoint sample_bbs (sample_group ''i'' 1) sample_routed =
     Some ([mk_event RouteRegistrationEvent sample_key sample_entry], sample_table)"
  by (simp add: sample_routed_def sample_table_def table_eval sample_key_def sample_entry_def NewRoutingKey_def
      with_endpoint_def NewRoutableEndpoints_def zero_entry_def lrp_endpoint_def endpoint_Key_def)

lemma sample_events_emitted:
  "run_all (on_table sample_bbs) sample_events (NewTable None) =
     Some ([mk_event RouteRegistrationEvent sample_key sample_entry], sample_table)"
proof -
  have "if_running sample_bbs (Some (sample_group ''i'' 1)) c = Some (Some (c (sample_group ''i'' 1)))" for c
    by (simp add: if_running_def sample_group_def sample_lrp_def)
  then show ?thesis
    by (simp add: sample_events_def on_table_def sample_desired_info sample_AddRoutes sample_AddEndpoint_routed)
qed

lemma sample_no_shrinking: "no_event_shrinks sample_bbs sample_events (NewTable None)"
proof -
  have "if_running sample_bbs (Some (sample_group ''i'' 1)) c = Some (Some (c (sample_group ''i'' 1)))" for c
    by (simp add: if_running_def sample_group_def sample_lrp_def)
  then show ?thesis
    by (simp add: sample_events_def event_shrinks_def on_table_def sample_desired_info shrinks_def
        desired_keys_def NewRoutingKeysFromDesired_def sample_info_def split: option.splits prod.splits)
qed

lemma sample_separate: "separate sample_mapping 120 (entry_routes any_ports sample_key sample_entry)"
proof -
  have "(65 :: uint16) \<noteq> 67" by simp
  then show ?thesis
    by (auto simp: separate_def entry_routes_def mapping_of_def request_of_def sample_mapping_def sample_entry_def
        NewRoutableEndpoints_def split: if_splits)
qed

lemma sample_table_mapping: "(''rg'', 65, ''10.0.0.1'', 9000, 120) \<in> table_mappings sample_mapping 120 sample_table"
proof -
  have "(''rg'', 65, ''10.0.0.1'', 9000, 120) = request_of sample_mapping 120 (NewExternalEndpointInfo ''rg'' 65)
      (NewEndpoint ''i'' False ''10.0.0.1'' 9000 66 (Some (sample_tag 1)))"
    by (simp add: request_of_def sample_mapping_def)
  moreover have "NewExternalEndpointInfo ''rg'' 65 \<in> set (re_ExternalEndpoints sample_entry)"
    by (simp add: sample_entry_def NewRoutableEndpoints_def)
  ultimately show ?thesis
    unfolding table_mappings_def
    by (intro CollectI exI [of _ sample_key] exI [of _ "EndpointKey ''i'' False"] exI conjI) (simp_all (no_asm))
qed

lemma sample_table_routes: "table_routes any_ports sample_table = entry_routes any_ports sample_key sample_entry"
  by (auto simp: table_routes_def entry_at_def sample_table_entries entry_routes_def map_get_def split: if_splits)

lemma sample_emitter_ttl [simp]: "te_ttl sample_emitter = 120"
  by (simp add: sample_emitter_def)

lemma handler_announces_witness:
  "\<exists>h' w'. HandleEvents sample_bbs sample_events
       (NewRoutingTableHandler (NewTable None) (Some (Emit sample_mapping (\<lambda>_. sorted_order) sample_emitter)))
       (False, {}) = Some (h', w') \<and>
     h_routingTable h' = sample_table \<and> (''rg'', 65, ''10.0.0.1'', 9000, 120) \<in> snd w'"
proof -
  let ?h = "NewRoutingTableHandler (NewTable None) (Some (Emit sample_mapping (\<lambda>_. sorted_order) sample_emitter))"
  obtain w' where run: "HandleEvents sample_bbs sample_events ?h (False, {}) =
      Some (?h\<lparr>h_routingTable := sample_table\<rparr>, w')"
    using handle_all_runs [of sample_bbs sample_events ?h _ sample_table "(False, {})"] sample_events_emitted
    by (auto simp: HandleEvents_idle NewRoutingTableHandler_def)
  have "separate sample_mapping (te_ttl sample_emitter)
      (routes_of_type any_ports RouteRegistrationEvent [mk_event RouteRegistrationEvent sample_key sample_entry])"
    using sample_separate by (simp add: routes_of_type_def)
  from handler_announces [OF sample_emitter_lawful sample_emitter_expires run sample_events_emitted
      sample_no_shrinking this] run sample_table_mapping
  show ?thesis by auto
qed

text \<open>The sample's table and its mappings; the instance goes away, and so do the mappings.\<close>

lemma sample_RemoveEndpoint:
  "\<exists>r. RemoveEndpoint sample_bbs (sample_group ''i'' 1) sample_table =
     Some ([mk_event RouteUnregistrationEvent sample_key r],
       set_entry sample_key (without_endpoint (EndpointKey ''i'' False) sample_entry) sample_table)"
  by (simp add: RemoveEndpoint_eq table_eval removeEndpoint_eq removable_endpoint_def NewRoutingKey_def
      sample_key_def [symmetric] only_endpoint_def endpoint_Key_def lrp_endpoint_def)

lemma sample_emptied:
  "table_routes any_ports (set_entry sample_key (without_endpoint (EndpointKey ''i'' False) sample_entry) sample_table) = {}"
  by (auto simp: table_routes_def entry_at_def sample_table_entries entry_routes_def map_get_def set_entry_def without_endpoint_def split: if_splits)

lemma sample_one_to_one: "one_to_one sample_mapping 120 (entry_routes any_ports sample_key sample_entry)"
proof -
  have "(65 :: uint16) \<noteq> 67" by simp
  then show ?thesis
    by (auto simp: one_to_one_def entry_routes_def mapping_of_def request_of_def sample_mapping_def sample_entry_def
        NewRoutableEndpoints_def split: if_splits)
qed

lemma no_orphan_mappings_witness:
  "\<exists>h' w'. HandleEvents sample_bbs [ActualLRPRemovedEvent (Some (sample_group ''i'' 1))]
       (NewRoutingTableHandler sample_table (Some (Emit sample_mapping (\<lambda>_. sorted_order) sample_emitter)))
       (False, table_mappings sample_mapping 120 sample_table) = Some (h', w') \<and>
     (''rg'', 65, ''10.0.0.1'', 9000, 120) \<in> table_mappings sample_mapping 120 sample_table \<and> snd w' = {}"
proof -
  let ?h = "NewRoutingTableHandler sample_table (Some (Emit sample_mapping (\<lambda>_. sorted_order) sample_emitter))"
    and ?w = "(False, table_mappings sample_mapping 120 sample_table)"
    and ?t = "set_entry sample_key (without_endpoint (EndpointKey ''i'' False) sample_entry) sample_table"
  have h: "h_emitter ?h = Some (Emit sample_mapping (\<lambda>_. sorted_order) sample_emitter)"
    "\<not> h_syncing ?h" "h_routingTable ?h = sample_table"
    by (simp_all add: NewRoutingTableHandler_def)
  have "if_running sample_bbs (Some (sample_group ''i'' 1)) c = Some (Some (c (sample_group ''i'' 1)))" for c
    by (simp add: if_running_def sample_group_def sample_lrp_def)
  then obtain r where evs: "run_all (on_table sample_bbs) [ActualLRPRemovedEvent (Some (sample_group ''i'' 1))] sample_table =
      Some ([mk_event RouteUnregistrationEvent sample_key r], ?t)"
    using sample_RemoveEndpoint by (auto simp: on_table_def)
  from handle_all_runs [where h = ?h, unfolded h(3), OF evs, of ?w]
  obtain w' where run: "HandleEvents sample_bbs [ActualLRPRemovedEvent (Some (sample_group ''i'' 1))] ?h ?w =
      Some (?h\<lparr>h_routingTable := ?t\<rparr>, w')"
    unfolding HandleEvents_idle [where h = ?h, OF h(2)] by (elim exE)
  have "routes_of_type any_ports RouteRegistrationEvent [mk_event RouteUnregistrationEvent sample_key r] = {}"
    by (auto simp: routes_of_type_def)
  then have "one_to_one sample_mapping (te_ttl sample_emitter) (table_routes any_ports (h_routingTable ?h) \<union>
      routes_of_type any_ports RouteRegistrationEvent [mk_event RouteUnregistrationEvent sample_key r])"
    unfolding h(3) sample_table_routes sample_emitter_ttl using sample_one_to_one by (simp only: Un_empty_right)
  from no_orphan_mappings [OF sample_emitter_lawful sample_emitter_expires h(1,2) run, unfolded h(3), OF evs
      this [unfolded h(3)]]
  have "snd w' \<subseteq> table_mappings sample_mapping 120 ?t" by simp
  also have "\<dots> = {}"
    using sample_emptied routes_filter(1) [of zero_free ?t] by (simp add: table_mappings_routes)
  finally show ?thesis using run sample_table_mapping by simp
qed

lemma sync_announces_witness:
  "\<exists>h' w'. sync_end sample_bbs sorted_order (Some sample_table)
       (sync_begin (NewRoutingTableHandler (NewTable None)
          (Some (Emit sample_mapping (\<lambda>_. sorted_order) sample_emitter)))\<lparr>h_cachedEvents := []\<rparr>) (False, {}) =
       Some (h', w') \<and>
     (''rg'', 65, ''10.0.0.1'', 9000, 120) \<in> snd w'"
proof -
  let ?em = "Emit sample_mapping (\<lambda>_. sorted_order) sample_emitter"
  let ?h = "NewRoutingTableHandler (NewTable None) (Some ?em)"
  have h: "h_emitter ?h = Some ?em" "h_routingTable ?h = NewTable None"
    by (simp_all add: NewRoutingTableHandler_def)
  obtain w' where run: "sync_end sample_bbs sorted_order (Some sample_table)
       (sync_begin ?h\<lparr>h_cachedEvents := []\<rparr>) (False, {}) =
     Some (?h\<lparr>h_routingTable := sample_table, h_cachedEvents := [], h_syncing := False\<rparr>, w')"
    unfolding sync_end_swap [OF sample_table_not_empty] by simp
  have "table_mappings sample_mapping (te_ttl sample_emitter)
      (h_routingTable (?h\<lparr>h_routingTable := sample_table, h_cachedEvents := [], h_syncing := False\<rparr>)) \<subseteq> snd w'"
    by (rule sync_announces [OF sample_emitter_lawful sample_emitter_expires h(1) _ run])
      (use sample_table_not_empty sample_separate in \<open>simp_all add: h sample_table_routes\<close>)
  with run sample_table_mapping show ?thesis by auto
qed

text \<open>The sample's two ports in another group, with a newer tag.\<close>

definition other_group_bbs :: bbs_models where
  "other_group_bbs = sample_bbs\<lparr>TCPRoutesFromRoutingInfo := \<lambda>_.
     ([\<lparr>tr_RouterGroupGuid = ''other'', tr_ExternalPort = 65, tr_ContainerPort = 66\<rparr>,
       \<lparr>tr_RouterGroupGuid = ''other'', tr_ExternalPort = 67, tr_ContainerPort = 66\<rparr>], None)\<rparr>"

lemma router_group_change_ignored_witness:
  "AddRoutes other_group_bbs (sample_info ''ABCB'' 2) sample_table = ([], sample_table) \<and>
   SucceededBy other_group_bbs (re_ModificationTag sample_entry) (Some (sample_tag 2)) \<and>
   (''rg'', 65, ''10.0.0.1'', 9000, 120) \<in> table_mappings sample_mapping 120 sample_table"
proof -
  have keys: "set (desired_keys other_group_bbs (sample_info ''ABCB'' 2)) = {sample_key}"
    by (auto simp: other_group_bbs_def desired_keys_def NewRoutingKeysFromDesired_def sample_info_def
        sample_key_def NewRoutingKey_def)
  have "desired_ports other_group_bbs (sample_info ''ABCB'' 2) sample_key = {65, 67}"
    by (simp add: desired_ports_eq other_group_bbs_def sample_key_def)
  then have "AddRoutes other_group_bbs (sample_info ''ABCB'' 2) sample_table = ([], sample_table)"
    by (intro router_group_change_ignored) (simp add: keys)
  then show ?thesis
    using sample_table_mapping by (simp add: other_group_bbs_def sample_tag_def)
qed

end
