(* ===== verification/Startup.thy ===== *)
theory Startup
  imports Emitter
begin

text \<open>
  \<open>config/config.go\<close> and the start-up of \<open>cmd/tcp-emitter/main.go\<close>: which checks the program makes, in
  which order, before it runs its members, and what it passes on. The functions of other packages
  are the parameter record \<open>libraries\<close>. \<open>os.Exit(1)\<close> and \<open>logger.Fatal\<close> (which panics) end the program
  with the name of the message they log.
\<close>

subsection \<open>Configuration\<close>

record routing_api_config =
  rc_URI :: string
  rc_Port :: int
  rc_AuthDisabled :: bool

record oauth_config =
  oc_TokenEndpoint :: string
  oc_Port :: int
  oc_SkipSSLValidation :: bool
  oc_ClientName :: string
  oc_ClientSecret :: string
  oc_CACerts :: string

record config =
  cfg_OAuth :: oauth_config
  cfg_RoutingAPI :: routing_api_config

text \<open>The zero value of \<open>Config\<close>, into which the file is unmarshalled.\<close>

definition zero_config :: config where
  "zero_config =
     \<lparr>cfg_OAuth = \<lparr>oc_TokenEndpoint = [], oc_Port = 0, oc_SkipSSLValidation = False, oc_ClientName = [],
                   oc_ClientSecret = [], oc_CACerts = []\<rparr>,
      cfg_RoutingAPI = \<lparr>rc_URI = [], rc_Port = 0, rc_AuthDisabled = False\<rparr>\<rparr>"

record uaa_config =
  uc_UaaEndpoint :: string
  uc_SkipVerification :: bool
  uc_ClientName :: string
  uc_ClientSecret :: string
  uc_MaxNumberOfRetries :: uint32
  uc_RetryInterval :: int
  uc_ExpirationBufferInSec :: "64 word"
  uc_CACerts :: string

record ('bbs, 'uaa, 'consul, 'bytes, 'api, 'lock) libraries =
  ParseURL :: "string \<Rightarrow> go_error + (string \<times> string)"
  NewClient :: "string \<Rightarrow> 'bbs"
  NewSecureClient :: "string \<Rightarrow> string \<Rightarrow> string \<Rightarrow> string \<Rightarrow> int \<Rightarrow> int \<Rightarrow> go_error + 'bbs"
  Ping :: "'bbs \<Rightarrow> bool"
  ReadFile :: "string \<Rightarrow> go_error + 'bytes"
  Unmarshal :: "'bytes \<Rightarrow> config \<Rightarrow> go_error option \<times> config"
  NewNoOpUaaClient :: 'uaa
  NewUaaClient :: "uaa_config \<Rightarrow> go_error + 'uaa"
  FetchKey :: "'uaa \<Rightarrow> go_error option"
  NewClientFromUrl :: "string \<Rightarrow> go_error + 'consul"
  NewV4 :: "go_error + string"
  InitializeDropsonde :: "string \<Rightarrow> string \<Rightarrow> go_error option"
  NewRoutingAPIClient :: "string \<Rightarrow> bool \<Rightarrow> 'api"
  LockSchemaPath :: "string \<Rightarrow> string"
  NewLock :: "'consul \<Rightarrow> string \<Rightarrow> string \<Rightarrow> int \<Rightarrow> int \<Rightarrow> 'lock"

definition initConfigFromFile ::
  "('bbs, 'uaa, 'consul, 'bytes, 'api, 'lock) libraries \<Rightarrow> string \<Rightarrow> config \<Rightarrow> go_error option \<times> config" where
  "initConfigFromFile lib path c =
     (case ReadFile lib path of Inl e \<Rightarrow> (Some e, c) | Inr b \<Rightarrow> Unmarshal lib b c)"

definition New ::
  "('bbs, 'uaa, 'consul, 'bytes, 'api, 'lock) libraries \<Rightarrow> string \<Rightarrow> go_error + config" where
  "New lib path =
     (case initConfigFromFile lib path zero_config of
        (Some err, c) \<Rightarrow> Inl err | (None, c) \<Rightarrow> Inr c)"

subsection \<open>Flags and the program's end\<close>

record flags =
  fl_bbsAddress :: string
  fl_communicationTimeout :: int
  fl_syncInterval :: int
  fl_bbsCACert :: string
  fl_bbsClientCert :: string
  fl_bbsClientKey :: string
  fl_configFile :: string
  fl_consulCluster :: string
  fl_lockTTL :: int
  fl_lockRetryInterval :: int
  fl_sessionName :: string
  fl_routeTTL :: int
  fl_tokenFetchMaxRetries :: "64 word"
  fl_tokenFetchRetryInterval :: int
  fl_tokenFetchExpirationBufferTime :: "64 word"
  fl_dropsondePort :: int
  fl_bbsClientSessionCacheSize :: int
  fl_bbsMaxIdleConnsPerHost :: int
  fl_debugAddr :: string

datatype 'a start = Exit1 string | Fatal string | Up 'a

primrec then_start :: "'a start \<Rightarrow> ('a \<Rightarrow> 'b start) \<Rightarrow> 'b start" where
  "then_start (Exit1 m) f = Exit1 m"
| "then_start (Fatal m) f = Fatal m"
| "then_start (Up a) f = f a"

text \<open>\<open>%d\<close> of \<open>fmt.Sprintf\<close>.\<close>

fun show_nat :: "nat \<Rightarrow> string" where
  "show_nat n = (if n < 10 then [char_of (48 + n)] else show_nat (n div 10) @ [char_of (48 + n mod 10)])"

declare show_nat.simps [simp del]

definition show_int :: "int \<Rightarrow> string" where
  "show_int i = (if i < 0 then CHR ''-'' # show_nat (nat (- i)) else show_nat (nat i))"

text \<open>
  \<open>time.Duration\<close> counts nanoseconds. \<open>routeTTL.Seconds()\<close> is a float; the comparison with 65535 and the
  truncation to \<open>int\<close> are modelled exactly, which they are from minus \<open>2 ^ 22\<close> seconds to the bound the
  program accepts.
\<close>

definition ttl_too_large :: "int \<Rightarrow> bool" where
  "ttl_too_large ns \<longleftrightarrow> 65535 * 10 ^ 9 < ns"

definition whole_seconds :: "int \<Rightarrow> int" where
  "whole_seconds ns = (if ns < 0 then - ((- ns) div 10 ^ 9) else ns div 10 ^ 9)"

text \<open>The configuration \<open>newUaaClient\<close> passes to the library.\<close>

definition uaa_config_of :: "flags \<Rightarrow> config \<Rightarrow> uaa_config" where
  "uaa_config_of fl c =
     \<lparr>uc_UaaEndpoint = ''https://'' @ oc_TokenEndpoint (cfg_OAuth c) @ '':'' @ show_int (oc_Port (cfg_OAuth c)),
      uc_SkipVerification = oc_SkipSSLValidation (cfg_OAuth c), uc_ClientName = oc_ClientName (cfg_OAuth c),
      uc_ClientSecret = oc_ClientSecret (cfg_OAuth c), uc_MaxNumberOfRetries = ucast (fl_tokenFetchMaxRetries fl),
      uc_RetryInterval = fl_tokenFetchRetryInterval fl,
      uc_ExpirationBufferInSec = fl_tokenFetchExpirationBufferTime fl, uc_CACerts = oc_CACerts (cfg_OAuth c)\<rparr>"

definition newUaaClient ::
  "('bbs, 'uaa, 'consul, 'bytes, 'api, 'lock) libraries \<Rightarrow> flags \<Rightarrow> config \<Rightarrow> 'uaa start" where
  "newUaaClient lib fl c =
     (if rc_AuthDisabled (cfg_RoutingAPI c) then Up (NewNoOpUaaClient lib)
      else if oc_Port (cfg_OAuth c) = -1 then Fatal ''tls-not-enabled''
      else
        (case NewUaaClient lib (uaa_config_of fl c) of
           Inl err \<Rightarrow> Fatal ''initialize-token-fetcher-error''
         | Inr client \<Rightarrow> Up client))"

definition newBbsClient ::
  "('bbs, 'uaa, 'consul, 'bytes, 'api, 'lock) libraries \<Rightarrow> flags \<Rightarrow> 'bbs start" where
  "newBbsClient lib fl =
     (case ParseURL lib (fl_bbsAddress fl) of
        Inl err \<Rightarrow> Exit1 ''invalid-bbs-address''
      | Inr (scheme, url) \<Rightarrow>
          if scheme = ''http'' then Up (NewClient lib url)
          else if scheme = ''https'' then
            (case NewSecureClient lib url (fl_bbsCACert fl) (fl_bbsClientCert fl) (fl_bbsClientKey fl)
                (fl_bbsClientSessionCacheSize fl) (fl_bbsMaxIdleConnsPerHost fl) of
               Inl err \<Rightarrow> Exit1 ''failed-to-configure-bbs-client''
             | Inr client \<Rightarrow> Up client)
          else Exit1 ''invalid-scheme-in-bbs-address'')"

text \<open>A failure to set up the metrics is only logged: the messages.\<close>

definition tcpEmitterLockPath :: string where
  "tcpEmitterLockPath = ''tcp_emitter_lock''"

definition dropsondeOrigin :: string where
  "dropsondeOrigin = ''tcp_emitter''"

definition initializeDropsonde ::
  "('bbs, 'uaa, 'consul, 'bytes, 'api, 'lock) libraries \<Rightarrow> flags \<Rightarrow> string list" where
  "initializeDropsonde lib fl =
     (let dropsondeDestination = ''localhost:'' @ show_int (fl_dropsondePort fl)
      in case InitializeDropsonde lib dropsondeDestination dropsondeOrigin of
           Some err \<Rightarrow> [''failed-to-initialize-dropsonde'']
         | None \<Rightarrow> [])"

definition newLockRunner ::
  "('bbs, 'uaa, 'consul, 'bytes, 'api, 'lock) libraries \<Rightarrow> 'consul \<Rightarrow> int \<Rightarrow> int \<Rightarrow> 'lock start" where
  "newLockRunner lib consulClient lockRetryInterval lockTTL =
     (let lockSchemaPath = LockSchemaPath lib tcpEmitterLockPath
      in case NewV4 lib of
           Inl err \<Rightarrow> Fatal ''Couldn't generate tcp Emitter UUID''
         | Inr tcpEmitterID \<Rightarrow>
             Up (NewLock lib consulClient lockSchemaPath tcpEmitterID lockRetryInterval lockTTL))"

definition initializeLockMaintainer ::
  "('bbs, 'uaa, 'consul, 'bytes, 'api, 'lock) libraries \<Rightarrow> string \<Rightarrow> string \<Rightarrow> int \<Rightarrow> int \<Rightarrow> 'lock start" where
  "initializeLockMaintainer lib consulCluster sessionName lockTTL lockRetryInterval =
     (case NewClientFromUrl lib consulCluster of
        Inl err \<Rightarrow> Fatal ''new-client-failed''
      | Inr client \<Rightarrow> newLockRunner lib client lockRetryInterval lockTTL)"

text \<open>What \<open>main\<close> has set up when it runs its members, in their order.\<close>

record ('bbs, 'uaa, 'api, 'lock) program =
  pr_httpTimeout :: int
  pr_warnings :: "string list"
  pr_bbsClient :: 'bbs
  pr_uaaClient :: 'uaa
  pr_routingAPIClient :: 'api
  pr_ttl :: int
  pr_syncInterval :: int
  pr_lock :: 'lock
  pr_members :: "string list"

definition member_names :: "string \<Rightarrow> string list" where
  "member_names debugAddr =
     (if debugAddr \<noteq> [] then [''debug-server''] else []) @ [''lock-maintainer'', ''watcher'', ''syncer'']"

definition main_start ::
  "('bbs, 'uaa, 'consul, 'bytes, 'api, 'lock) libraries \<Rightarrow> flags \<Rightarrow>
   ('bbs, 'uaa, 'api, 'lock) program start" where
  "main_start lib fl =
     then_start (newBbsClient lib fl) (\<lambda>bbsClient.
     then_start (if \<not> Ping lib bbsClient then Exit1 ''failed-to-connect-to-bbs'' else Up ()) (\<lambda>_.
     then_start (case New lib (fl_configFile fl) of
                   Inl err \<Rightarrow> Exit1 ''failed-to-unmarshal-config-file'' | Inr cfg \<Rightarrow> Up cfg) (\<lambda>cfg.
     then_start (newUaaClient lib fl cfg) (\<lambda>uaaClient.
     then_start (if FetchKey lib uaaClient \<noteq> None then Exit1 ''failed-connecting-to-uaa'' else Up ()) (\<lambda>_.
     then_start (if ttl_too_large (fl_routeTTL fl) then Exit1 ''invalid-route-ttl'' else Up ()) (\<lambda>_.
     then_start (initializeLockMaintainer lib (fl_consulCluster fl) (fl_sessionName fl)
                   (fl_lockTTL fl) (fl_lockRetryInterval fl)) (\<lambda>lockMaintainer.
     let routingAPIAddress = rc_URI (cfg_RoutingAPI cfg) @ '':'' @ show_int (rc_Port (cfg_RoutingAPI cfg)) in
     Up \<lparr>pr_httpTimeout = fl_communicationTimeout fl, pr_warnings = initializeDropsonde lib fl,
         pr_bbsClient = bbsClient, pr_uaaClient = uaaClient,
         pr_routingAPIClient = NewRoutingAPIClient lib routingAPIAddress False,
         pr_ttl = whole_seconds (fl_routeTTL fl), pr_syncInterval = fl_syncInterval fl,
         pr_lock = lockMaintainer, pr_members = member_names (fl_debugAddr fl)\<rparr>)))))))"

subsection \<open>Lemmas\<close>

lemma then_start_Up: "then_start r f = Up x \<longleftrightarrow> (\<exists>a. r = Up a \<and> f a = Up x)"
  by (cases r) simp_all

lemma guard_Up: "(if b then Exit1 m else Up ()) = Up u \<longleftrightarrow> \<not> b"
  by simp

lemma newBbsClient_Up:
  "newBbsClient lib fl = Up c \<Longrightarrow>
   \<exists>scheme url. ParseURL lib (fl_bbsAddress fl) = Inr (scheme, url) \<and> scheme \<in> {''http'', ''https''}"
  by (auto simp: newBbsClient_def split: sum.splits prod.splits if_splits)

lemma newUaaClient_Up:
  "newUaaClient lib fl c = Up u \<Longrightarrow> rc_AuthDisabled (cfg_RoutingAPI c) \<or> oc_Port (cfg_OAuth c) \<noteq> -1"
  by (auto simp: newUaaClient_def uaa_config_of_def split: if_splits)

lemma whole_seconds_bound: "\<not> ttl_too_large ns \<Longrightarrow> whole_seconds ns \<le> 65535"
proof -
  assume "\<not> ttl_too_large ns"
  then have "ns \<le> 65535 * 10 ^ 9" by (simp add: ttl_too_large_def)
  then have "ns div 10 ^ 9 \<le> 65535 * 10 ^ 9 div (10 ^ 9 :: int)" by (rule zdiv_mono1) simp
  moreover have "0 \<le> (- ns) div 10 ^ 9" if "ns < 0"
    using that by (intro pos_imp_zdiv_nonneg_iff [THEN iffD2]) simp_all
  ultimately show ?thesis by (auto simp: whole_seconds_def)
qed

lemma main_start_Up:
  "main_start lib fl = Up pr \<Longrightarrow>
     \<exists>cfg. newBbsClient lib fl = Up (pr_bbsClient pr) \<and> Ping lib (pr_bbsClient pr) \<and>
        New lib (fl_configFile fl) = Inr cfg \<and> newUaaClient lib fl cfg = Up (pr_uaaClient pr) \<and>
        FetchKey lib (pr_uaaClient pr) = None \<and> \<not> ttl_too_large (fl_routeTTL fl) \<and>
        pr_ttl pr = whole_seconds (fl_routeTTL fl) \<and> pr_members pr = member_names (fl_debugAddr fl)"
  unfolding main_start_def then_start_Up guard_Up Let_def
  by (auto split: sum.splits)

lemma main_start_interval: "main_start lib fl = Up pr \<Longrightarrow> pr_syncInterval pr = fl_syncInterval fl"
  unfolding main_start_def then_start_Up guard_Up Let_def
  by (auto split: sum.splits)

lemma then_start_assoc: "then_start (then_start r f) g = then_start r (\<lambda>a. then_start (f a) g)"
  by (cases r) simp_all

lemma ttl_flag_unused [simp]:
  "newBbsClient lib (fl\<lparr>fl_routeTTL := d\<rparr>) = newBbsClient lib fl"
  "newUaaClient lib (fl\<lparr>fl_routeTTL := d\<rparr>) c = newUaaClient lib fl c"
  "initializeDropsonde lib (fl\<lparr>fl_routeTTL := d\<rparr>) = initializeDropsonde lib fl"
  by (simp_all add: newBbsClient_def newUaaClient_def uaa_config_of_def initializeDropsonde_def
      cong: sum.case_cong prod.case_cong if_cong)

lemma session_flag_unused [simp]:
  "newBbsClient lib (fl\<lparr>fl_sessionName := n\<rparr>) = newBbsClient lib fl"
  "newUaaClient lib (fl\<lparr>fl_sessionName := n\<rparr>) c = newUaaClient lib fl c"
  "initializeDropsonde lib (fl\<lparr>fl_sessionName := n\<rparr>) = initializeDropsonde lib fl"
  by (simp_all add: newBbsClient_def newUaaClient_def uaa_config_of_def initializeDropsonde_def
      cong: sum.case_cong prod.case_cong if_cong)

lemma ucast_mod_32: "(ucast (n mod 2 ^ 32 :: 64 word) :: uint32) = ucast n"
proof -
  have low: "n mod 2 ^ 32 = take_bit 32 n" by (simp only: take_bit_eq_mod)
  show ?thesis unfolding low by (rule bit_word_eqI) (simp add: bit_ucast_iff bit_take_bit_iff)
qed

text \<open>The reasons for \<open>logger.Fatal\<close>, in the order of the checks.\<close>

definition start_panics :: "('bbs, 'uaa, 'consul, 'bytes, 'api, 'lock) libraries \<Rightarrow> flags \<Rightarrow> bool" where
  "start_panics lib fl \<longleftrightarrow>
     (\<exists>bbs cfg. newBbsClient lib fl = Up bbs \<and> Ping lib bbs \<and> New lib (fl_configFile fl) = Inr cfg \<and>
        (\<not> rc_AuthDisabled (cfg_RoutingAPI cfg) \<and>
           (oc_Port (cfg_OAuth cfg) = -1 \<or> (\<exists>err. NewUaaClient lib (uaa_config_of fl cfg) = Inl err)) \<or>
         (\<exists>uaa. newUaaClient lib fl cfg = Up uaa \<and> FetchKey lib uaa = None \<and> \<not> ttl_too_large (fl_routeTTL fl) \<and>
            ((\<exists>err. NewClientFromUrl lib (fl_consulCluster fl) = Inl err) \<or> (\<exists>err. NewV4 lib = Inl err)))))"

lemma then_start_Fatal:
  "then_start r f = Fatal m \<longleftrightarrow> r = Fatal m \<or> (\<exists>a. r = Up a \<and> f a = Fatal m)"
  by (cases r) auto

lemma newBbsClient_not_Fatal: "newBbsClient lib fl \<noteq> Fatal m"
  by (auto simp: newBbsClient_def split: sum.splits prod.splits)

lemma newUaaClient_Fatal:
  "(\<exists>m. newUaaClient lib fl cfg = Fatal m) \<longleftrightarrow>
     \<not> rc_AuthDisabled (cfg_RoutingAPI cfg) \<and>
     (oc_Port (cfg_OAuth cfg) = -1 \<or> (\<exists>err. NewUaaClient lib (uaa_config_of fl cfg) = Inl err))"
  by (auto simp: newUaaClient_def uaa_config_of_def Let_def split: sum.splits)

lemma lock_Fatal:
  "(\<exists>m. initializeLockMaintainer lib consul name ttl retry = Fatal m) \<longleftrightarrow>
     (\<exists>err. NewClientFromUrl lib consul = Inl err) \<or> (\<exists>err. NewV4 lib = Inl err)"
  by (auto simp: initializeLockMaintainer_def newLockRunner_def Let_def split: sum.splits)

lemma main_start_Fatal: "(\<exists>m. main_start lib fl = Fatal m) \<longleftrightarrow> start_panics lib fl"
proof -
  have guard: "(if b then Exit1 m' else Up ()) \<noteq> Fatal m" for b m m' by simp
  have cfg: "(case r of Inl err \<Rightarrow> Exit1 m' | Inr cfg \<Rightarrow> Up cfg) \<noteq> Fatal m"
    "(case r of Inl err \<Rightarrow> Exit1 m' | Inr cfg \<Rightarrow> Up cfg) = Up c \<longleftrightarrow> r = Inr c" for r :: "go_error + config" and m m' c
    by (auto split: sum.splits)
  show ?thesis
    unfolding main_start_def start_panics_def newUaaClient_Fatal [symmetric] lock_Fatal
      [where name = "fl_sessionName fl" and ttl = "fl_lockTTL fl" and retry = "fl_lockRetryInterval fl", symmetric]
      then_start_Fatal cfg Let_def
    by (auto simp: newBbsClient_not_Fatal guard_Up cfg)
qed

subsection \<open>Properties\<close>

text \<open>
  C33: What holds once the program runs its members. The BBS address has the scheme http or https, the
  BBS answered, the configuration was read, UAA answered, and unless authentication is disabled its
  port is not \<open>-1\<close>. The TTL the emitter gets is that of the flag in whole seconds, at most 65535 (but
  a negative one passes). The lock is taken before the watcher starts, and the watcher before the syncer.
\<close>

theorem startup_guards:
  assumes "main_start lib fl = Up pr"
  shows "\<exists>scheme url cfg. ParseURL lib (fl_bbsAddress fl) = Inr (scheme, url) \<and> scheme \<in> {''http'', ''https''} \<and>
    Ping lib (pr_bbsClient pr) \<and> New lib (fl_configFile fl) = Inr cfg \<and>
    (rc_AuthDisabled (cfg_RoutingAPI cfg) \<or> oc_Port (cfg_OAuth cfg) \<noteq> -1) \<and>
    FetchKey lib (pr_uaaClient pr) = None \<and>
    pr_ttl pr = whole_seconds (fl_routeTTL fl) \<and> pr_ttl pr \<le> 65535 \<and>
    (\<exists>debug. pr_members pr = debug @ [''lock-maintainer'', ''watcher'', ''syncer''])"
proof -
  from assms obtain cfg where "newBbsClient lib fl = Up (pr_bbsClient pr)" "Ping lib (pr_bbsClient pr)"
    "New lib (fl_configFile fl) = Inr cfg" "newUaaClient lib fl cfg = Up (pr_uaaClient pr)"
    "FetchKey lib (pr_uaaClient pr) = None" "\<not> ttl_too_large (fl_routeTTL fl)"
    "pr_ttl pr = whole_seconds (fl_routeTTL fl)"
    "\<exists>debug. pr_members pr = debug @ [''lock-maintainer'', ''watcher'', ''syncer'']"
    using main_start_Up [OF assms] by (auto simp: member_names_def)
  then show ?thesis
    using newBbsClient_Up newUaaClient_Up whole_seconds_bound by metis
qed

text \<open>
  C37: The flags are checked less than they could be. The number of token retries is taken modulo
  \<open>2 ^ 32\<close>; of the route TTL only the upper bound is checked: with any other TTL below it, negative
  ones included, the program starts in the same way and hands the emitter that TTL. The flag
  \<open>sessionName\<close> changes nothing: \<open>initializeLockMaintainer\<close> takes it and does not use it.
\<close>

theorem flags_unchecked:
  "newUaaClient lib (fl\<lparr>fl_tokenFetchMaxRetries := n\<rparr>) c =
     newUaaClient lib (fl\<lparr>fl_tokenFetchMaxRetries := n mod 2 ^ 32\<rparr>) c \<and>
   main_start lib (fl\<lparr>fl_routeTTL := - 1000000000 * int k\<rparr>) =
     then_start (main_start lib (fl\<lparr>fl_routeTTL := 0\<rparr>)) (\<lambda>pr. Up (pr\<lparr>pr_ttl := - int k\<rparr>)) \<and>
   main_start lib (fl\<lparr>fl_sessionName := name\<rparr>) = main_start lib fl"
proof (intro conjI)
  show "newUaaClient lib (fl\<lparr>fl_tokenFetchMaxRetries := n\<rparr>) c =
      newUaaClient lib (fl\<lparr>fl_tokenFetchMaxRetries := n mod 2 ^ 32\<rparr>) c"
    using ucast_mod_32 [of n] by (simp add: newUaaClient_def uaa_config_of_def)
  have "\<not> ttl_too_large (- 1000000000 * int k)" "whole_seconds (- 1000000000 * int k) = - int k"
    "\<not> ttl_too_large 0"
    by (simp_all add: ttl_too_large_def whole_seconds_def)
  then show "main_start lib (fl\<lparr>fl_routeTTL := - 1000000000 * int k\<rparr>) =
      then_start (main_start lib (fl\<lparr>fl_routeTTL := 0\<rparr>)) (\<lambda>pr. Up (pr\<lparr>pr_ttl := - int k\<rparr>))"
    by (simp add: main_start_def then_start_assoc Let_def)
  show "main_start lib (fl\<lparr>fl_sessionName := name\<rparr>) = main_start lib fl"
    by (simp add: main_start_def initializeLockMaintainer_def)
qed

subsection \<open>Witnesses\<close>

definition sample_flags :: flags where
  "sample_flags =
     \<lparr>fl_bbsAddress = ''http://bbs'', fl_communicationTimeout = 10 ^ 10, fl_syncInterval = 2 * 10 ^ 10,
      fl_bbsCACert = [], fl_bbsClientCert = [], fl_bbsClientKey = [], fl_configFile = ''c.yml'',
      fl_consulCluster = ''http://consul'', fl_lockTTL = 10 ^ 10, fl_lockRetryInterval = 5 * 10 ^ 9,
      fl_sessionName = ''tcp-emitter'', fl_routeTTL = 120 * 10 ^ 9, fl_tokenFetchMaxRetries = 3,
      fl_tokenFetchRetryInterval = 5 * 10 ^ 9, fl_tokenFetchExpirationBufferTime = 30,
      fl_dropsondePort = 3457, fl_bbsClientSessionCacheSize = 0, fl_bbsMaxIdleConnsPerHost = 0,
      fl_debugAddr = []\<rparr>"

definition sample_libraries :: "(string, uaa_config option, string, string, string, string \<times> string) libraries" where
  "sample_libraries =
     \<lparr>ParseURL = \<lambda>a. Inr (takeWhile (\<lambda>x. x \<noteq> CHR '':'') a, a), NewClient = \<lambda>u. u,
      NewSecureClient = \<lambda>u _ _ _ _ _. Inr u, Ping = \<lambda>_. True, ReadFile = \<lambda>p. Inr p,
      Unmarshal = \<lambda>_ c. (None, c), NewNoOpUaaClient = None, NewUaaClient = \<lambda>c. Inr (Some c),
      FetchKey = \<lambda>_. None, NewClientFromUrl = \<lambda>u. Inr u, NewV4 = Inr ''uuid'',
      InitializeDropsonde = \<lambda>_ _. None, NewRoutingAPIClient = \<lambda>a _. a, LockSchemaPath = \<lambda>p. p,
      NewLock = \<lambda>c p _ _ _. (c, p)\<rparr>"

lemma startup_guards_witness:
  "\<exists>pr. main_start sample_libraries sample_flags = Up pr \<and> pr_ttl pr = 120 \<and> pr_ttl pr \<le> 65535 \<and>
     (\<exists>debug. pr_members pr = debug @ [''lock-maintainer'', ''watcher'', ''syncer''])"
proof -
  have "\<exists>pr. main_start sample_libraries sample_flags = Up pr \<and> pr_ttl pr = 120"
    by (simp add: main_start_def newBbsClient_def newUaaClient_def uaa_config_of_def initializeLockMaintainer_def newLockRunner_def
        New_def initConfigFromFile_def zero_config_def sample_libraries_def sample_flags_def ttl_too_large_def
        whole_seconds_def Let_def)
  then obtain pr where pr: "main_start sample_libraries sample_flags = Up pr" "pr_ttl pr = 120" by blast
  from startup_guards [OF pr(1)] pr show ?thesis by blast
qed

end
