(* ===== verification/Go_Time.thy ===== *)
theory Go_Time
  imports Startup
begin

text \<open>
  What the program and its test runner use of Go's standard library to write and read numbers and
  durations: \<open>time.Duration.String\<close>, \<open>time.ParseDuration\<close>, and \<open>strconv.ParseInt\<close> and \<open>ParseUint\<close> with
  base 0 and 64 bits, as in the Go releases of the program's time (1.7). Strings are lists of bytes.

  A duration is its number of nanoseconds. \<open>ParseDuration\<close> computes a fraction with floats; here it is
  exact, which the float is too as long as the fraction has no more digits than its unit has decimal
  places, as in everything \<open>String\<close> writes.
\<close>

subsection \<open>Digits\<close>

definition is_digit :: "char \<Rightarrow> bool" where
  "is_digit c \<longleftrightarrow> 48 \<le> (of_char c :: nat) \<and> (of_char c :: nat) \<le> 57"

definition digit_value :: "char \<Rightarrow> nat" where
  "digit_value c = of_char c - 48"

definition digit_char :: "nat \<Rightarrow> char" where
  "digit_char d = char_of (48 + d)"

abbreviation decimal :: "nat \<Rightarrow> string \<Rightarrow> nat" where
  "decimal \<equiv> foldl (\<lambda>x c. 10 * x + digit_value c)"

lemma digit_char_simps [simp]:
  assumes "d < 10"
  shows "is_digit (digit_char d)" "digit_value (digit_char d) = d"
  using assms by (simp_all add: is_digit_def digit_char_def digit_value_def)

lemma not_digits [simp]:
  "\<not> is_digit (CHR ''.'')" "\<not> is_digit (CHR ''s'')" "\<not> is_digit (CHR ''m'')" "\<not> is_digit (CHR ''h'')"
  "\<not> is_digit (CHR ''n'')" "\<not> is_digit (CHR ''-'')" "\<not> is_digit (CHR ''+'')" "\<not> is_digit (char_of (194 :: nat))"
  by (simp_all add: is_digit_def)

lemma decimal_start: "decimal x ds = x * 10 ^ length ds + decimal 0 ds"
proof (induction ds arbitrary: x)
  case (Cons d ds)
  show ?case
    using Cons.IH [of "10 * x + digit_value d"] Cons.IH [of "digit_value d"] by (simp add: algebra_simps)
qed simp

lemma show_nat_digits: "list_all is_digit (show_nat n) \<and> decimal 0 (show_nat n) = n \<and> show_nat n \<noteq> []"
proof (induction n rule: show_nat.induct)
  case (1 n)
  have last: "char_of (48 + n mod 10) = digit_char (n mod 10)" by (simp add: digit_char_def)
  show ?case
  proof (cases "n < 10")
    case True
    then have "show_nat n = [digit_char n]" by (subst show_nat.simps) (simp add: digit_char_def)
    with True show ?thesis by simp
  next
    case False
    then have "show_nat n = show_nat (n div 10) @ [digit_char (n mod 10)]"
      by (subst show_nat.simps) (simp add: last)
    with 1 [OF False] show ?thesis by simp
  qed
qed

subsection \<open>Writing a duration\<close>

definition Second :: nat where "Second = 1000000000"
definition Millisecond :: nat where "Millisecond = 1000000"
definition Microsecond :: nat where "Microsecond = 1000"

text \<open>\<open>fmtFrac\<close>: the last \<open>prec\<close> digits as a fraction without trailing zeros, and the rest of the number.\<close>

fun fmtFrac :: "nat \<Rightarrow> nat \<Rightarrow> bool \<Rightarrow> string \<Rightarrow> string \<times> nat" where
  "fmtFrac 0 v print buf = (if print then CHR ''.'' # buf else buf, v)"
| "fmtFrac (Suc prec) v print buf =
     (let digit = v mod 10; print1 = print \<or> digit \<noteq> 0
      in fmtFrac prec (v div 10) print1 (if print1 then digit_char digit # buf else buf))"

definition magnitude_string :: "nat \<Rightarrow> string" where
  "magnitude_string u =
     (if u < Second then
        (if u = 0 then ''0s''
         else
           (let (prec, unit) =
                  (if u < Microsecond then (0, ''ns'')
                   else if u < Millisecond then (3, [char_of (194 :: nat), char_of (181 :: nat), CHR ''s''])
                   else (6, ''ms''));
                (frac, v) = fmtFrac prec u False []
            in show_nat v @ frac @ unit))
      else
        (let (frac, secs) = fmtFrac 9 u False [];
             minutes = secs div 60;
             hours = minutes div 60
         in (if minutes > 0
             then (if hours > 0 then show_nat hours @ ''h'' else []) @ show_nat (minutes mod 60) @ ''m''
             else [])
            @ show_nat (secs mod 60) @ frac @ ''s''))"

definition duration_string :: "int \<Rightarrow> string" where
  "duration_string d =
     (let u = nat \<bar>d\<bar> in if d < 0 then CHR ''-'' # magnitude_string u else magnitude_string u)"

subsection \<open>Reading a duration\<close>

definition max_int64 :: nat where
  "max_int64 = 9223372036854775807"

text \<open>\<open>leadingInt\<close>, with its overflow test.\<close>

fun leadingInt :: "nat \<Rightarrow> string \<Rightarrow> (nat \<times> string) option" where
  "leadingInt x [] = Some (x, [])"
| "leadingInt x (c # s) =
     (if \<not> is_digit c then Some (x, c # s)
      else if (max_int64 - 9) div 10 \<le> x then None
      else leadingInt (10 * x + digit_value c) s)"

definition unitMap :: "string \<Rightarrow> nat option" where
  "unitMap = map_of
     [(''ns'', 1), (''us'', Microsecond),
      ([char_of (194 :: nat), char_of (181 :: nat), CHR ''s''], Microsecond),
      ([char_of (206 :: nat), char_of (188 :: nat), CHR ''s''], Microsecond),
      (''ms'', Millisecond), (''s'', Second), (''m'', 60 * Second), (''h'', 3600 * Second)]"

definition unit_char :: "char \<Rightarrow> bool" where
  "unit_char c \<longleftrightarrow> c \<noteq> CHR ''.'' \<and> \<not> is_digit c"

text \<open>The fraction after the number: its value, the number of its digits and the rest.\<close>

definition leading_fraction :: "string \<Rightarrow> (nat \<times> nat \<times> string) option" where
  "leading_fraction s =
     (case s of
        c # s1 \<Rightarrow>
          if c = CHR ''.''
          then map_option (\<lambda>(f, s2). (f, length s1 - length s2, s2)) (leadingInt 0 s1)
          else Some (0, 0, s)
      | [] \<Rightarrow> Some (0, 0, []))"

text \<open>One round of the loop of \<open>ParseDuration\<close>: a number, a fraction and a unit.\<close>

definition parse_term :: "string \<Rightarrow> (nat \<times> string) option" where
  "parse_term s = do {
     (v, s1) \<leftarrow> leadingInt 0 s;
     (f, digits, s2) \<leftarrow> leading_fraction s1;
     let u = takeWhile unit_char s2;
     if length s1 = length s \<and> digits = 0 then None
     else if u = [] then None
     else do {
       unit \<leftarrow> unitMap u;
       if max_int64 div unit < v then None
       else (let d = v * unit + f * unit div 10 ^ digits
             in if max_int64 < d then None else Some (d, dropWhile unit_char s2))
     }
   }"

lemma leadingInt_length: "leadingInt x s = Some (v, s') \<Longrightarrow> length s' \<le> length s"
  by (induction x s rule: leadingInt.induct) (auto split: if_splits)

lemma leading_fraction_length: "leading_fraction s = Some (f, k, s') \<Longrightarrow> length s' \<le> length s"
  by (auto simp: leading_fraction_def dest: leadingInt_length split: list.splits if_splits)

lemma takeWhile_shorter: "takeWhile P s \<noteq> [] \<Longrightarrow> length (dropWhile P s) < length s"
  by (metis append_eq_conv_conj length_append length_greater_0_conv less_add_same_cancel2 takeWhile_dropWhile_id)

lemma parse_term_shorter: "parse_term s = Some (d, s') \<Longrightarrow> length s' < length s"
  by (auto simp: parse_term_def Let_def bind_eq_Some_conv split: if_splits
      dest!: leadingInt_length leading_fraction_length takeWhile_shorter)

function parse_terms :: "nat \<Rightarrow> string \<Rightarrow> nat option" where
  "parse_terms d s =
     (if s = [] then Some d
      else case parse_term s of
        None \<Rightarrow> None
      | Some (v, s') \<Rightarrow> if max_int64 < d + v then None else parse_terms (d + v) s')"
  by pat_completeness auto
termination
  by (relation "measure (\<lambda>(d, s). length s)") (auto dest: parse_term_shorter)

declare parse_terms.simps [simp del]

text \<open>An optional sign in front.\<close>

definition read_sign :: "string \<Rightarrow> bool \<times> string" where
  "read_sign s =
     (case s of
        c # s1 \<Rightarrow> if c = CHR ''-'' \<or> c = CHR ''+'' then (c = CHR ''-'', s1) else (False, s)
      | [] \<Rightarrow> (False, []))"

definition ParseDuration :: "string \<Rightarrow> int option" where
  "ParseDuration s =
     (let (neg, s1) = read_sign s in
      if s1 = ''0'' then Some 0
      else if s1 = [] then None
      else map_option (\<lambda>d. if neg then - int d else int d) (parse_terms 0 s1))"

subsection \<open>Lemmas\<close>

text \<open>What may follow a number: nothing, or something that is no digit.\<close>

definition no_digit_head :: "string \<Rightarrow> bool" where
  "no_digit_head s \<longleftrightarrow> (case s of [] \<Rightarrow> True | c # _ \<Rightarrow> \<not> is_digit c)"

definition int_limit :: nat where
  "int_limit = 10 * ((max_int64 - 9) div 10)"

lemma leadingInt_digits:
  "list_all is_digit ds \<Longrightarrow> decimal x ds < int_limit \<Longrightarrow> no_digit_head rest \<Longrightarrow>
   leadingInt x (ds @ rest) = Some (decimal x ds, rest)"
proof (induction ds arbitrary: x)
  case Nil
  then show ?case by (cases rest) (simp_all add: no_digit_head_def)
next
  case (Cons d ds)
  let ?y = "10 * x + digit_value d"
  have "?y \<le> decimal ?y ds" by (subst decimal_start) (rule trans_le_add1, simp)
  with Cons.prems(2) have "10 * x < int_limit" by simp
  then have "x < (max_int64 - 9) div 10" by (simp add: int_limit_def max_int64_def)
  with Cons show ?case by simp
qed

lemma leadingInt_show:
  "n < int_limit \<Longrightarrow> no_digit_head rest \<Longrightarrow> leadingInt 0 (show_nat n @ rest) = Some (n, rest)"
  using show_nat_digits [of n] leadingInt_digits [of "show_nat n" 0 rest] by simp

text \<open>\<open>fr\<close> is the fraction \<open>r / 10 ^ prec\<close> as \<open>fmtFrac\<close> writes it.\<close>

definition fraction_of :: "nat \<Rightarrow> nat \<Rightarrow> string \<Rightarrow> bool" where
  "fraction_of prec r fr \<longleftrightarrow>
     (if r = 0 then fr = []
      else \<exists>ds. fr = CHR ''.'' # ds \<and> list_all is_digit ds \<and> ds \<noteq> [] \<and> length ds \<le> prec \<and>
        decimal 0 ds * 10 ^ (prec - length ds) = r)"

lemma fmtFrac_printing:
  "list_all is_digit buf \<Longrightarrow>
   \<exists>ds. fmtFrac prec v True buf = (CHR ''.'' # ds, v div 10 ^ prec) \<and> list_all is_digit ds \<and>
     length ds = prec + length buf \<and>
     decimal 0 ds = (v mod 10 ^ prec) * 10 ^ length buf + decimal 0 buf"
proof (induction prec arbitrary: v buf)
  case (Suc prec)
  let ?buf = "digit_char (v mod 10) # buf"
  have "list_all is_digit ?buf" using Suc.prems by simp
  from Suc.IH [OF this, of "v div 10"] obtain ds where
    ds: "fmtFrac prec (v div 10) True ?buf = (CHR ''.'' # ds, v div 10 div 10 ^ prec)"
    "list_all is_digit ds" "length ds = prec + length ?buf"
    "decimal 0 ds = (v div 10 mod 10 ^ prec) * 10 ^ length ?buf + decimal 0 ?buf" by blast
  have "decimal 0 ?buf = (v mod 10) * 10 ^ length buf + decimal 0 buf"
    by (simp add: decimal_start [of "v mod 10" buf])
  moreover have "v mod 10 ^ Suc prec = 10 * (v div 10 mod 10 ^ prec) + v mod 10"
    by (simp add: mod_mult2_eq)
  ultimately have "decimal 0 ds = (v mod 10 ^ Suc prec) * 10 ^ length buf + decimal 0 buf"
    using ds(4) by (simp add: algebra_simps)
  with ds(1-3) show ?case by (intro exI [of _ ds]) (simp add: Let_def div_mult2_eq)
qed simp

lemma fmtFrac_eq:
  "snd (fmtFrac prec v False []) = v div 10 ^ prec \<and>
   fraction_of prec (v mod 10 ^ prec) (fst (fmtFrac prec v False []))"
proof (induction prec arbitrary: v)
  case (Suc prec)
  have split: "v mod 10 ^ Suc prec = 10 * (v div 10 mod 10 ^ prec) + v mod 10"
    by (simp add: mod_mult2_eq)
  show ?case
  proof (cases "v mod 10 = 0")
    case True
    then have eq: "fmtFrac (Suc prec) v False [] = fmtFrac prec (v div 10) False []" by (simp add: Let_def)
    have "fraction_of (Suc prec) (10 * r) fr" if "fraction_of prec r fr" for r fr
      using that unfolding fraction_of_def by (auto simp: Suc_diff_le split: if_splits)
    with Suc.IH [of "v div 10"] True show ?thesis
      unfolding split eq by (simp add: div_mult2_eq)
  next
    case False
    have "list_all is_digit [digit_char (v mod 10)]" by simp
    from fmtFrac_printing [OF this, of prec "v div 10"] obtain ds where
      "fmtFrac prec (v div 10) True [digit_char (v mod 10)] = (CHR ''.'' # ds, v div 10 div 10 ^ prec)"
      "list_all is_digit ds" "length ds = Suc prec"
      "decimal 0 ds = (v div 10 mod 10 ^ prec) * 10 + v mod 10" by auto
    with False show ?thesis
      unfolding split fraction_of_def
      by (intro conjI) (auto simp: Let_def div_mult2_eq)
  qed
qed (simp add: fraction_of_def)

lemma fmtFrac_cases:
  obtains fr where "fmtFrac prec v False [] = (fr, v div 10 ^ prec)" "fraction_of prec (v mod 10 ^ prec) fr"
  using fmtFrac_eq [of prec v] by (metis prod.collapse)

text \<open>A unit ends where the next number starts.\<close>

definition next_number :: "string \<Rightarrow> bool" where
  "next_number s \<longleftrightarrow> (case s of [] \<Rightarrow> True | c # _ \<Rightarrow> \<not> unit_char c)"

lemma unit_then_rest:
  "list_all unit_char u \<Longrightarrow> next_number rest \<Longrightarrow>
   takeWhile unit_char (u @ rest) = u \<and> dropWhile unit_char (u @ rest) = rest"
  by (cases rest) (simp_all add: next_number_def list_all_iff takeWhile_append2 dropWhile_append2)

lemma unit_start: "list_all unit_char u \<Longrightarrow> u \<noteq> [] \<Longrightarrow> no_digit_head (u @ rest)"
  by (cases u) (simp_all add: no_digit_head_def unit_char_def)

lemma leading_fraction_eq:
  assumes "fraction_of prec r fr" and "10 ^ prec < int_limit" and "r < 10 ^ prec"
    and u: "list_all unit_char u" "u \<noteq> []"
  shows "\<exists>f k. leading_fraction (fr @ u @ rest) = Some (f, k, u @ rest) \<and> f * 10 ^ prec div 10 ^ k = r"
proof (cases "r = 0")
  case True
  obtain c cs where "u = c # cs" "unit_char c" using u by (cases u) auto
  then have "leading_fraction (u @ rest) = Some (0, 0, u @ rest)"
    by (simp add: leading_fraction_def unit_char_def)
  with True assms(1) show ?thesis by (auto simp: fraction_of_def)
next
  case False
  with assms(1) obtain ds where fr: "fr = CHR ''.'' # ds" and ds: "list_all is_digit ds" "length ds \<le> prec"
    "decimal 0 ds * 10 ^ (prec - length ds) = r" by (auto simp: fraction_of_def)
  have "decimal 0 ds \<le> r" unfolding ds(3) [symmetric] by simp
  with assms(2,3) have "decimal 0 ds < int_limit" by simp
  from leadingInt_digits [OF ds(1) this unit_start [OF u]]
  have "leading_fraction (fr @ u @ rest) = Some (decimal 0 ds, length ds, u @ rest)"
    by (simp add: leading_fraction_def fr)
  moreover have "decimal 0 ds * 10 ^ prec div 10 ^ length ds = r"
  proof -
    have "(10 :: nat) ^ prec = 10 ^ (prec - length ds) * 10 ^ length ds"
      using ds(2) by (simp add: power_add [symmetric])
    then have "decimal 0 ds * 10 ^ prec = r * 10 ^ length ds"
      using ds(3) by (metis mult.assoc)
    then show ?thesis by simp
  qed
  ultimately show ?thesis by blast
qed

lemma parse_term_core:
  assumes frac: "leading_fraction (fr @ u @ rest) = Some (f, k, u @ rest)" "f * n div 10 ^ k = r"
    and "v < int_limit" and "no_digit_head (fr @ u @ rest)"
    and u: "list_all unit_char u" "u \<noteq> []" and unit: "unitMap u = Some n" "0 < n"
    and rest: "next_number rest" and "v * n + r \<le> max_int64"
  shows "parse_term (show_nat v @ fr @ u @ rest) = Some (v * n + r, rest)"
proof -
  from leadingInt_show [OF assms(3,4)] have
    int: "leadingInt 0 (show_nat v @ fr @ u @ rest) = Some (v, fr @ u @ rest)" .
  have "v \<le> max_int64 div n"
    using assms(10) unit(2) by (simp add: less_eq_div_iff_mult_less_eq)
  with frac unit_then_rest [OF u(1) rest] u(2) unit assms(10) show_nat_digits [of v] int
  show ?thesis by (simp add: parse_term_def Let_def)
qed

lemma parse_term_fraction:
  assumes "fraction_of prec r fr" and "10 ^ prec < int_limit" and "r < 10 ^ prec" and "v < int_limit"
    and u: "list_all unit_char u" "u \<noteq> []" and unit: "unitMap u = Some (10 ^ prec)"
    and "next_number rest" and "v * 10 ^ prec + r \<le> max_int64"
  shows "parse_term (show_nat v @ fr @ u @ rest) = Some (v * 10 ^ prec + r, rest)"
proof -
  from leading_fraction_eq [OF assms(1-3) u] obtain f k where
    "leading_fraction (fr @ u @ rest) = Some (f, k, u @ rest)" "f * 10 ^ prec div 10 ^ k = r" by blast
  moreover have "no_digit_head (fr @ u @ rest)"
    using assms(1) unit_start [OF u] by (auto simp: fraction_of_def no_digit_head_def split: if_splits)
  ultimately show ?thesis
    using assms by (intro parse_term_core) simp_all
qed

lemma parse_term_whole:
  assumes "v < int_limit" and u: "list_all unit_char u" "u \<noteq> []" and "unitMap u = Some n" "0 < n"
    and "next_number rest" and "v * n \<le> max_int64"
  shows "parse_term (show_nat v @ u @ rest) = Some (v * n, rest)"
proof -
  have "fraction_of 0 0 []" by (simp add: fraction_of_def)
  from leading_fraction_eq [OF this _ _ u, of rest] have
    "leading_fraction ([] @ u @ rest) = Some (0, 0, u @ rest)"
    using u by (cases u) (simp_all add: leading_fraction_def unit_char_def)
  from parse_term_core [OF this, of n 0 v] unit_start [OF u] assms show ?thesis by simp
qed

lemma parse_terms_step:
  assumes "parse_term s = Some (v, s')" and "d + v \<le> max_int64"
  shows "parse_terms d s = parse_terms (d + v) s'"
proof -
  have "s \<noteq> []" using parse_term_shorter [OF assms(1)] by auto
  with assms show ?thesis by (subst parse_terms.simps) simp
qed

lemma parse_terms_Nil [simp]: "parse_terms d [] = Some d"
  by (subst parse_terms.simps) simp

lemma unit_facts:
  "unitMap ''ns'' = Some (10 ^ 0)" "unitMap [char_of (194 :: nat), char_of (181 :: nat), CHR ''s''] = Some (10 ^ 3)"
  "unitMap ''ms'' = Some (10 ^ 6)" "unitMap ''s'' = Some (10 ^ 9)"
  "unitMap ''m'' = Some (60 * Second)" "unitMap ''h'' = Some (3600 * Second)"
  by (simp_all add: unitMap_def Second_def Millisecond_def Microsecond_def)

lemma unit_chars:
  "list_all unit_char ''ns''" "list_all unit_char [char_of (194 :: nat), char_of (181 :: nat), CHR ''s'']"
  "list_all unit_char ''ms''" "list_all unit_char ''s''" "list_all unit_char ''m''" "list_all unit_char ''h''"
proof -
  have "(of_char (char_of (194 :: nat)) :: nat) \<noteq> of_char (CHR ''.'')"
    "(of_char (char_of (181 :: nat)) :: nat) \<noteq> of_char (CHR ''.'')" by simp_all
  then have "char_of (194 :: nat) \<noteq> CHR ''.''" "char_of (181 :: nat) \<noteq> CHR ''.''" by metis+
  then show "list_all unit_char [char_of (194 :: nat), char_of (181 :: nat), CHR ''s'']"
    by (simp add: unit_char_def is_digit_def)
qed (simp_all add: unit_char_def is_digit_def)

lemma next_number_simps: "next_number []" "next_number (show_nat n @ s)"
  using show_nat_digits [of n]
  by (auto simp: next_number_def unit_char_def split: list.splits)
    (metis append_is_Nil_conv hd_append2 list.pred_inject(2) list.sel(1) list.collapse list.distinct(1))

text \<open>The body of the string of a duration is not empty and starts with a digit.\<close>

lemma show_nat_head: "\<exists>c cs. show_nat n @ s = c # cs \<and> is_digit c"
  using show_nat_digits [of n] by (cases "show_nat n") auto

lemma parse_seconds:
  assumes "fraction_of 9 r fr" "r < Second" "secs < 60" "d + (secs * Second + r) \<le> max_int64"
  shows "parse_terms d (show_nat secs @ fr @ ''s'') = Some (d + (secs * Second + r))"
proof -
  have "parse_term (show_nat secs @ fr @ ''s'' @ []) = Some (secs * 10 ^ 9 + r, [])"
    using assms by (intro parse_term_fraction unit_facts unit_chars next_number_simps)
      (simp_all add: Second_def int_limit_def max_int64_def)
  from parse_terms_step [of _ _ _ d, OF this] assms(4) show ?thesis by (simp add: Second_def)
qed

lemma parse_unit_before:
  assumes "v < int_limit" "list_all unit_char u" "u \<noteq> []" "unitMap u = Some n" "0 < n"
    and "d + v * n \<le> max_int64"
  shows "parse_terms d (show_nat v @ u @ show_nat k @ s) = parse_terms (d + v * n) (show_nat k @ s)"
proof -
  have "parse_term (show_nat v @ u @ show_nat k @ s) = Some (v * n, show_nat k @ s)"
    using assms by (intro parse_term_whole next_number_simps) simp_all
  from parse_terms_step [of _ _ _ d, OF this] assms(6) show ?thesis by simp
qed

lemma parse_small:
  assumes "fraction_of prec (u mod 10 ^ prec) fr" "prec \<le> 6" "u < Second"
    and "list_all unit_char un" "un \<noteq> []" "unitMap un = Some (10 ^ prec)"
  shows "parse_terms 0 (show_nat (u div 10 ^ prec) @ fr @ un) = Some u"
proof -
  have "(10 :: nat) ^ prec \<le> 10 ^ 6" using assms(2) by (rule power_increasing) simp
  then have small: "(10 :: nat) ^ prec < int_limit" by (simp add: int_limit_def max_int64_def)
  have v: "u div 10 ^ prec < int_limit"
    by (rule le_less_trans [OF div_le_dividend]) (use assms(3) in \<open>simp add: int_limit_def max_int64_def Second_def\<close>)
  have whole: "u div 10 ^ prec * 10 ^ prec + u mod 10 ^ prec = u" by (rule div_mult_mod_eq)
  have "u \<le> max_int64" using assms(3) by (simp add: max_int64_def Second_def)
  then have "parse_term (show_nat (u div 10 ^ prec) @ fr @ un @ []) = Some (u, [])"
    using parse_term_fraction [OF assms(1) small _ v assms(4-6), of "[]"] whole by (simp add: next_number_simps)
  from parse_terms_step [of _ _ _ 0, OF this] \<open>u \<le> max_int64\<close> show ?thesis by simp
qed

lemma parse_clock:
  assumes "fraction_of 9 r fr" "r < Second" "(h * 3600 + m * 60 + secs) * Second + r \<le> max_int64"
    and "m < 60" "secs < 60"
  shows "parse_terms 0 (show_nat h @ ''h'' @ show_nat m @ ''m'' @ show_nat secs @ fr @ ''s'') =
      Some ((h * 3600 + m * 60 + secs) * Second + r)"
    and "parse_terms (h * (3600 * Second)) (show_nat m @ ''m'' @ show_nat secs @ fr @ ''s'') =
      Some ((h * 3600 + m * 60 + secs) * Second + r)"
proof -
  let ?H = "h * (3600 * Second)" and ?M = "m * (60 * Second)"
  have sum: "?H + ?M + (secs * Second + r) = (h * 3600 + m * 60 + secs) * Second + r"
    by (simp add: algebra_simps)
  have "h < int_limit" using assms(3) by (simp add: int_limit_def max_int64_def Second_def)
  moreover have "m < int_limit" using assms(4) by (simp add: int_limit_def max_int64_def)
  moreover have "parse_terms (?H + ?M) (show_nat secs @ fr @ ''s'') = Some (?H + ?M + (secs * Second + r))"
    by (rule parse_seconds) (use assms in \<open>simp_all only: sum\<close>)
  ultimately show min: "parse_terms ?H (show_nat m @ ''m'' @ show_nat secs @ fr @ ''s'') =
      Some ((h * 3600 + m * 60 + secs) * Second + r)"
    using assms(3) parse_unit_before [where d = ?H and v = m, OF _ unit_chars(5) _ unit_facts(5), of secs "fr @ ''s''"] sum
    by (simp add: Second_def)
  show "parse_terms 0 (show_nat h @ ''h'' @ show_nat m @ ''m'' @ show_nat secs @ fr @ ''s'') =
      Some ((h * 3600 + m * 60 + secs) * Second + r)"
    using assms(3) parse_unit_before [where d = 0 and v = h, OF \<open>h < int_limit\<close> unit_chars(6) _ unit_facts(6),
        of m "''m'' @ show_nat secs @ fr @ ''s''"] sum min
    by (simp add: Second_def)
qed

lemma parse_magnitude:
  assumes "u \<le> max_int64"
  shows "parse_terms 0 (magnitude_string u) = Some u"
proof (cases "u < Second")
  case True
  have f0: "fraction_of 0 (u mod 10 ^ 0) []" by (simp add: fraction_of_def)
  obtain fr3 where f3: "fmtFrac 3 u False [] = (fr3, u div 10 ^ 3)" "fraction_of 3 (u mod 10 ^ 3) fr3"
    by (rule fmtFrac_cases)
  obtain fr6 where f6: "fmtFrac 6 u False [] = (fr6, u div 10 ^ 6)" "fraction_of 6 (u mod 10 ^ 6) fr6"
    by (rule fmtFrac_cases)
  have zero: "parse_terms 0 ''0s'' = Some 0"
    by (simp add: parse_terms.simps parse_term_def leading_fraction_def is_digit_def digit_value_def
        max_int64_def unit_char_def unitMap_def Second_def)
  show ?thesis
    using True zero parse_small [OF f0 _ True unit_chars(1) _ unit_facts(1)]
      parse_small [OF f3(2) _ True unit_chars(2) _ unit_facts(2)]
      parse_small [OF f6(2) _ True unit_chars(3) _ unit_facts(3)]
    by (simp add: magnitude_string_def f3(1) f6(1) Let_def)
next
  case False
  obtain fr where "fmtFrac 9 u False [] = (fr, u div 10 ^ 9)" "fraction_of 9 (u mod 10 ^ 9) fr"
    by (rule fmtFrac_cases)
  then have fr: "fmtFrac 9 u False [] = (fr, u div Second)" "fraction_of 9 (u mod Second) fr"
    by (simp_all add: Second_def)
  define secs where "secs = u div Second"
  have u: "(secs div 60 div 60 * 3600 + secs div 60 mod 60 * 60 + secs mod 60) * Second + u mod Second = u"
  proof -
    have "secs div 60 div 60 * 60 + secs div 60 mod 60 = secs div 60" "secs div 60 * 60 + secs mod 60 = secs"
      by (rule div_mult_mod_eq)+
    then have "secs div 60 div 60 * 3600 + secs div 60 mod 60 * 60 + secs mod 60 = secs" by linarith
    then show ?thesis by (simp add: secs_def)
  qed
  have r: "u mod Second < Second" by (simp add: Second_def)
  note clock = parse_clock [OF fr(2) r, where h = "secs div 60 div 60" and m = "secs div 60 mod 60"
      and secs = "secs mod 60", unfolded u, OF assms]
  have "parse_terms 0 (show_nat (secs mod 60) @ fr @ ''s'') = Some u" if "secs div 60 = 0"
    using parse_seconds [OF fr(2) r, of "secs mod 60" 0] u that assms by simp
  moreover have "parse_terms 0 (show_nat (secs div 60 mod 60) @ ''m'' @ show_nat (secs mod 60) @ fr @ ''s'') = Some u"
    if "secs div 60 div 60 = 0"
    using clock(2) unfolding that by simp
  ultimately show ?thesis
    using False clock(1) by (simp add: magnitude_string_def fr(1) Let_def flip: secs_def)
qed

definition starts_digit :: "string \<Rightarrow> bool" where
  "starts_digit s \<longleftrightarrow> (case s of [] \<Rightarrow> False | c # _ \<Rightarrow> is_digit c)"

lemma starts_digit_simps [simp]:
  "starts_digit (show_nat n @ s)" "starts_digit ''0s''"
  using show_nat_head [of n s] by (auto simp: starts_digit_def is_digit_def)

lemma magnitude_head: "\<exists>c cs. magnitude_string u = c # cs \<and> is_digit c"
proof -
  have "starts_digit (magnitude_string u)"
    by (simp add: magnitude_string_def Let_def case_prod_beta)
  then show ?thesis by (cases "magnitude_string u") (simp_all add: starts_digit_def)
qed

subsection \<open>Reading an integer\<close>

definition hex_value :: "char \<Rightarrow> nat option" where
  "hex_value c =
     (let n = of_char c :: nat in
      if is_digit c then Some (digit_value c)
      else if 97 \<le> n \<and> n \<le> 122 then Some (n - 97 + 10)
      else if 65 \<le> n \<and> n \<le> 90 then Some (n - 65 + 10)
      else None)"

fun read_digits :: "nat \<Rightarrow> nat \<Rightarrow> nat \<Rightarrow> string \<Rightarrow> nat option" where
  "read_digits base limit x [] = Some x"
| "read_digits base limit x (c # s) =
     (case hex_value c of
        None \<Rightarrow> None
      | Some v \<Rightarrow>
          if base \<le> v then None
          else if limit < x * base + v then None
          else read_digits base limit (x * base + v) s)"

text \<open>\<open>ParseUint(s, 0, 64)\<close>: hexadecimal after \<open>0x\<close>, octal after \<open>0\<close>, else decimal.\<close>

definition ParseUint :: "string \<Rightarrow> nat option" where
  "ParseUint s =
     (case s of
        [] \<Rightarrow> None
      | c # s1 \<Rightarrow>
          if c = CHR ''0'' then
            (case s1 of
               d # s2 \<Rightarrow>
                 if d = CHR ''x'' \<or> d = CHR ''X'' then (if s2 = [] then None else read_digits 16 (2 ^ 64 - 1) 0 s2)
                 else read_digits 8 (2 ^ 64 - 1) 0 s1
             | [] \<Rightarrow> Some 0)
          else read_digits 10 (2 ^ 64 - 1) 0 s)"

definition ParseInt :: "string \<Rightarrow> int option" where
  "ParseInt s =
     (let (neg, s1) = read_sign s in
      case ParseUint s1 of
        None \<Rightarrow> None
      | Some n \<Rightarrow>
          if \<not> neg \<and> max_int64 < n then None
          else if neg \<and> max_int64 + 1 < n then None
          else Some (if neg then - int n else int n))"

lemma hex_value_digit: "is_digit c \<Longrightarrow> hex_value c = Some (digit_value c)"
  by (simp add: hex_value_def Let_def)

lemma digit_value_less: "is_digit c \<Longrightarrow> digit_value c < 10"
  by (auto simp: is_digit_def digit_value_def)

lemma read_decimal:
  "list_all is_digit ds \<Longrightarrow> decimal x ds \<le> limit \<Longrightarrow> read_digits 10 limit x ds = Some (decimal x ds)"
proof (induction ds arbitrary: x)
  case (Cons d ds)
  let ?y = "10 * x + digit_value d"
  have "?y \<le> decimal ?y ds" by (subst decimal_start) (rule trans_le_add1, simp)
  with Cons.prems(2) have "?y \<le> limit" by simp
  with Cons digit_value_less [of d] show ?case by (simp add: hex_value_digit mult.commute not_less)
qed simp

text \<open>Numbers are written without a leading 0.\<close>

lemma show_nat_no_zero: "0 < n \<Longrightarrow> \<exists>c cs. show_nat n = c # cs \<and> c \<noteq> CHR ''0''"
proof (induction n rule: show_nat.induct)
  case (1 n)
  show ?case
  proof (cases "n < 10")
    case True
    have "(of_char (char_of (48 + n)) :: nat) \<noteq> of_char (CHR ''0'')" using True 1(2) by simp
    then have "char_of (48 + n) \<noteq> CHR ''0''" by metis
    with True show ?thesis by (subst show_nat.simps) simp
  next
    case False
    then have "0 < n div 10" by simp
    from 1(1) [OF False this] False show ?thesis by (subst show_nat.simps) auto
  qed
qed

lemma ParseUint_show: "n < 2 ^ 64 \<Longrightarrow> ParseUint (show_nat n) = Some n"
proof (cases "n = 0")
  case True
  have "of_char (CHR ''0'') = (48 :: nat)" by simp
  then have "char_of (48 :: nat) = CHR ''0''" by (metis char_of_char)
  then have "show_nat 0 = [CHR ''0'']" by (subst show_nat.simps) simp
  with True show ?thesis by (simp add: ParseUint_def)
next
  case False
  assume "n < 2 ^ 64"
  moreover from False obtain c cs where "show_nat n = c # cs" "c \<noteq> CHR ''0''" using show_nat_no_zero by blast
  ultimately show ?thesis
    using read_decimal [of "show_nat n" 0 "2 ^ 64 - 1"] show_nat_digits [of n]
    by (simp add: ParseUint_def)
qed

lemma read_sign_digit: "is_digit c \<Longrightarrow> read_sign (c # cs) = (False, c # cs)"
  using not_digits by (auto simp: read_sign_def simp del: not_digits)

subsection \<open>What is written is read back\<close>

text \<open>All durations but the smallest 64-bit one, which \<open>ParseDuration\<close> takes for an overflow.\<close>

lemma ParseDuration_string:
  assumes d: "\<bar>d\<bar> < 2 ^ 63"
  shows "ParseDuration (duration_string d) = Some d"
proof -
  define u where "u = nat \<bar>d\<bar>"
  from d have "u \<le> max_int64" by (simp add: u_def max_int64_def)
  note parse = parse_magnitude [OF this]
  obtain c cs where head: "magnitude_string u = c # cs" "is_digit c"
    using magnitude_head by blast
  have "parse_terms 0 ''0'' = None"
    by (simp add: parse_terms.simps parse_term_def leading_fraction_def is_digit_def digit_value_def max_int64_def)
  with parse have "magnitude_string u \<noteq> ''0''" by auto
  moreover have "read_sign (magnitude_string u) = (False, magnitude_string u)"
    unfolding head(1) by (rule read_sign_digit) (rule head(2))
  moreover have "read_sign (CHR ''-'' # magnitude_string u) = (True, magnitude_string u)"
    by (simp add: read_sign_def)
  moreover have "magnitude_string u \<noteq> []" using head(1) by simp
  ultimately have "ParseDuration (duration_string d) = Some (if d < 0 then - int u else int u)"
    using parse by (simp add: ParseDuration_def duration_string_def flip: u_def)
  then show ?thesis by (simp add: u_def)
qed

lemma ParseInt_show:
  assumes i: "- (2 ^ 63) \<le> i \<and> i < 2 ^ 63"
  shows "ParseInt (show_int i) = Some i"
proof -
  have sign: "read_sign (show_nat n) = (False, show_nat n)" for n
    using show_nat_head [of n "[]"] read_sign_digit by fastforce
  have minus: "read_sign (CHR ''-'' # s) = (True, s)" for s by (simp add: read_sign_def)
  have "nat i < 2 ^ 64" "nat (- i) < 2 ^ 64" using i by (cases "0 \<le> i"; simp add: nat_less_iff)+
  moreover have "\<not> max_int64 < nat i" "\<not> max_int64 + 1 < nat (- i)"
    using i by (simp_all add: max_int64_def not_less nat_le_iff)
  ultimately show ?thesis
    by (simp add: ParseInt_def show_int_def sign minus ParseUint_show)
qed

end
