(* ===== verification/Command_Line.thy ===== *)
theory Command_Line
  imports Go_Time
begin

text \<open>
  The command line: the flags \<open>cmd/tcp-emitter/main.go\<close> declares, with their defaults, their parsing by
  Go's package \<open>flag\<close>, the whole of \<open>main\<close> from its arguments to the set-up of \<open>Startup\<close>, and the
  arguments \<open>cmd/tcp-emitter/testrunner/runner.go\<close> starts the program with.

  A flag set is a map from names to values, as Go's. The flags that debugserver and lagerflags declare,
  the function that reads the debug address and the two defaults from locket are the parameter record
  \<open>packages\<close>. The command line exits with status 2 on a parse error.
\<close>

subsection \<open>Package flag\<close>

datatype flag_value =
    StringFlag string
  | BoolFlag bool
  | DurationFlag int
  | IntFlag int
  | UintFlag "64 word"
  | Uint64Flag "64 word"

type_synonym flag_set = "string \<Rightarrow> flag_value option"

definition ParseBool :: "string \<Rightarrow> bool option" where
  "ParseBool s =
     (if s \<in> {''1'', ''t'', ''T'', ''TRUE'', ''true'', ''True''} then Some True
      else if s \<in> {''0'', ''f'', ''F'', ''FALSE'', ''false'', ''False''} then Some False
      else None)"

fun set_value :: "flag_value \<Rightarrow> string \<Rightarrow> flag_value option" where
  "set_value (StringFlag _) s = Some (StringFlag s)"
| "set_value (BoolFlag _) s = map_option BoolFlag (ParseBool s)"
| "set_value (DurationFlag _) s = map_option DurationFlag (ParseDuration s)"
| "set_value (IntFlag _) s = map_option IntFlag (ParseInt s)"
| "set_value (UintFlag _) s = map_option (UintFlag \<circ> of_nat) (ParseUint s)"
| "set_value (Uint64Flag _) s = map_option (Uint64Flag \<circ> of_nat) (ParseUint s)"

fun is_bool_flag :: "flag_value \<Rightarrow> bool" where
  "is_bool_flag (BoolFlag _) = True"
| "is_bool_flag _ = False"

datatype flag_error =
    BadFlagSyntax string
  | HelpRequested
  | FlagNotDefined string
  | FlagNeedsArgument string
  | InvalidValue string string

text \<open>\<open>parseOne\<close>, in its steps: the name and the value after the first equals sign, the value set.\<close>

definition flag_parts :: "string \<Rightarrow> string \<times> string option" where
  "flag_parts name =
     (let key = takeWhile (\<lambda>c. c \<noteq> CHR ''='') name
      in (key, if CHR ''='' \<in> set name then Some (drop (Suc (length key)) name) else None))"

definition set_flag ::
  "flag_set \<Rightarrow> string \<Rightarrow> flag_value \<Rightarrow> string \<Rightarrow> string list \<Rightarrow> flag_error + flag_set \<times> string list" where
  "set_flag fs key flag value args =
     (case set_value flag value of
        None \<Rightarrow> Inl (InvalidValue value key)
      | Some v \<Rightarrow> Inr (fs(key \<mapsto> v), args))"

definition apply_flag ::
  "flag_set \<Rightarrow> string \<Rightarrow> string option \<Rightarrow> string list \<Rightarrow> flag_error + flag_set \<times> string list" where
  "apply_flag fs key value args =
     (case fs key of
        None \<Rightarrow> Inl (if key = ''help'' \<or> key = ''h'' then HelpRequested else FlagNotDefined key)
      | Some flag \<Rightarrow>
          (case value of
             Some v \<Rightarrow> set_flag fs key flag v args
           | None \<Rightarrow>
               if is_bool_flag flag then Inr (fs(key \<mapsto> BoolFlag True), args)
               else (case args of
                       [] \<Rightarrow> Inl (FlagNeedsArgument key)
                     | v # args1 \<Rightarrow> set_flag fs key flag v args1)))"

text \<open>\<open>Inr None\<close>: the argument is no flag and parsing stops before it.\<close>

definition flag_argument :: "string \<Rightarrow> flag_error + string option" where
  "flag_argument s =
     (if length s < 2 \<or> hd s \<noteq> CHR ''-'' then Inr None
      else
        (let name = (if s ! 1 = CHR ''-'' then drop 2 s else drop 1 s) in
         if name = [] \<or> hd name = CHR ''-'' \<or> hd name = CHR ''='' then Inl (BadFlagSyntax s)
         else Inr (Some name)))"

text \<open>\<open>Parse\<close>: the flags up to the first argument that is none, or a double dash; the rest is left over.\<close>

lemma apply_flag_shorter: "apply_flag fs key value args = Inr (fs', args') \<Longrightarrow> length args' \<le> length args"
  by (auto simp: apply_flag_def set_flag_def split: option.splits list.splits if_splits)

function parse_flags :: "flag_set \<Rightarrow> string list \<Rightarrow> flag_error + flag_set \<times> string list" where
  "parse_flags fs [] = Inr (fs, [])"
| "parse_flags fs (s # args) =
     (if s = ''--'' then Inr (fs, args)
      else case flag_argument s of
        Inl err \<Rightarrow> Inl err
      | Inr None \<Rightarrow> Inr (fs, s # args)
      | Inr (Some name) \<Rightarrow>
          (case apply_flag fs (fst (flag_parts name)) (snd (flag_parts name)) args of
             Inl err \<Rightarrow> Inl err
           | Inr (fs1, args1) \<Rightarrow> parse_flags fs1 args1))"
  by pat_completeness auto
termination
  by (relation "measure (\<lambda>(fs, args). length args)") (auto dest: apply_flag_shorter)

declare parse_flags.simps(2) [simp del]

subsection \<open>The flags of the program\<close>

definition defaultTokenFetchRetryInterval :: int where
  "defaultTokenFetchRetryInterval = 5 * int Second"

definition defaultTokenFetchNumRetries :: "64 word" where
  "defaultTokenFetchNumRetries = 3"

record packages =
  pk_flags :: "(string \<times> flag_value) list"
  pk_DebugAddress :: "flag_set \<Rightarrow> string"
  pk_DefaultSessionTTL :: int
  pk_RetryInterval :: int

definition declared_flags :: "packages \<Rightarrow> (string \<times> flag_value) list" where
  "declared_flags pk =
     [(''bbsAddress'', StringFlag []),
      (''communicationTimeout'', DurationFlag (10 * int Second)),
      (''syncInterval'', DurationFlag (20 * int Second)),
      (''bbsCACert'', StringFlag []),
      (''bbsClientCert'', StringFlag []),
      (''bbsClientKey'', StringFlag []),
      (''config'', StringFlag ''/var/vcap/jobs/tcp_emitter/config/tcp_emitter.yml''),
      (''consulCluster'', StringFlag []),
      (''lockTTL'', DurationFlag (pk_DefaultSessionTTL pk)),
      (''lockRetryInterval'', DurationFlag (pk_RetryInterval pk)),
      (''sessionName'', StringFlag ''tcp-emitter''),
      (''routeTTL'', DurationFlag (120 * int Second)),
      (''tokenFetchMaxRetries'', UintFlag defaultTokenFetchNumRetries),
      (''tokenFetchRetryInterval'', DurationFlag defaultTokenFetchRetryInterval),
      (''tokenFetchExpirationBufferTime'', Uint64Flag 30),
      (''dropsondePort'', IntFlag 3457),
      (''bbsClientSessionCacheSize'', IntFlag 0),
      (''bbsMaxIdleConnsPerHost'', IntFlag 0)]"

definition CommandLine :: "packages \<Rightarrow> flag_set" where
  "CommandLine pk = map_of (declared_flags pk @ pk_flags pk)"

text \<open>Reading a flag through the pointer its declaration returned.\<close>

definition string_flag :: "flag_set \<Rightarrow> string \<Rightarrow> string" where
  "string_flag fs name = (case fs name of Some (StringFlag s) \<Rightarrow> s | _ \<Rightarrow> [])"

definition duration_flag :: "flag_set \<Rightarrow> string \<Rightarrow> int" where
  "duration_flag fs name = (case fs name of Some (DurationFlag d) \<Rightarrow> d | _ \<Rightarrow> 0)"

definition int_flag :: "flag_set \<Rightarrow> string \<Rightarrow> int" where
  "int_flag fs name = (case fs name of Some (IntFlag i) \<Rightarrow> i | _ \<Rightarrow> 0)"

definition uint_flag :: "flag_set \<Rightarrow> string \<Rightarrow> 64 word" where
  "uint_flag fs name =
     (case fs name of Some (UintFlag n) \<Rightarrow> n | Some (Uint64Flag n) \<Rightarrow> n | _ \<Rightarrow> 0)"

definition flags_of :: "packages \<Rightarrow> flag_set \<Rightarrow> flags" where
  "flags_of pk fs =
     \<lparr>fl_bbsAddress = string_flag fs ''bbsAddress'',
      fl_communicationTimeout = duration_flag fs ''communicationTimeout'',
      fl_syncInterval = duration_flag fs ''syncInterval'',
      fl_bbsCACert = string_flag fs ''bbsCACert'',
      fl_bbsClientCert = string_flag fs ''bbsClientCert'',
      fl_bbsClientKey = string_flag fs ''bbsClientKey'',
      fl_configFile = string_flag fs ''config'',
      fl_consulCluster = string_flag fs ''consulCluster'',
      fl_lockTTL = duration_flag fs ''lockTTL'',
      fl_lockRetryInterval = duration_flag fs ''lockRetryInterval'',
      fl_sessionName = string_flag fs ''sessionName'',
      fl_routeTTL = duration_flag fs ''routeTTL'',
      fl_tokenFetchMaxRetries = uint_flag fs ''tokenFetchMaxRetries'',
      fl_tokenFetchRetryInterval = duration_flag fs ''tokenFetchRetryInterval'',
      fl_tokenFetchExpirationBufferTime = uint_flag fs ''tokenFetchExpirationBufferTime'',
      fl_dropsondePort = int_flag fs ''dropsondePort'',
      fl_bbsClientSessionCacheSize = int_flag fs ''bbsClientSessionCacheSize'',
      fl_bbsMaxIdleConnsPerHost = int_flag fs ''bbsMaxIdleConnsPerHost'',
      fl_debugAddr = pk_DebugAddress pk fs\<rparr>"

text \<open>\<open>main\<close> up to the running of its members.\<close>

definition main ::
  "packages \<Rightarrow> ('bbs, 'uaa, 'consul, 'bytes, 'api, 'lock) libraries \<Rightarrow> string list \<Rightarrow>
   flag_error + ('bbs, 'uaa, 'api, 'lock) program start" where
  "main pk lib args =
     (case parse_flags (CommandLine pk) args of
        Inl err \<Rightarrow> Inl err
      | Inr (fs, _) \<Rightarrow> Inr (main_start lib (flags_of pk fs)))"

text \<open>
  The end of \<open>main\<close>: the status after the group of members has ended, with the error its \<open>Wait\<close> sends.
\<close>

definition main_end :: "go_error option \<Rightarrow> nat" where
  "main_end err = (case err of Some _ \<Rightarrow> 1 | None \<Rightarrow> 0)"

subsection \<open>The test runner\<close>

record runner_args =
  ra_BBSAddress :: string
  ra_BBSClientCert :: string
  ra_BBSCACert :: string
  ra_BBSClientKey :: string
  ra_ConfigFilePath :: string
  ra_SyncInterval :: int
  ra_ConsulCluster :: string
  ra_LockRetryInterval :: int
  ra_SessionName :: string

definition ArgSlice :: "runner_args \<Rightarrow> string list" where
  "ArgSlice args =
     [''-bbsAddress='' @ ra_BBSAddress args,
      ''-bbsCACert='' @ ra_BBSCACert args,
      ''-bbsClientCert='' @ ra_BBSClientCert args,
      ''-bbsClientKey='' @ ra_BBSClientKey args,
      ''-config='' @ ra_ConfigFilePath args,
      ''-syncInterval='' @ duration_string (ra_SyncInterval args),
      ''-logLevel=debug'',
      ''-lockRetryInterval'', ''1s'',
      ''-tokenFetchRetryInterval'', ''1s'',
      ''-consulCluster'', ra_ConsulCluster args,
      ''-sessionName'', ra_SessionName args]"

text \<open>\<open>ginkgomon.Config\<close>, the argument of the runner's constructor.\<close>

record runner_config =
  rn_Name :: string
  rn_AnsiColorCode :: string
  rn_StartCheck :: string
  rn_StartCheckTimeout :: int
  rn_Command :: "string \<times> string list"

definition testrunner_New :: "string \<Rightarrow> runner_args \<Rightarrow> runner_config" where
  "testrunner_New binPath args =
     \<lparr>rn_Name = ''tcp-emitter'', rn_AnsiColorCode = ''1;95m'', rn_StartCheck = ''tcp-emitter.started'',
      rn_StartCheckTimeout = 10 * int Second, rn_Command = (binPath, ArgSlice args)\<rparr>"

subsection \<open>Lemmas: one flag\<close>

text \<open>What may stand between the dash and the equals sign.\<close>

definition flag_name :: "string \<Rightarrow> bool" where
  "flag_name key \<longleftrightarrow> key \<noteq> [] \<and> hd key \<noteq> CHR ''-'' \<and> CHR ''='' \<notin> set key"

lemma flag_argument_name:
  assumes "flag_name key"
  shows "flag_argument (CHR ''-'' # key @ s) = Inr (Some (key @ s))" "CHR ''-'' # key @ s \<noteq> ''--''"
  using assms by (cases key; auto simp: flag_name_def flag_argument_def)+

lemma flag_parts_name:
  assumes "flag_name key"
  shows "flag_parts (key @ CHR ''='' # value) = (key, Some value)" "flag_parts key = (key, None)"
proof -
  have "takeWhile (\<lambda>c. c \<noteq> CHR ''='') (key @ CHR ''='' # value) = key"
    using assms by (subst takeWhile_append2) (auto simp: flag_name_def)
  then show "flag_parts (key @ CHR ''='' # value) = (key, Some value)" by (simp add: flag_parts_def)
  have "takeWhile (\<lambda>c. c \<noteq> CHR ''='') key = key"
    using assms by (auto simp: flag_name_def)
  then show "flag_parts key = (key, None)" using assms by (simp add: flag_parts_def flag_name_def)
qed

lemma parse_with_value:
  assumes "flag_name key" "fs key = Some flag" "set_value flag value = Some v"
  shows "parse_flags fs ((CHR ''-'' # key @ CHR ''='' # value) # args) = parse_flags (fs(key \<mapsto> v)) args"
  using assms(2,3) flag_argument_name [OF assms(1)] flag_parts_name [OF assms(1)]
  by (simp add: parse_flags.simps(2) apply_flag_def set_flag_def)

lemma parse_next_value:
  assumes "flag_name key" "fs key = Some flag" "\<not> is_bool_flag flag" "set_value flag value = Some v"
  shows "parse_flags fs ((CHR ''-'' # key) # value # args) = parse_flags (fs(key \<mapsto> v)) args"
  using assms(2-4) flag_argument_name [OF assms(1), of "[]"] flag_parts_name(2) [OF assms(1)]
  by (simp add: parse_flags.simps(2) apply_flag_def set_flag_def)

text \<open>The kind of a flag.\<close>

fun same_kind :: "flag_value \<Rightarrow> flag_value \<Rightarrow> bool" where
  "same_kind (StringFlag _) (StringFlag _) = True"
| "same_kind (BoolFlag _) (BoolFlag _) = True"
| "same_kind (DurationFlag _) (DurationFlag _) = True"
| "same_kind (IntFlag _) (IntFlag _) = True"
| "same_kind (UintFlag _) (UintFlag _) = True"
| "same_kind (Uint64Flag _) (Uint64Flag _) = True"
| "same_kind _ _ = False"

lemma same_kind_refl [simp]: "same_kind v v"
  by (cases v) simp_all

lemma same_kind_trans: "same_kind u v \<Longrightarrow> same_kind v w \<Longrightarrow> same_kind u w"
  by (cases u; cases v; cases w) simp_all

lemma set_value_kind: "set_value v s = Some v' \<Longrightarrow> same_kind v v'"
  by (cases v) auto

definition same_kinds :: "flag_set \<Rightarrow> flag_set \<Rightarrow> bool" where
  "same_kinds fs fs' \<longleftrightarrow> (\<forall>key. rel_option same_kind (fs key) (fs' key))"

lemma same_kinds_refl: "same_kinds fs fs"
  by (simp add: same_kinds_def option.rel_refl)

lemma same_kinds_trans:
  assumes "same_kinds fs fs'" and "same_kinds fs' fs''"
  shows "same_kinds fs fs''"
  unfolding same_kinds_def
proof
  fix key
  from assms have "rel_option same_kind (fs key) (fs' key)" "rel_option same_kind (fs' key) (fs'' key)"
    by (simp_all add: same_kinds_def)
  then show "rel_option same_kind (fs key) (fs'' key)"
    by (cases "fs key"; cases "fs' key"; cases "fs'' key") (auto intro: same_kind_trans)
qed

lemma same_kinds_set:
  assumes "fs key = Some v" and "same_kind v v'"
  shows "same_kinds fs (fs(key \<mapsto> v'))"
  using assms by (simp add: same_kinds_def option.rel_refl)

lemma apply_flag_kinds:
  assumes "apply_flag fs key value args = Inr (fs', args')"
  shows "same_kinds fs fs'"
proof -
  have "same_kinds fs fs1" if "set_flag fs key flag v as = Inr (fs1, as')" "fs key = Some flag" for flag v as fs1 as'
    using that set_value_kind by (auto simp: set_flag_def intro!: same_kinds_set split: option.splits)
  moreover have "same_kind flag (BoolFlag True)" if "is_bool_flag flag" for flag
    using that by (cases flag) simp_all
  ultimately show ?thesis
    using assms by (auto simp: apply_flag_def same_kinds_set split: option.splits list.splits if_splits)
qed

lemma parse_flags_kinds: "parse_flags fs args = Inr (fs', rest) \<Longrightarrow> same_kinds fs fs'"
proof (induction fs args rule: parse_flags.induct)
  case (1 fs)
  then show ?case by (simp add: same_kinds_refl)
next
  case (2 fs s args)
  consider (stop) "fs' = fs"
    | (flag) name fs1 args1 where "s \<noteq> ''--''" "flag_argument s = Inr (Some name)"
      "apply_flag fs (fst (flag_parts name)) (snd (flag_parts name)) args = Inr (fs1, args1)"
      "parse_flags fs1 args1 = Inr (fs', rest)"
    using 2(2) by (auto simp: parse_flags.simps(2) split: if_splits sum.splits option.splits)
  then show ?case
  proof cases
    case flag
    then have "same_kinds fs1 fs'" using 2(1) by blast
    with apply_flag_kinds [OF flag(3)] show ?thesis by (rule same_kinds_trans)
  qed (simp add: same_kinds_refl)
qed

text \<open>The values a 64-bit flag can have.\<close>

fun fits :: "flag_value \<Rightarrow> bool" where
  "fits (DurationFlag d) \<longleftrightarrow> \<bar>d\<bar> < 2 ^ 63"
| "fits (IntFlag i) \<longleftrightarrow> - (2 ^ 63) \<le> i \<and> i < 2 ^ 63"
| "fits _ \<longleftrightarrow> True"

lemma parse_terms_range: "parse_terms d s = Some r \<Longrightarrow> d \<le> max_int64 \<Longrightarrow> r \<le> max_int64"
proof (induction d s rule: parse_terms.induct)
  case (1 d s)
  show ?case
  proof (cases "s = []")
    case False
    with 1(2) obtain v s' where "parse_term s = Some (v, s')" "\<not> max_int64 < d + v"
      "parse_terms (d + v) s' = Some r"
      by (subst (asm) parse_terms.simps) (auto split: option.splits if_splits)
    with False 1(1) show ?thesis by simp
  qed (use 1(2,3) in simp)
qed

lemma ParseDuration_range: "ParseDuration s = Some d \<Longrightarrow> \<bar>d\<bar> < 2 ^ 63"
proof -
  assume d: "ParseDuration s = Some d"
  obtain neg s1 where "read_sign s = (neg, s1)" by fastforce
  with d have "d = 0 \<or> (\<exists>r. parse_terms 0 s1 = Some r \<and> d = (if neg then - int r else int r))"
    by (auto simp: ParseDuration_def split: if_splits)
  moreover have "int r < 2 ^ 63" if "parse_terms 0 s1 = Some r" for r
    using parse_terms_range [OF that] by (simp add: max_int64_def)
  ultimately show ?thesis by (auto split: if_splits)
qed

lemma ParseInt_range: "ParseInt s = Some i \<Longrightarrow> - (2 ^ 63) \<le> i \<and> i < 2 ^ 63"
  by (auto simp: ParseInt_def max_int64_def split: prod.splits option.splits if_splits)

lemma set_value_fits: "set_value v s = Some v' \<Longrightarrow> fits v'"
  by (cases v) (auto dest: ParseDuration_range ParseInt_range)

definition all_fit :: "flag_set \<Rightarrow> bool" where
  "all_fit fs \<longleftrightarrow> (\<forall>v \<in> ran fs. fits v)"

lemma all_fit_set: "all_fit fs \<Longrightarrow> fits v \<Longrightarrow> all_fit (fs(key \<mapsto> v))"
  by (auto simp: all_fit_def ran_def)

lemma set_flag_fits: "set_flag fs key flag v args = Inr (fs', args') \<Longrightarrow> all_fit fs \<Longrightarrow> all_fit fs'"
  by (auto simp: set_flag_def intro!: all_fit_set dest: set_value_fits split: option.splits)

lemma apply_flag_fits: "apply_flag fs key value args = Inr (fs', args') \<Longrightarrow> all_fit fs \<Longrightarrow> all_fit fs'"
  by (auto simp: apply_flag_def all_fit_set intro: set_flag_fits split: option.splits list.splits if_splits)

lemma parse_flags_fit: "parse_flags fs args = Inr (fs', rest) \<Longrightarrow> all_fit fs \<Longrightarrow> all_fit fs'"
proof (induction fs args rule: parse_flags.induct)
  case (2 fs s args)
  consider (stop) "fs' = fs"
    | (flag) name fs1 args1 where "s \<noteq> ''--''" "flag_argument s = Inr (Some name)"
      "apply_flag fs (fst (flag_parts name)) (snd (flag_parts name)) args = Inr (fs1, args1)"
      "parse_flags fs1 args1 = Inr (fs', rest)"
    using 2(2) by (auto simp: parse_flags.simps(2) split: if_splits sum.splits option.splits)
  then show ?case
  proof cases
    case flag
    then show ?thesis using 2(1) apply_flag_fits [OF flag(3) 2(3)] by blast
  qed (simp add: 2(3))
qed simp

lemma declared_lookup: "(name, v) \<in> set (declared_flags pk) \<Longrightarrow> CommandLine pk name = Some v"
proof -
  assume v: "(name, v) \<in> set (declared_flags pk)"
  have "distinct (map fst (declared_flags pk))" by (simp add: declared_flags_def)
  from map_of_is_SomeI [OF this v] show ?thesis by (simp add: CommandLine_def map_add_def)
qed

lemma one_second: "duration_string (int Second) = ''1s''"
proof -
  have "fmtFrac 9 Second False [] = ([], 1)"
    using fmtFrac_eq [of 9 Second] by (simp add: Second_def fraction_of_def prod_eq_iff)
  moreover have "of_char (CHR ''1'') = (49 :: nat)" by simp
  then have "char_of (49 :: nat) = CHR ''1''" by (metis char_of_char)
  then have "show_nat 1 = ''1''" by (subst show_nat.simps) simp
  ultimately show ?thesis
    by (simp add: duration_string_def magnitude_string_def Second_def)
qed

subsection \<open>Lemmas: a list of settings\<close>

text \<open>A flag with its value, after an equals sign or as the next argument.\<close>

fun setting_args :: "bool \<times> string \<times> string \<times> flag_value \<Rightarrow> string list" where
  "setting_args (True, key, s, _) = [CHR ''-'' # key @ CHR ''='' # s]"
| "setting_args (False, key, s, _) = [CHR ''-'' # key, s]"

fun setting_ok :: "flag_set \<Rightarrow> bool \<times> string \<times> string \<times> flag_value \<Rightarrow> bool" where
  "setting_ok fs (_, key, s, v) \<longleftrightarrow>
     flag_name key \<and> (\<exists>flag. fs key = Some flag \<and> \<not> is_bool_flag flag \<and> set_value flag s = Some v)"

definition setting_values :: "(bool \<times> string \<times> string \<times> flag_value) list \<Rightarrow> (string \<times> flag_value) list" where
  "setting_values = map (\<lambda>(_, key, _, v). (key, v))"

lemma setting_values_simps [simp]:
  "setting_values [] = []"
  "setting_values ((eq, key, s, v) # xs) = (key, v) # setting_values xs"
  by (simp_all add: setting_values_def)

lemma parse_setting:
  assumes "setting_ok fs (eq, key, s, v)"
  shows "parse_flags fs (setting_args (eq, key, s, v) @ args) = parse_flags (fs(key \<mapsto> v)) args"
  using assms parse_with_value [of key fs _ s v args] parse_next_value [of key fs _ s v args]
  by (cases eq) auto

lemma parse_settings:
  assumes "distinct (map fst (setting_values xs))" and "list_all (setting_ok fs) xs"
  shows "parse_flags fs (concat (map setting_args xs) @ args) = parse_flags (fs ++ map_of (setting_values xs)) args"
  using assms
proof (induction xs arbitrary: fs)
  case (Cons x xs)
  obtain eq key s v where x: "x = (eq, key, s, v)" by (cases x)
  from Cons.prems(1) have fresh: "key \<notin> fst ` set (setting_values xs)" by (simp add: x)
  have "list_all (setting_ok (fs(key \<mapsto> v))) xs"
    using Cons.prems(2) fresh
    by (force simp: list_all_iff setting_values_def image_iff)
  then have rest: "parse_flags (fs(key \<mapsto> v)) (concat (map setting_args xs) @ args) =
      parse_flags (fs(key \<mapsto> v) ++ map_of (setting_values xs)) args"
    using Cons by (simp add: x)
  have first: "parse_flags fs (concat (map setting_args (x # xs)) @ args) =
      parse_flags (fs(key \<mapsto> v)) (concat (map setting_args xs) @ args)"
    using parse_setting [of fs eq key s v] Cons.prems(2) by (simp add: x)
  have "fs(key \<mapsto> v) ++ map_of (setting_values xs) = (fs ++ map_of (setting_values xs))(key \<mapsto> v)"
    by (rule map_add_upd_left) (use fresh in \<open>simp add: dom_map_of_conv_image_fst\<close>)
  also have "\<dots> = fs ++ map_of (setting_values (x # xs))"
    by (simp add: x fun_eq_iff map_add_def)
  finally show ?case using first rest by argo
qed simp

text \<open>The runner's arguments as settings.\<close>

definition runner_settings :: "runner_args \<Rightarrow> (bool \<times> string \<times> string \<times> flag_value) list" where
  "runner_settings a =
     [(True, ''bbsAddress'', ra_BBSAddress a, StringFlag (ra_BBSAddress a)),
      (True, ''bbsCACert'', ra_BBSCACert a, StringFlag (ra_BBSCACert a)),
      (True, ''bbsClientCert'', ra_BBSClientCert a, StringFlag (ra_BBSClientCert a)),
      (True, ''bbsClientKey'', ra_BBSClientKey a, StringFlag (ra_BBSClientKey a)),
      (True, ''config'', ra_ConfigFilePath a, StringFlag (ra_ConfigFilePath a)),
      (True, ''syncInterval'', duration_string (ra_SyncInterval a), DurationFlag (ra_SyncInterval a)),
      (True, ''logLevel'', ''debug'', StringFlag ''debug''),
      (False, ''lockRetryInterval'', ''1s'', DurationFlag (int Second)),
      (False, ''tokenFetchRetryInterval'', ''1s'', DurationFlag (int Second)),
      (False, ''consulCluster'', ra_ConsulCluster a, StringFlag (ra_ConsulCluster a)),
      (False, ''sessionName'', ra_SessionName a, StringFlag (ra_SessionName a))]"

lemma ArgSlice_settings: "ArgSlice a = concat (map setting_args (runner_settings a))"
  by (simp add: ArgSlice_def runner_settings_def)

lemma runner_settings_distinct: "distinct (map fst (setting_values (runner_settings a)))"
  by (simp add: runner_settings_def)

lemma runner_settings_ok:
  assumes "map_of (pk_flags pk) ''logLevel'' = Some (StringFlag level)" and "\<bar>ra_SyncInterval a\<bar> < 2 ^ 63"
  shows "list_all (setting_ok (CommandLine pk)) (runner_settings a)"
proof -
  have "\<bar>int Second\<bar> < 2 ^ 63" by (simp add: Second_def)
  from ParseDuration_string [OF this] have "ParseDuration ''1s'' = Some (int Second)"
    by (simp only: one_second)
  with assms ParseDuration_string [OF assms(2)] show ?thesis
    by (simp add: runner_settings_def CommandLine_def declared_flags_def map_add_def flag_name_def)
qed

lemma runner_parse:
  assumes "map_of (pk_flags pk) ''logLevel'' = Some (StringFlag level)" and "\<bar>ra_SyncInterval a\<bar> < 2 ^ 63"
  shows "parse_flags (CommandLine pk) (ArgSlice a) =
    Inr (CommandLine pk ++ map_of (setting_values (runner_settings a)), [])"
  using parse_settings [OF runner_settings_distinct runner_settings_ok [OF assms], of "[]"]
  by (simp add: ArgSlice_settings)

subsection \<open>Properties\<close>

text \<open>The values of the flags the program starts with.\<close>

lemma default_flags:
  "flags_of pk (CommandLine pk) =
     \<lparr>fl_bbsAddress = [], fl_communicationTimeout = 10 * int Second, fl_syncInterval = 20 * int Second,
      fl_bbsCACert = [], fl_bbsClientCert = [], fl_bbsClientKey = [],
      fl_configFile = ''/var/vcap/jobs/tcp_emitter/config/tcp_emitter.yml'', fl_consulCluster = [],
      fl_lockTTL = pk_DefaultSessionTTL pk, fl_lockRetryInterval = pk_RetryInterval pk,
      fl_sessionName = ''tcp-emitter'', fl_routeTTL = 120 * int Second, fl_tokenFetchMaxRetries = 3,
      fl_tokenFetchRetryInterval = 5 * int Second, fl_tokenFetchExpirationBufferTime = 30,
      fl_dropsondePort = 3457, fl_bbsClientSessionCacheSize = 0, fl_bbsMaxIdleConnsPerHost = 0,
      fl_debugAddr = pk_DebugAddress pk (CommandLine pk)\<rparr>"
  by (simp add: flags_of_def string_flag_def duration_flag_def int_flag_def uint_flag_def CommandLine_def
      declared_flags_def defaultTokenFetchNumRetries_def defaultTokenFetchRetryInterval_def)

lemma flag_after_parsing:
  assumes "parse_flags (CommandLine pk) args = Inr (fs, rest)" and "all_fit (CommandLine pk)"
    and "CommandLine pk name = Some v0"
  shows "\<exists>v. fs name = Some v \<and> same_kind v0 v \<and> fits v"
proof -
  have "same_kinds (CommandLine pk) fs" by (rule parse_flags_kinds [OF assms(1)])
  then have "rel_option same_kind (Some v0) (fs name)" unfolding same_kinds_def by (metis assms(3))
  then obtain v where "fs name = Some v" "same_kind v0 v" by (cases "fs name") auto
  moreover from this parse_flags_fit [OF assms(1,2)] have "fits v"
    unfolding all_fit_def by (auto intro: ranI)
  ultimately show ?thesis by blast
qed

lemma flag_reads:
  assumes "parse_flags (CommandLine pk) args = Inr (fs, rest)" and "all_fit (CommandLine pk)"
  shows "\<exists>s. CommandLine pk name = Some (StringFlag s) \<Longrightarrow> fs name = Some (StringFlag (string_flag fs name))"
    and "\<exists>d. CommandLine pk name = Some (DurationFlag d) \<Longrightarrow>
      fs name = Some (DurationFlag (duration_flag fs name)) \<and> duration_flag fs name \<in> {- (2 ^ 63)..<2 ^ 63}"
    and "\<exists>i. CommandLine pk name = Some (IntFlag i) \<Longrightarrow>
      fs name = Some (IntFlag (int_flag fs name)) \<and> int_flag fs name \<in> {- (2 ^ 63)..<2 ^ 63}"
    and "\<exists>n. CommandLine pk name = Some (UintFlag n) \<Longrightarrow> fs name = Some (UintFlag (uint_flag fs name))"
    and "\<exists>n. CommandLine pk name = Some (Uint64Flag n) \<Longrightarrow> fs name = Some (Uint64Flag (uint_flag fs name))"
proof -
  have "\<exists>v. fs name = Some v \<and> same_kind v0 v \<and> fits v" if "CommandLine pk name = Some v0" for v0
    using flag_after_parsing [OF assms that] .
  moreover have "same_kind (StringFlag s) v \<longleftrightarrow> (\<exists>s'. v = StringFlag s')"
    "same_kind (DurationFlag d) v \<longleftrightarrow> (\<exists>d'. v = DurationFlag d')"
    "same_kind (IntFlag i) v \<longleftrightarrow> (\<exists>i'. v = IntFlag i')"
    "same_kind (UintFlag n) v \<longleftrightarrow> (\<exists>n'. v = UintFlag n')"
    "same_kind (Uint64Flag n) v \<longleftrightarrow> (\<exists>n'. v = Uint64Flag n')" for s d i n v
    by (cases v; simp)+
  ultimately show "\<exists>s. CommandLine pk name = Some (StringFlag s) \<Longrightarrow> fs name = Some (StringFlag (string_flag fs name))"
    and "\<exists>d. CommandLine pk name = Some (DurationFlag d) \<Longrightarrow>
      fs name = Some (DurationFlag (duration_flag fs name)) \<and> duration_flag fs name \<in> {- (2 ^ 63)..<2 ^ 63}"
    and "\<exists>i. CommandLine pk name = Some (IntFlag i) \<Longrightarrow>
      fs name = Some (IntFlag (int_flag fs name)) \<and> int_flag fs name \<in> {- (2 ^ 63)..<2 ^ 63}"
    and "\<exists>n. CommandLine pk name = Some (UintFlag n) \<Longrightarrow> fs name = Some (UintFlag (uint_flag fs name))"
    and "\<exists>n. CommandLine pk name = Some (Uint64Flag n) \<Longrightarrow> fs name = Some (Uint64Flag (uint_flag fs name))"
    by (force simp: string_flag_def duration_flag_def int_flag_def uint_flag_def)+
qed

text \<open>
  C36: The flags of \<open>main.go\<close>, their defaults and types. Without arguments the program sets itself up with
  the defaults written here (the two of the lock are locket's). And whatever arguments parse, provided
  the defaults of the imported packages fit into their types, each of the eighteen flags has then a
  value of the type \<open>main\<close> reads it at, so no read falls back to a zero value: seven strings, six
  durations and three ints in the range of 64 bits, a \<open>uint\<close> and a \<open>uint64\<close>.
\<close>

theorem flags_typed_with_defaults:
  assumes "all_fit (CommandLine pk)" and "parse_flags (CommandLine pk) args = Inr (fs, rest)"
  shows "main pk lib [] = Inr (main_start lib
      \<lparr>fl_bbsAddress = [], fl_communicationTimeout = 10 * int Second, fl_syncInterval = 20 * int Second,
       fl_bbsCACert = [], fl_bbsClientCert = [], fl_bbsClientKey = [],
       fl_configFile = ''/var/vcap/jobs/tcp_emitter/config/tcp_emitter.yml'', fl_consulCluster = [],
       fl_lockTTL = pk_DefaultSessionTTL pk, fl_lockRetryInterval = pk_RetryInterval pk,
       fl_sessionName = ''tcp-emitter'', fl_routeTTL = 120 * int Second, fl_tokenFetchMaxRetries = 3,
       fl_tokenFetchRetryInterval = 5 * int Second, fl_tokenFetchExpirationBufferTime = 30,
       fl_dropsondePort = 3457, fl_bbsClientSessionCacheSize = 0, fl_bbsMaxIdleConnsPerHost = 0,
       fl_debugAddr = pk_DebugAddress pk (CommandLine pk)\<rparr>) \<and>
    (\<forall>name \<in> {''bbsAddress'', ''bbsCACert'', ''bbsClientCert'', ''bbsClientKey'', ''config'',
        ''consulCluster'', ''sessionName''}. fs name = Some (StringFlag (string_flag fs name))) \<and>
    (\<forall>name \<in> {''communicationTimeout'', ''syncInterval'', ''lockTTL'', ''lockRetryInterval'', ''routeTTL'',
        ''tokenFetchRetryInterval''}. fs name = Some (DurationFlag (duration_flag fs name)) \<and>
        duration_flag fs name \<in> {- (2 ^ 63)..<2 ^ 63}) \<and>
    (\<forall>name \<in> {''dropsondePort'', ''bbsClientSessionCacheSize'', ''bbsMaxIdleConnsPerHost''}.
        fs name = Some (IntFlag (int_flag fs name)) \<and> int_flag fs name \<in> {- (2 ^ 63)..<2 ^ 63}) \<and>
    fs ''tokenFetchMaxRetries'' = Some (UintFlag (uint_flag fs ''tokenFetchMaxRetries'')) \<and>
    fs ''tokenFetchExpirationBufferTime'' = Some (Uint64Flag (uint_flag fs ''tokenFetchExpirationBufferTime''))"
proof -
  note reads = flag_reads [OF assms(2,1)]
  have strings: "\<forall>name \<in> {''bbsAddress'', ''bbsCACert'', ''bbsClientCert'', ''bbsClientKey'', ''config'',
      ''consulCluster'', ''sessionName''}. \<exists>s. CommandLine pk name = Some (StringFlag s)"
    and durations: "\<forall>name \<in> {''communicationTimeout'', ''syncInterval'', ''lockTTL'', ''lockRetryInterval'',
      ''routeTTL'', ''tokenFetchRetryInterval''}. \<exists>d. CommandLine pk name = Some (DurationFlag d)"
    and ints: "\<forall>name \<in> {''dropsondePort'', ''bbsClientSessionCacheSize'', ''bbsMaxIdleConnsPerHost''}.
      \<exists>d. CommandLine pk name = Some (IntFlag d)"
    and uints: "\<exists>n. CommandLine pk ''tokenFetchMaxRetries'' = Some (UintFlag n)"
      "\<exists>n. CommandLine pk ''tokenFetchExpirationBufferTime'' = Some (Uint64Flag n)"
    by (simp_all add: CommandLine_def declared_flags_def)
  have "main pk lib [] = Inr (main_start lib (flags_of pk (CommandLine pk)))" by (simp add: main_def)
  note defaults = this [unfolded default_flags]
  show ?thesis
    by (intro conjI defaults reads(4) [OF uints(1)] reads(5) [OF uints(2)];
      rule ballI, (rule reads(1), rule bspec [OF strings] | rule reads(2), rule bspec [OF durations] |
        rule reads(3), rule bspec [OF ints]), assumption)
qed

text \<open>
  What the program makes of a wrong command line. An argument that is no flag ends the parsing without
  an error: it and all flags after it are ignored, and the program starts with what it had read before.
  A flag that nobody declared, or the last flag without its value, is an error, and nothing is started.
\<close>

lemma command_line_errors:
  "(\<forall>s args. s = [] \<or> hd s \<noteq> CHR ''-'' \<longrightarrow> main pk lib (s # args) = main pk lib []) \<and>
   (\<forall>key args. flag_name key \<and> CommandLine pk key = None \<and> key \<notin> {''help'', ''h''} \<longrightarrow>
      main pk lib ((CHR ''-'' # key) # args) = Inl (FlagNotDefined key)) \<and>
   (\<forall>key v. flag_name key \<and> CommandLine pk key = Some v \<and> \<not> is_bool_flag v \<longrightarrow>
      main pk lib [CHR ''-'' # key] = Inl (FlagNeedsArgument key))"
proof (intro conjI allI impI)
  fix s :: string and args assume "s = [] \<or> hd s \<noteq> CHR ''-''"
  then have "flag_argument s = Inr None \<and> s \<noteq> ''--''" by (cases s) (auto simp: flag_argument_def)
  then show "main pk lib (s # args) = main pk lib []" by (simp add: main_def parse_flags.simps(2))
next
  fix key args assume "flag_name key \<and> CommandLine pk key = None \<and> key \<notin> {''help'', ''h''}"
  with flag_argument_name [of key "[]"] flag_parts_name(2) [of key]
  show "main pk lib ((CHR ''-'' # key) # args) = Inl (FlagNotDefined key)"
    by (simp add: main_def parse_flags.simps(2) apply_flag_def)
next
  fix key v assume "flag_name key \<and> CommandLine pk key = Some v \<and> \<not> is_bool_flag v"
  with flag_argument_name [of key "[]"] flag_parts_name(2) [of key]
  show "main pk lib [CHR ''-'' # key] = Inl (FlagNeedsArgument key)"
    by (simp add: main_def parse_flags.simps(2) apply_flag_def)
qed

text \<open>
  C35: What the test runner passes is what the program reads. The arguments of \<open>ArgSlice\<close> parse without
  anything left over, and the program then has exactly the runner's values, the sync interval through
  its printed form included, and the defaults for everything else. Only \<open>LockRetryInterval\<close> does not
  get through: the retry interval is one second whatever the field says.
\<close>

theorem runner_flags_read_back:
  assumes "map_of (pk_flags pk) ''logLevel'' = Some (StringFlag level)"
    and "\<bar>ra_SyncInterval a\<bar> < 2 ^ 63"
  shows "\<exists>fs. parse_flags (CommandLine pk) (ArgSlice a) = Inr (fs, []) \<and>
    string_flag fs ''logLevel'' = ''debug'' \<and>
    flags_of pk fs =
      \<lparr>fl_bbsAddress = ra_BBSAddress a, fl_communicationTimeout = 10 * int Second,
       fl_syncInterval = ra_SyncInterval a, fl_bbsCACert = ra_BBSCACert a,
       fl_bbsClientCert = ra_BBSClientCert a, fl_bbsClientKey = ra_BBSClientKey a,
       fl_configFile = ra_ConfigFilePath a, fl_consulCluster = ra_ConsulCluster a,
       fl_lockTTL = pk_DefaultSessionTTL pk, fl_lockRetryInterval = int Second,
       fl_sessionName = ra_SessionName a, fl_routeTTL = 120 * int Second, fl_tokenFetchMaxRetries = 3,
       fl_tokenFetchRetryInterval = int Second, fl_tokenFetchExpirationBufferTime = 30,
       fl_dropsondePort = 3457, fl_bbsClientSessionCacheSize = 0, fl_bbsMaxIdleConnsPerHost = 0,
       fl_debugAddr = pk_DebugAddress pk fs\<rparr>"
proof (intro exI conjI)
  show "parse_flags (CommandLine pk) (ArgSlice a) =
      Inr (CommandLine pk ++ map_of (setting_values (runner_settings a)), [])"
    by (rule runner_parse [OF assms])
qed (simp_all add: flags_of_def string_flag_def duration_flag_def int_flag_def uint_flag_def
      runner_settings_def CommandLine_def declared_flags_def map_add_def defaultTokenFetchNumRetries_def)

subsection \<open>Witnesses\<close>

definition sample_packages :: packages where
  "sample_packages =
     \<lparr>pk_flags = [(''debugAddr'', StringFlag []), (''logLevel'', StringFlag ''info'')],
      pk_DebugAddress = \<lambda>fs. string_flag fs ''debugAddr'',
      pk_DefaultSessionTTL = 15 * int Second, pk_RetryInterval = 5 * int Second\<rparr>"

definition sample_args :: runner_args where
  "sample_args =
     \<lparr>ra_BBSAddress = ''http://bbs'', ra_BBSClientCert = [], ra_BBSCACert = [], ra_BBSClientKey = [],
      ra_ConfigFilePath = ''c.yml'', ra_SyncInterval = 5400 * int Second, ra_ConsulCluster = ''http://consul'',
      ra_LockRetryInterval = 7 * int Second, ra_SessionName = ''s''\<rparr>"

lemma sample_packages_fit: "all_fit (CommandLine sample_packages)"
proof -
  have "\<forall>v \<in> snd ` set (declared_flags sample_packages @ pk_flags sample_packages). fits v"
    by (simp add: declared_flags_def sample_packages_def defaultTokenFetchRetryInterval_def Second_def)
  then show ?thesis
    unfolding all_fit_def CommandLine_def ran_def by (force dest: map_of_SomeD)
qed

lemma runner_flags_read_back_witness:
  "\<exists>fs. parse_flags (CommandLine sample_packages) (ArgSlice sample_args) = Inr (fs, []) \<and>
     fl_bbsAddress (flags_of sample_packages fs) = ''http://bbs'' \<and>
     fl_syncInterval (flags_of sample_packages fs) = 5400 * int Second \<and>
     fl_lockRetryInterval (flags_of sample_packages fs) = int Second"
proof -
  have "map_of (pk_flags sample_packages) ''logLevel'' = Some (StringFlag ''info'')"
    by (simp add: sample_packages_def)
  moreover have "\<bar>ra_SyncInterval sample_args\<bar> < 2 ^ 63" by (simp add: sample_args_def Second_def)
  ultimately obtain fs where "parse_flags (CommandLine sample_packages) (ArgSlice sample_args) = Inr (fs, [])"
    "fl_bbsAddress (flags_of sample_packages fs) = ra_BBSAddress sample_args"
    "fl_syncInterval (flags_of sample_packages fs) = ra_SyncInterval sample_args"
    "fl_lockRetryInterval (flags_of sample_packages fs) = int Second"
    using runner_flags_read_back [of sample_packages "''info''" sample_args] by force
  then show ?thesis by (auto simp: sample_args_def)
qed

lemma sample_parse:
  "parse_flags (CommandLine sample_packages) [''-config=x.yml''] =
     Inr ((CommandLine sample_packages)(''config'' \<mapsto> StringFlag ''x.yml''), [])"
  using parse_with_value [of "''config''" "CommandLine sample_packages" _ "''x.yml''" _ "[]"]
  by (simp add: flag_name_def CommandLine_def declared_flags_def)

lemma flags_typed_with_defaults_witness:
  "\<exists>fs. parse_flags (CommandLine sample_packages) [''-config=x.yml''] = Inr (fs, []) \<and>
     fs ''config'' = Some (StringFlag (string_flag fs ''config'')) \<and>
     fs ''syncInterval'' = Some (DurationFlag (duration_flag fs ''syncInterval''))"
proof -
  note typed = flags_typed_with_defaults [OF sample_packages_fit sample_parse, of sample_libraries, THEN conjunct2]
  from typed [THEN conjunct1, THEN bspec, of "''config''"]
    typed [THEN conjunct2, THEN conjunct1, THEN bspec, of "''syncInterval''"] sample_parse
  show ?thesis by simp
qed

lemma command_line_errors_witness:
  "main sample_packages sample_libraries [''stray'', ''-config=x.yml''] = main sample_packages sample_libraries [] \<and>
   main sample_packages sample_libraries [''-x''] = Inl (FlagNotDefined ''x'') \<and>
   main sample_packages sample_libraries [''-config''] = Inl (FlagNeedsArgument ''config'')"
proof -
  note err = command_line_errors [of sample_packages sample_libraries]
  have "flag_name ''x''" "flag_name ''config''" by (simp_all add: flag_name_def)
  moreover have "CommandLine sample_packages ''x'' = None"
    by (simp add: CommandLine_def declared_flags_def sample_packages_def map_add_def)
  moreover have "\<exists>v. CommandLine sample_packages ''config'' = Some v \<and> \<not> is_bool_flag v"
    by (simp add: CommandLine_def declared_flags_def map_add_def)
  moreover have "hd ''stray'' \<noteq> CHR ''-''" by simp
  ultimately show ?thesis using err by auto
qed

end
