(* ===== verification/Program.thy ===== *)
theory Program
  imports Crash Announcement Command_Line
begin

text \<open>
  The whole program: what \<open>main\<close> builds from its clients and flags, put together as the code does, and
  run as the system of watcher and syncer. The libraries' clients are here the world-passing clients of
  \<open>Emitter\<close> and \<open>Routing_Table_Handler\<close>. The lock maintainer and the debug server are other
  packages' members; the group starts the watcher once the lock is held.
\<close>

text \<open>Lines 220 to 225 of \<open>main\<close>: the emitter, the table, the handler, the sync channel's two ends.\<close>

definition start_members ::
  "clock \<Rightarrow> 'm mapping_maker \<Rightarrow> ('w \<Rightarrow> endpoint_key range_order) \<Rightarrow>
   ('w bbs_client, 'w uaa_client, ('m, 'w) routing_api_client, 'lock) program \<Rightarrow> 'w \<Rightarrow> 'w system" where
  "start_members clock mk ord pr w =
     (let emitter = NewEmitter (pr_routingAPIClient pr) (pr_uaaClient pr) (pr_ttl pr);
          routingTable = NewTable None;
          routingTableHandler = NewRoutingTableHandler routingTable (Some (Emit mk ord emitter));
          syncRunner = syncer_New clock (pr_syncInterval pr);
          watcher = NewWatcher (pr_bbsClient pr) clock routingTableHandler
      in join_members watcher syncRunner w)"

lemma start_members_eq:
  "start_members clk mk ord pr w =
     system_start clk (NewRoutingTableHandler (NewTable None)
       (Some (Emit mk ord (NewEmitter (pr_routingAPIClient pr) (pr_uaaClient pr) (pr_ttl pr))))) w
       (pr_syncInterval pr)"
  by (simp add: start_members_def join_members_start)

text \<open>
  The exit status of the process. It is 2 for a parse error, for the panic \<open>logger.Fatal\<close> ends in, and
  when a member panics; 1 for \<open>os.Exit(1)\<close>. When the group ends and which error it sends then is its
  own, the argument \<open>group_sends\<close>; \<open>Wait\<close> hands that error on, if no panic has come first.
\<close>

inductive program_exit ::
  "packages \<Rightarrow> ('w bbs_client, 'w uaa_client, 'consul, 'bytes, ('m, 'w) routing_api_client, 'lock) libraries \<Rightarrow>
   bbs_models \<Rightarrow> ('w \<Rightarrow> routing_key range_order) \<Rightarrow> clock \<Rightarrow> 'm mapping_maker \<Rightarrow>
   ('w \<Rightarrow> endpoint_key range_order) \<Rightarrow> ('w system \<Rightarrow> go_error option \<Rightarrow> bool) \<Rightarrow> 'w \<Rightarrow>
   string list \<Rightarrow> nat \<Rightarrow> bool"
  for pk lib bbs sord clock mk ord group_sends w args where
  bad_arguments: "main pk lib args = Inl err \<Longrightarrow>
    program_exit pk lib bbs sord clock mk ord group_sends w args 2"
| fatal: "main pk lib args = Inr (Fatal m) \<Longrightarrow>
    program_exit pk lib bbs sord clock mk ord group_sends w args 2"
| exit1: "main pk lib args = Inr (Exit1 m) \<Longrightarrow>
    program_exit pk lib bbs sord clock mk ord group_sends w args 1"
| panic: "main pk lib args = Inr (Up pr) \<Longrightarrow>
    system_steps bbs sord (pr_bbsClient pr) (start_members clock mk ord pr w) s \<Longrightarrow> sys_crashed s \<Longrightarrow>
    program_exit pk lib bbs sord clock mk ord group_sends w args 2"
| wait: "main pk lib args = Inr (Up pr) \<Longrightarrow>
    system_steps bbs sord (pr_bbsClient pr) (start_members clock mk ord pr w) s \<Longrightarrow> \<not> sys_crashed s \<Longrightarrow>
    group_sends s err \<Longrightarrow>
    program_exit pk lib bbs sord clock mk ord group_sends w args (main_end err)"

lemma program_flags:
  assumes "parse_flags (CommandLine pk) args = Inr (fs, rest)" and "main pk lib args = Inr (Up pr)"
  shows "pr_ttl pr = whole_seconds (duration_flag fs ''routeTTL'')"
    and "whole_seconds (duration_flag fs ''routeTTL'') \<le> 65535"
    and "pr_syncInterval pr = duration_flag fs ''syncInterval''"
proof -
  have up: "main_start lib (flags_of pk fs) = Up pr"
    using assms by (simp add: main_def)
  show "pr_ttl pr = whole_seconds (duration_flag fs ''routeTTL'')"
    and "whole_seconds (duration_flag fs ''routeTTL'') \<le> 65535"
    using main_start_Up [OF up] whole_seconds_bound by (auto simp: flags_of_def)
  show "pr_syncInterval pr = duration_flag fs ''syncInterval''"
    using main_start_interval [OF up] by (simp add: flags_of_def)
qed

subsection \<open>Properties\<close>

text \<open>
  C13: From the command line to every state of the running program. If the arguments parse and the checks
  pass, then in every state of the system in which the call in progress does not panic the handler
  works with the emitter of the TTL flag, at most 65535 seconds, and a sound table; it is idle between
  calls; every event read from the one subscription has been handled, in order, but for the one on
  its way; and the syncer ticks at the interval of the flag and has started no more syncs than it
  ticked, plus one.
\<close>

theorem program_sound:
  assumes "parse_flags (CommandLine pk) args = Inr (fs, rest)"
    and "main pk lib args = Inr (Up pr)"
    and "system_steps bbs sord (pr_bbsClient pr) (start_members clk mk ord pr w) s"
    and "settled bbs s = Some wa"
  shows "h_emitter (wa_handler wa) =
      Some (Emit mk ord (NewEmitter (pr_routingAPIClient pr) (pr_uaaClient pr)
        (whole_seconds (duration_flag fs ''routeTTL'')))) \<and>
    whole_seconds (duration_flag fs ''routeTTL'') \<le> 65535 \<and>
    reachable_table bbs (h_routingTable (wa_handler wa)) \<and>
    \<not> Syncing (wa_handler wa) \<and> h_cachedEvents (wa_handler wa) = [] \<and>
    (\<exists>c. wa_checkers wa = [c] \<and> wa_read wa = wa_handled wa @ read_event c) \<and>
    sy_syncInterval (sys_syncer s) = duration_flag fs ''syncInterval'' \<and>
    sys_syncs s \<le> Suc (sy_ticks (sys_syncer s))"
proof -
  let ?em = "Emit mk ord (NewEmitter (pr_routingAPIClient pr) (pr_uaaClient pr) (pr_ttl pr))"
  let ?h = "NewRoutingTableHandler (NewTable None) (Some ?em)"
  note start = start_members_eq [of clk mk ord pr w]
  note flags = program_flags [OF assms(1,2)]
  have "watcher_inv bbs (Some ?em) (watcher_start ?h w)"
    by (simp add: watcher_inv_def watcher_start_def sound_state_def NewRoutingTableHandler_def
        reachable_table.new_table)
  from watcher_inv_steps [OF system_run_refines [OF assms(3) [unfolded start] assms(4)] this]
  have inv: "watcher_inv bbs (Some ?em) wa" .
  have ok: "system_ok s"
    using system_ok_steps [OF assms(3) [unfolded start] system_ok_start] .
  have "sy_syncInterval (sys_syncer s) = pr_syncInterval pr"
    by (rule started_ticker(2) [OF assms(3) [unfolded start]])
  moreover have "sys_syncs s \<le> Suc (sy_ticks (sys_syncer s))"
    using ok by (auto simp: system_ok_def syncer_ok_def split: if_splits)
  ultimately show ?thesis
    using inv flags by (auto simp: watcher_inv_def sound_state_def Syncing_def)
qed

text \<open>
  C15: A sync interval that is not positive crashes the program. \<open>main\<close> does not check the flag. Go's
  \<open>NewTicker\<close> panics unless the interval is positive; then the syncer never gets to its select: at most
  one sync is ever done, no tick comes, and once the syncer has made its first request the next thing
  it can do is to take the process down.
\<close>

theorem nonpositive_interval_crashes:
  assumes "parse_flags (CommandLine pk) args = Inr (fs, rest)"
    and "main pk lib args = Inr (Up pr)"
    and "\<And>d. NewTicker clk d \<longleftrightarrow> 0 < d"
    and "duration_flag fs ''syncInterval'' \<le> 0"
    and "system_steps bbs sord (pr_bbsClient pr) (start_members clk mk ord pr w) s"
  shows "sy_phase (sys_syncer s) \<in> {NotStarted, Starting, MakingTicker} \<and>
    sy_ticks (sys_syncer s) = 0 \<and> sys_syncs s \<le> 1 \<and>
    (sy_phase (sys_syncer s) = MakingTicker \<and> \<not> sys_crashed s \<longrightarrow>
       (\<exists>s'. system_step bbs sord (pr_bbsClient pr) s s' \<and> sys_crashed s'))"
proof -
  note run = assms(5) [unfolded start_members_eq]
  have refused: "\<not> NewTicker (sy_clock (sys_syncer s)) (sy_syncInterval (sys_syncer s))"
    using assms(4) by (simp add: started_ticker [OF run] assms(3) program_flags(3) [OF assms(1,2)])
  have "system_ok s" using system_ok_steps [OF run system_ok_start] .
  then have "sy_phase (sys_syncer s) \<in> {NotStarted, Starting, MakingTicker}" "sy_ticks (sys_syncer s) = 0"
    "sys_syncs s \<le> 1"
    using refused
    by (cases "sy_phase (sys_syncer s)"; auto simp: system_ok_def syncer_ok_def split: if_splits)+
  moreover have "\<exists>s'. system_step bbs sord (pr_bbsClient pr) s s' \<and> sys_crashed s'"
    if "sy_phase (sys_syncer s) = MakingTicker" "\<not> sys_crashed s"
    using that refused by (intro crash_step_iff [THEN iffD2]) (simp_all add: ticker_panics_def)
  ultimately show ?thesis by blast
qed

lemma main_cases:
  "main pk lib args = Inl err \<longleftrightarrow> parse_flags (CommandLine pk) args = Inl err"
  "main pk lib args = Inr r \<longleftrightarrow>
     (\<exists>fs rest. parse_flags (CommandLine pk) args = Inr (fs, rest) \<and> main_start lib (flags_of pk fs) = r)"
  by (auto simp: main_def split: sum.splits)

text \<open>A member panics: the state before it, in terms of what the flags say.\<close>

lemma members_panic:
  assumes "parse_flags (CommandLine pk) args = Inr (fs, rest)" and "main_start lib (flags_of pk fs) = Up pr"
  shows "(\<exists>s. system_steps bbs sord (pr_bbsClient pr) (start_members clock mk ord pr w) s \<and> sys_crashed s) \<longleftrightarrow>
    (\<exists>s. system_steps bbs sord (pr_bbsClient pr) (start_members clock mk ord pr w) s \<and> \<not> sys_crashed s \<and>
       panics_next bbs (pr_bbsClient pr) clock (duration_flag fs ''syncInterval'') s)"
proof -
  have "main pk lib args = Inr (Up pr)" using assms by (simp add: main_cases)
  note interval = program_flags(3) [OF assms(1) this]
  show ?thesis
    unfolding start_members_eq interval [symmetric]
    by (rule crash_reached) (simp add: NewRoutingTableHandler_def)
qed

lemma program_exit_cases:
  "program_exit pk lib bbs sord clock mk ord group_sends w args n \<longleftrightarrow>
     n = 0 \<and> (\<exists>pr s. main pk lib args = Inr (Up pr) \<and>
       system_steps bbs sord (pr_bbsClient pr) (start_members clock mk ord pr w) s \<and> \<not> sys_crashed s \<and>
       group_sends s None) \<or>
     n = 1 \<and> ((\<exists>m. main pk lib args = Inr (Exit1 m)) \<or>
       (\<exists>pr s err. main pk lib args = Inr (Up pr) \<and>
          system_steps bbs sord (pr_bbsClient pr) (start_members clock mk ord pr w) s \<and> \<not> sys_crashed s \<and>
          group_sends s (Some err))) \<or>
     n = 2 \<and> ((\<exists>err. main pk lib args = Inl err) \<or> (\<exists>m. main pk lib args = Inr (Fatal m)) \<or>
       (\<exists>pr. main pk lib args = Inr (Up pr) \<and>
          (\<exists>s. system_steps bbs sord (pr_bbsClient pr) (start_members clock mk ord pr w) s \<and> sys_crashed s)))"
    (is "?exit = ?right")
proof
  assume ?exit
  then show ?right
  proof cases
    case (wait pr s err)
    then show ?thesis by (cases err) (simp_all add: main_end_def, blast+)
  qed blast+
next
  note ends = program_exit.wait [where lib = lib and pk = pk and args = args and bbs = bbs and sord = sord
      and clock = clock and mk = mk and ord = ord and w = w and group_sends = group_sends]
  assume ?right
  then show ?exit
    using ends [where err = None] ends [where err = "Some _"] unfolding main_end_def option.case
    by (elim disjE conjE exE) (blast intro: program_exit.intros(1-4))+
qed

text \<open>
  C34: The exit status. The program can end with 0 exactly if its arguments parse, every check passes and
  the group of members ends without an error in a state no panic has led to; with 1 exactly if a check
  fails that calls \<open>os.Exit(1)\<close>, or the group ends with an error; and with 2 exactly in three cases.
  The arguments do not parse. Or, with the BBS reached and the configuration read, the UAA client
  cannot be made (authentication is on, and the port is \<open>-1\<close> or the library refuses), or else, with
  UAA reached and the TTL accepted, the Consul client or the UUID of the lock cannot. Or the members
  run and one panics: on an event that lacks data, on a sync answered with a group that does not
  resolve, or on a ticker of the interval of the flag. There is no other status.
\<close>

theorem exit_status:
  "program_exit pk lib bbs sord clock mk ord group_sends w args n \<longleftrightarrow>
    n = 0 \<and> (\<exists>fs rest pr s. parse_flags (CommandLine pk) args = Inr (fs, rest) \<and>
        main_start lib (flags_of pk fs) = Up pr \<and>
        system_steps bbs sord (pr_bbsClient pr) (start_members clock mk ord pr w) s \<and> \<not> sys_crashed s \<and>
        group_sends s None) \<or>
    n = 1 \<and> (\<exists>fs rest. parse_flags (CommandLine pk) args = Inr (fs, rest) \<and>
        ((\<exists>m. main_start lib (flags_of pk fs) = Exit1 m) \<or>
         (\<exists>pr s err. main_start lib (flags_of pk fs) = Up pr \<and>
            system_steps bbs sord (pr_bbsClient pr) (start_members clock mk ord pr w) s \<and> \<not> sys_crashed s \<and>
            group_sends s (Some err)))) \<or>
    n = 2 \<and> ((\<exists>err. parse_flags (CommandLine pk) args = Inl err) \<or>
       (\<exists>fs rest. parse_flags (CommandLine pk) args = Inr (fs, rest) \<and>
          (start_panics lib (flags_of pk fs) \<or>
           (\<exists>pr s. main_start lib (flags_of pk fs) = Up pr \<and>
              system_steps bbs sord (pr_bbsClient pr) (start_members clock mk ord pr w) s \<and> \<not> sys_crashed s \<and>
              panics_next bbs (pr_bbsClient pr) clock (duration_flag fs ''syncInterval'') s))))"
proof (cases "parse_flags (CommandLine pk) args")
  case (Inr r)
  then obtain fs rest where parsed: "parse_flags (CommandLine pk) args = Inr (fs, rest)" by (cases r) simp
  have panics: "main_start lib (flags_of pk fs) = Up pr \<and>
      (\<exists>s. system_steps bbs sord (pr_bbsClient pr) (start_members clock mk ord pr w) s \<and> sys_crashed s) \<longleftrightarrow>
    main_start lib (flags_of pk fs) = Up pr \<and>
      (\<exists>s. system_steps bbs sord (pr_bbsClient pr) (start_members clock mk ord pr w) s \<and> \<not> sys_crashed s \<and>
         panics_next bbs (pr_bbsClient pr) clock (duration_flag fs ''syncInterval'') s)" for pr
    using members_panic [OF parsed, of lib pr] by blast
  show ?thesis
    unfolding program_exit_cases main_cases parsed main_start_Fatal [symmetric] sum.inject prod.inject
    by (simp add: panics)
qed (simp add: program_exit_cases main_cases)

subsection \<open>Witnesses\<close>

text \<open>The sample's clients behind the constructors; the watcher has closed \<open>ready\<close>.\<close>

definition world_libraries ::
  "((bool \<times> (string \<times> uint16 \<times> string \<times> uint16 \<times> int) set) bbs_client,
    (bool \<times> (string \<times> uint16 \<times> string \<times> uint16 \<times> int) set) uaa_client, string, string,
    (string \<times> uint16 \<times> string \<times> uint16 \<times> int,
     bool \<times> (string \<times> uint16 \<times> string \<times> uint16 \<times> int) set) routing_api_client, string) libraries" where
  "world_libraries =
     (let bbsClient = \<lparr>ActualLRPGroups = \<lambda>w. (Inr [], w), DesiredLRPSchedulingInfos = \<lambda>w. (Inr [], w)\<rparr> in
      \<lparr>ParseURL = \<lambda>a. Inr (takeWhile (\<lambda>x. x \<noteq> CHR '':'') a, a), NewClient = \<lambda>_. bbsClient,
       NewSecureClient = \<lambda>_ _ _ _ _ _. Inr bbsClient, Ping = \<lambda>_. True, ReadFile = \<lambda>p. Inr p,
       Unmarshal = \<lambda>_ c. (None, c), NewNoOpUaaClient = te_uaaClient sample_emitter,
       NewUaaClient = \<lambda>_. Inr (te_uaaClient sample_emitter), FetchKey = \<lambda>_. None,
       NewClientFromUrl = \<lambda>u. Inr u, NewV4 = Inr ''uuid'', InitializeDropsonde = \<lambda>_ _. None,
       NewRoutingAPIClient = \<lambda>_ _. te_routingAPIClient sample_emitter, LockSchemaPath = \<lambda>p. p,
       NewLock = \<lambda>c _ _ _ _. c\<rparr>)"

lemma sample_parse_address:
  "parse_flags (CommandLine sample_packages) (''-bbsAddress=http://bbs'' # args) =
     parse_flags ((CommandLine sample_packages)(''bbsAddress'' \<mapsto> StringFlag ''http://bbs'')) args"
  using parse_with_value [of "''bbsAddress''" "CommandLine sample_packages" _ "''http://bbs''" _ args]
  by (simp add: flag_name_def CommandLine_def declared_flags_def)

lemma sample_main_up:
  assumes "parse_flags (CommandLine sample_packages) args = Inr (fs, rest)"
    and "fs ''bbsAddress'' = Some (StringFlag ''http://bbs'')"
    and "fs ''routeTTL'' = Some (DurationFlag (120 * int Second))"
  shows "\<exists>pr. main sample_packages world_libraries args = Inr (Up pr)"
proof -
  have "\<exists>pr. main_start world_libraries (flags_of sample_packages fs) = Up pr"
    using assms(2,3)
    by (simp add: main_start_def newBbsClient_def newUaaClient_def initializeLockMaintainer_def newLockRunner_def
        New_def initConfigFromFile_def zero_config_def world_libraries_def flags_of_def string_flag_def
        duration_flag_def ttl_too_large_def Second_def Let_def)
  with assms(1) show ?thesis by (auto simp: main_def)
qed

lemma program_sound_witness:
  "\<exists>fs pr s wa. main sample_packages world_libraries [''-bbsAddress=http://bbs''] = Inr (Up pr) \<and>
     system_steps sample_bbs (\<lambda>_. sorted_order) (pr_bbsClient pr)
       (start_members real_clock sample_mapping (\<lambda>_. sorted_order) pr (False, {})) s \<and>
     sys_position s = Entering \<and> settled sample_bbs s = Some wa \<and>
     whole_seconds (duration_flag fs ''routeTTL'') \<le> 65535 \<and>
     sy_syncInterval (sys_syncer s) = duration_flag fs ''syncInterval'' \<and>
     reachable_table sample_bbs (h_routingTable (wa_handler wa))"
proof -
  let ?fs = "(CommandLine sample_packages)(''bbsAddress'' \<mapsto> StringFlag ''http://bbs'')"
  have parse: "parse_flags (CommandLine sample_packages) [''-bbsAddress=http://bbs''] = Inr (?fs, [])"
    by (simp add: sample_parse_address)
  from sample_main_up [OF this] obtain pr
    where up: "main sample_packages world_libraries [''-bbsAddress=http://bbs''] = Inr (Up pr)"
    by (auto simp: CommandLine_def declared_flags_def)
  let ?start = "start_members real_clock sample_mapping (\<lambda>_. sorted_order) pr (False, {})"
  let ?s = "?start\<lparr>sys_position := Entering\<rparr>"
  have "system_step sample_bbs (\<lambda>_. sorted_order) (pr_bbsClient pr) ?start ?s"
    by (intro system_step.member member_step.ready) (simp_all add: start_members_eq system_start_def)
  then have run: "system_steps sample_bbs (\<lambda>_. sorted_order) (pr_bbsClient pr) ?start ?s" by blast
  have settled: "settled sample_bbs ?s = Some (sys_watcher ?s)" by (simp add: settled_def)
  from program_sound [OF parse up run settled] up run settled show ?thesis
    by (intro exI [of _ ?fs] exI [of _ pr] exI [of _ ?s] exI [of _ "sys_watcher ?s"]) simp
qed

text \<open>The interval 0: the arguments parse and the members run.\<close>

lemma sample_zero_interval:
  "\<exists>fs pr. parse_flags (CommandLine sample_packages) [''-bbsAddress=http://bbs'', ''-syncInterval=0''] = Inr (fs, []) \<and>
     main sample_packages world_libraries [''-bbsAddress=http://bbs'', ''-syncInterval=0''] = Inr (Up pr) \<and>
     duration_flag fs ''syncInterval'' = 0"
proof -
  let ?base = "(CommandLine sample_packages)(''bbsAddress'' \<mapsto> StringFlag ''http://bbs'')"
  let ?fs = "?base(''syncInterval'' \<mapsto> DurationFlag 0)"
  have "ParseDuration ''0'' = Some 0" by (simp add: ParseDuration_def read_sign_def)
  then have zero: "set_value (DurationFlag (20 * int Second)) ''0'' = Some (DurationFlag 0)" by simp
  have "(''syncInterval'', DurationFlag (20 * int Second)) \<in> set (declared_flags sample_packages)"
    by (simp add: declared_flags_def)
  from declared_lookup [OF this]
  have flag: "?base ''syncInterval'' = Some (DurationFlag (20 * int Second))" by simp
  have "flag_name ''syncInterval''" by (simp add: flag_name_def)
  from parse_with_value [where fs = ?base and key = "''syncInterval''" and args = "[]", OF this flag zero]
  have "parse_flags ?base [''-syncInterval=0''] = Inr (?fs, [])" by simp
  then have parse: "parse_flags (CommandLine sample_packages) [''-bbsAddress=http://bbs'', ''-syncInterval=0''] = Inr (?fs, [])"
    by (simp add: sample_parse_address)
  from sample_main_up [OF this] obtain pr
    where "main sample_packages world_libraries [''-bbsAddress=http://bbs'', ''-syncInterval=0''] = Inr (Up pr)"
    by (auto simp: CommandLine_def declared_flags_def)
  with parse show ?thesis by (intro exI [of _ ?fs] exI [of _ pr]) (simp add: duration_flag_def)
qed

lemma nonpositive_interval_crashes_witness:
  "\<exists>pr. main sample_packages world_libraries [''-bbsAddress=http://bbs'', ''-syncInterval=0''] = Inr (Up pr) \<and>
     (let s = start_members real_clock sample_mapping (\<lambda>_. sorted_order) pr (False, {}) in
      sy_phase (sys_syncer s) \<in> {NotStarted, Starting, MakingTicker} \<and> sys_syncs s \<le> 1)"
proof -
  from sample_zero_interval obtain fs pr where
    parse: "parse_flags (CommandLine sample_packages) [''-bbsAddress=http://bbs'', ''-syncInterval=0''] = Inr (fs, [])"
    and up: "main sample_packages world_libraries [''-bbsAddress=http://bbs'', ''-syncInterval=0''] = Inr (Up pr)"
    and zero: "duration_flag fs ''syncInterval'' = 0" by (elim exE conjE)
  let ?s = "start_members real_clock sample_mapping (\<lambda>_. sorted_order) pr (False, {})"
  have "duration_flag fs ''syncInterval'' \<le> 0" using zero by simp
  moreover have "NewTicker real_clock d \<longleftrightarrow> 0 < d" for d by (simp add: real_clock_def)
  ultimately have "sy_phase (sys_syncer ?s) \<in> {NotStarted, Starting, MakingTicker} \<and> sys_syncs ?s \<le> 1"
    using nonpositive_interval_crashes [OF parse up, of real_clock sample_bbs "\<lambda>_. sorted_order"
        sample_mapping "\<lambda>_. sorted_order" "(False, {})" ?s] by blast
  with up show ?thesis by (auto simp: Let_def)
qed

text \<open>With the interval 0 the program can exit with status 2, because the syncer gets to its ticker.\<close>

lemma exit_status_witness:
  "program_exit sample_packages world_libraries sample_bbs (\<lambda>_. sorted_order) real_clock sample_mapping
     (\<lambda>_. sorted_order) (\<lambda>s err. False) (False, {}) [''-bbsAddress=http://bbs'', ''-syncInterval=0''] 2"
proof -
  from sample_zero_interval obtain fs pr where
    parse: "parse_flags (CommandLine sample_packages) [''-bbsAddress=http://bbs'', ''-syncInterval=0''] = Inr (fs, [])"
    and up: "main sample_packages world_libraries [''-bbsAddress=http://bbs'', ''-syncInterval=0''] = Inr (Up pr)"
    and zero: "duration_flag fs ''syncInterval'' = 0" by (elim exE conjE)
  let ?step = "system_step sample_bbs (\<lambda>_. sorted_order) (pr_bbsClient pr)"
  let ?s0 = "start_members real_clock sample_mapping (\<lambda>_. sorted_order) pr (False, {})"
  let ?s1 = "?s0\<lparr>sys_position := Entering\<rparr>"
  let ?s2 = "?s1\<lparr>sys_syncer := (sys_syncer ?s1)\<lparr>sy_phase := Starting\<rparr>\<rparr>"
  let ?s3 = "?s2\<lparr>sys_syncer := (sys_syncer ?s2)\<lparr>sy_phase := MakingTicker, sy_dropped := 1\<rparr>\<rparr>"
  have "?step ?s0 ?s1"
    by (intro system_step.member member_step.ready) (simp_all add: start_members_eq system_start_def)
  moreover have "?step ?s1 ?s2"
    by (intro system_step.member member_step.start_syncer)
      (simp_all add: start_members_eq system_start_def syncer_New_def syncer_start_def)
  moreover have "?step ?s2 ?s3"
    using member_step.request [of ?s2 "sys_syncer ?s3" sample_bbs "\<lambda>_. sorted_order" "pr_bbsClient pr"]
    by (intro system_step.member)
      (simp_all add: start_members_eq system_start_def syncer_New_def sync_send_def receiver_waits_def)
  ultimately have "system_steps sample_bbs (\<lambda>_. sorted_order) (pr_bbsClient pr) ?s0 ?s3" by auto
  moreover have "\<not> sys_crashed ?s3" by (simp add: start_members_eq system_start_def)
  moreover have "panics_next sample_bbs (pr_bbsClient pr) real_clock (duration_flag fs ''syncInterval'') ?s3"
    by (simp add: panics_next_def zero real_clock_def)
  moreover have "main_start world_libraries (flags_of sample_packages fs) = Up pr"
    using up parse by (simp add: main_def)
  ultimately show ?thesis
    unfolding exit_status using parse by blast
qed

end
