(* ===== verification/Sync_Progress.thy ===== *)
theory Sync_Progress
  imports Handler_Sync
begin

text \<open>
  A sync comes to its end. \<open>Sync\<close> waits for two goroutines and then applies the cached events; here:
  when the steps it still has to make can be made, and that they then leave the handler idle. What can
  stop it for good is a panic: of the fetch, on a group that does not resolve, or of the last critical
  section, on a cached event whose data is incomplete.
\<close>

subsection \<open>Panics in the steps of a sync\<close>

text \<open>The steps of the sync itself.\<close>

definition sync_work :: "sync_label set" where
  "sync_work = {GetActual, GetDesired, End}"

text \<open>The handling of a list of events panics exactly if one of them is incomplete.\<close>

lemma handle_all_panics: "handle_all bbs es h w = None \<longleftrightarrow> list_ex (event_incomplete bbs) es"
proof (induction es arbitrary: h w)
  case (Cons e es)
  show ?case
  proof (cases "on_table bbs e (h_routingTable h)")
    case None
    then show ?thesis using on_table_None [of bbs e "h_routingTable h"]
      by (simp add: handleEvent_eq event_call_None)
  next
    case (Some r)
    then show ?thesis using on_table_None [of bbs e "h_routingTable h"] Cons.IH
      by (cases r) (simp add: handleEvent_eq event_call_None)
  qed
qed simp

lemma sync_end_panics:
  "sync_end bbs ord temp h w = None \<longleftrightarrow> list_ex (event_incomplete bbs) (h_cachedEvents h)"
proof -
  let ?es = "h_cachedEvents h"
  have "applyCachedEvents bbs ord temp h w = None \<longleftrightarrow> list_ex (event_incomplete bbs) ?es"
  proof (cases "temp = None \<or> temp = Some (NewTable None)")
    case True
    then show ?thesis by (auto simp: applyCachedEvents_def handle_all_panics)
  next
    case False
    then obtain t where t: "temp = Some t" "RouteCount t \<noteq> 0" by auto
    have "applyCachedEvents bbs ord temp h w = None \<longleftrightarrow>
        handle_all bbs ?es (h\<lparr>h_routingTable := t, h_emitter := None\<rparr>) w = None"
      using t by (auto simp: applyCachedEvents_def Let_def bind_eq_None_conv split: prod.splits)
    then show ?thesis by (simp add: handle_all_panics)
  qed
  then show ?thesis by (simp add: sync_end_def bind_eq_None_conv split: prod.splits)
qed

lemma sync_end_idle:
  assumes "sync_end bbs ord temp h w = Some (h', w')"
  shows "\<not> Syncing h' \<and> h_cachedEvents h' = []"
  using assms by (auto simp: sync_end_def Syncing_def bind_eq_Some_conv)

subsection \<open>The groups a sync has fetched resolve\<close>

definition fetched_resolve :: "bbs_models \<Rightarrow> fetched_actual option \<Rightarrow> bool" where
  "fetched_resolve bbs a \<longleftrightarrow>
     (case a of Some (Inr gs) \<Rightarrow> list_all (\<lambda>g. Resolve bbs g \<noteq> None) gs | _ \<Rightarrow> True)"

fun state_resolves :: "bbs_models \<Rightarrow> 'w sync_state \<Rightarrow> bool" where
  "state_resolves bbs (h, Fetching a d, w) = fetched_resolve bbs a"
| "state_resolves bbs (h, Idle, w) = True"

lemma fetch_actual_resolves: "fetch_actual bbs client w = Some (a, w') \<Longrightarrow> fetched_resolve bbs (Some a)"
  by (auto simp: fetch_actual_def fetched_resolve_def running_groups_eq list_all_iff
      split: prod.splits sum.splits if_splits)

lemma step_resolves: "sync_step bbs ord client s l s' \<Longrightarrow> state_resolves bbs s \<Longrightarrow> state_resolves bbs s'"
proof (induction rule: sync_step.induct)
  case (event e h w h' w' ph)
  then show ?case by (cases ph) simp_all
qed (simp_all add: fetch_actual_resolves, simp add: fetched_resolve_def)

lemma run_resolves: "sync_run bbs ord client s ls s' \<Longrightarrow> state_resolves bbs s \<Longrightarrow> state_resolves bbs s'"
  by (induction rule: sync_run.induct) (simp_all add: step_resolves)

lemma build_table_total:
  assumes "fetched_resolve bbs (Some a)"
  shows "\<exists>temp. build_table bbs a d = Some temp"
proof -
  have "add_groups bbs gs t \<noteq> None" if "a = Inr gs" for gs t
    using assms that by (simp add: fetched_resolve_def add_groups_None list_ex_iff list_all_iff)
  then show ?thesis by (auto simp: build_table_def split: sum.splits)
qed

subsection \<open>The steps that are left can be made\<close>

definition can_end ::
  "bbs_models \<Rightarrow> ('w \<Rightarrow> routing_key range_order) \<Rightarrow> 'w bbs_client \<Rightarrow> 'w sync_state \<Rightarrow> bool" where
  "can_end bbs ord client s \<longleftrightarrow>
     (\<exists>ls h' w'. set ls \<subseteq> sync_work \<and> sync_run bbs ord client s ls (h', Idle, w') \<and>
        \<not> Syncing h' \<and> h_cachedEvents h' = [])"

lemma can_end_step:
  assumes "sync_step bbs ord client s l s1" "l \<in> sync_work" "can_end bbs ord client s1"
  shows "can_end bbs ord client s"
proof -
  from assms(3) obtain ls h' w' where "set ls \<subseteq> sync_work"
    "sync_run bbs ord client s1 ls (h', Idle, w')" "\<not> Syncing h'" "h_cachedEvents h' = []"
    unfolding can_end_def by (elim exE conjE)
  moreover from this(2) have "sync_run bbs ord client s (l # ls) (h', Idle, w')"
    by (rule sync_run.go [OF assms(1)])
  ultimately show ?thesis
    using assms(2) unfolding can_end_def by (intro exI [of _ "l # ls"] exI [of _ h'] exI [of _ w']) simp
qed

lemma can_end_last:
  assumes "fetched_resolve bbs (Some a)" and "\<not> list_ex (event_incomplete bbs) (h_cachedEvents h)"
  shows "can_end bbs ord client (h, Fetching (Some a) (Some d), w)"
proof -
  obtain temp where temp: "build_table bbs a d = Some temp" using build_table_total [OF assms(1)] by blast
  obtain h' w' where ended: "sync_end bbs (ord w) temp h w = Some (h', w')"
    using assms(2) sync_end_panics [of bbs "ord w" temp h w] by fastforce
  have "can_end bbs ord client (h', Idle, w')"
    unfolding can_end_def using sync_end_idle [OF ended]
    by (intro exI [of _ "[]"] exI [of _ h'] exI [of _ w']) simp
  moreover have "sync_step bbs ord client (h, Fetching (Some a) (Some d), w) End (h', Idle, w')"
    using temp ended by (rule sync_step.ends)
  ultimately show ?thesis using can_end_step [of bbs ord client _ End] by (simp add: sync_work_def)
qed

lemma can_end_desired:
  assumes "fetched_resolve bbs (Some a)" and "\<not> list_ex (event_incomplete bbs) (h_cachedEvents h)"
  shows "can_end bbs ord client (h, Fetching (Some a) d, w)"
proof (cases d)
  case None
  obtain d' w1 where "fetch_desired client w = (d', w1)" by fastforce
  from can_end_step [OF sync_step.desired [OF this] _ can_end_last [OF assms]] None show ?thesis
    by (simp add: sync_work_def)
qed (use can_end_last [OF assms] in simp)

lemma can_end_actual:
  assumes "fetched_resolve bbs a" and "\<not> list_ex (event_incomplete bbs) (h_cachedEvents h)"
    and "\<And>groups g. fst (ActualLRPGroups client w) = Inr groups \<Longrightarrow> g \<in> set groups \<Longrightarrow> Resolve bbs g \<noteq> None"
  shows "can_end bbs ord client (h, Fetching a d, w)"
proof (cases a)
  case None
  have "fetch_actual bbs client w \<noteq> None"
    using assms(3) by (auto simp: fetch_actual_None list_ex_iff split: sum.splits)
  then obtain a' w1 where fetched: "fetch_actual bbs client w = Some (a', w1)" by auto
  from can_end_step [OF sync_step.actual [OF fetched] _ can_end_desired [OF fetch_actual_resolves [OF fetched] assms(2)]] None
  show ?thesis by (simp add: sync_work_def)
next
  case (Some a')
  with can_end_desired [of bbs a' h ord client d w] assms(1,2) show ?thesis by simp
qed

text \<open>With an incomplete event in the cache no run leaves the sync.\<close>

fun doomed :: "bbs_models \<Rightarrow> 'w sync_state \<Rightarrow> bool" where
  "doomed bbs (h, Fetching a d, w) \<longleftrightarrow> h_syncing h \<and> list_ex (event_incomplete bbs) (h_cachedEvents h)"
| "doomed bbs (h, Idle, w) \<longleftrightarrow> False"

lemma step_doomed: "sync_step bbs ord client s l s' \<Longrightarrow> doomed bbs s \<Longrightarrow> doomed bbs s'"
proof (induction rule: sync_step.induct)
  case (event e h w h' w' ph)
  then show ?case by (cases ph) (auto simp: HandleEvent_def)
next
  case (ends a d temp w h h' w')
  then show ?case using sync_end_panics [of bbs "ord w" temp h w] by simp
qed simp_all

lemma run_doomed: "sync_run bbs ord client s ls s' \<Longrightarrow> doomed bbs s \<Longrightarrow> doomed bbs s'"
  by (induction rule: sync_run.induct) (simp_all add: step_doomed)

subsection \<open>Properties\<close>

text \<open>
  C19: When a sync can end. Take any state in the middle of a sync, reached from a new handler by any
  interleaving of events and syncs, where the BBS only answers with groups that resolve. If the data of
  every cached event is complete, the steps left can be made whatever has come in between, and then
  the handler is no longer syncing and its cache is empty. If the data of one is not, no continuation
  at all leaves the sync: the panic of that event comes in its last critical section.
\<close>

theorem sync_can_end:
  assumes "\<And>v groups g. fst (ActualLRPGroups client v) = Inr groups \<Longrightarrow> g \<in> set groups \<Longrightarrow> Resolve bbs g \<noteq> None"
    and "sync_run bbs ord client (NewRoutingTableHandler (NewTable None) em, Idle, w0) ls0 (h, Fetching a d, w)"
  shows "if list_ex (event_incomplete bbs) (h_cachedEvents h)
    then \<nexists>ls h' w'. sync_run bbs ord client (h, Fetching a d, w) ls (h', Idle, w')
    else \<exists>ls h' w'. set ls \<subseteq> {GetActual, GetDesired, End} \<and>
      sync_run bbs ord client (h, Fetching a d, w) ls (h', Idle, w') \<and> \<not> Syncing h' \<and> h_cachedEvents h' = []"
proof (cases "\<not> list_ex (event_incomplete bbs) (h_cachedEvents h)")
  case True
  have "fetched_resolve bbs a" using run_resolves [OF assms(2)] by simp
  from can_end_actual [OF this True assms(1), where ord = ord and d = d] True show ?thesis
    by (simp add: can_end_def sync_work_def)
next
  case False
  have "sound_state bbs em (NewRoutingTableHandler (NewTable None) em, Idle, w0)"
    by (simp add: sound_state_def NewRoutingTableHandler_def reachable_table.new_table)
  from sound_run [OF assms(2) this] False have "doomed bbs (h, Fetching a d, w)"
    by (simp add: sound_state_def)
  with False run_doomed [of bbs ord client "(h, Fetching a d, w)"] show ?thesis by fastforce
qed

text \<open>
  The sample's BBS, whose group with an instance resolves and whose empty group does not; an event is
  cached before anything is fetched. With the sample's instance the sync ends, with the empty group
  never.
\<close>

definition sample_answers :: "'w bbs_client" where
  "sample_answers =
     \<lparr>ActualLRPGroups = \<lambda>w. (Inr [sample_group ''i'' 1], w),
      DesiredLRPSchedulingInfos = \<lambda>w. (Inr [sample_info ''ABCB'' 1], w)\<rparr>"

definition empty_group :: actual_lrp_group where
  "empty_group = \<lparr>ag_Instance = None, ag_Evacuating = None\<rparr>"

lemma sync_can_end_witness:
  "(\<exists>ls h' w'. sync_run sample_bbs (\<lambda>_. sorted_order) sample_answers
       (sync_begin sample_handler\<lparr>h_cachedEvents := [ActualLRPCreatedEvent (Some (sample_group ''i'' 1))]\<rparr>,
        Fetching None None, {}) ls (h', Idle, w') \<and> \<not> Syncing h') \<and>
   (\<nexists>ls h' w'. sync_run sample_bbs (\<lambda>_. sorted_order) sample_answers
       (sync_begin sample_handler\<lparr>h_cachedEvents := [ActualLRPCreatedEvent (Some empty_group)]\<rparr>,
        Fetching None None, {}) ls (h', Idle, w'))"
proof -
  have answers: "Resolve sample_bbs g \<noteq> None"
    if "fst (ActualLRPGroups (sample_answers :: label set bbs_client) v) = Inr groups" "g \<in> set groups" for v groups g
    using that by (auto simp: sample_answers_def sample_group_def)
  have run: "sync_run sample_bbs (\<lambda>_. sorted_order) sample_answers
      (NewRoutingTableHandler (NewTable None) (Some registry_emitter), Idle, {}) [Begin, Event e]
      (sync_begin sample_handler\<lparr>h_cachedEvents := [e]\<rparr>, Fetching None None, {})" for e
    by (simp add: step_begin step_event HandleEvent_def sample_handler_def)
  let ?s = "\<lambda>e. (sync_begin sample_handler\<lparr>h_cachedEvents := [e]\<rparr>, Fetching None None, {})"
  have ends: "if event_incomplete sample_bbs e
    then \<nexists>ls h' w'. sync_run sample_bbs (\<lambda>_. sorted_order) sample_answers (?s e) ls (h', Idle, w')
    else \<exists>ls h' w'. set ls \<subseteq> {GetActual, GetDesired, End} \<and>
      sync_run sample_bbs (\<lambda>_. sorted_order) sample_answers (?s e) ls (h', Idle, w') \<and>
      \<not> Syncing h' \<and> h_cachedEvents h' = []" for e
    using sync_can_end [OF _ run, of e] answers by simp
  have "\<not> event_incomplete sample_bbs (ActualLRPCreatedEvent (Some (sample_group ''i'' 1)))"
    "event_incomplete sample_bbs (ActualLRPCreatedEvent (Some empty_group))"
    by (simp_all add: event_incomplete_def sample_group_def empty_group_def)
  with ends [of "ActualLRPCreatedEvent (Some (sample_group ''i'' 1))"] ends [of "ActualLRPCreatedEvent (Some empty_group)"]
  show ?thesis by auto
qed

end
