(* ===== verification/Delivery.thy ===== *)
theory Delivery
  imports Announcement Crash
begin

text \<open>
  What the routing API holds while the program runs: the mappings of every route of the table, in every
  state the watcher, and the system of watcher and syncer, reach. The theorems of \<open>Announcement\<close> speak of
  one event or one sync; here events and syncs come in any order.

  Three things spoil it, and the runs considered are those without them: an update that merely takes
  ports from an entry, two routes that share a mapping, and a failing routing API.
\<close>

subsection \<open>Runs of the watcher\<close>

text \<open>
  A step all of whose routes are in \<open>U\<close>, and whose event, if it handles one, does not merely take ports
  away.
\<close>

definition calm :: "bbs_models \<Rightarrow> route set \<Rightarrow> 'w watcher \<Rightarrow> 'w watcher \<Rightarrow> bool" where
  "calm bbs U s s' \<longleftrightarrow>
     table_routes any_ports (h_routingTable (wa_handler s')) \<subseteq> U \<and>
     (\<forall>e. wa_handled s' = wa_handled s @ [e] \<longrightarrow>
        \<not> event_shrinks bbs e (h_routingTable (wa_handler s)) \<and>
        (\<forall>rs t. on_table bbs e (h_routingTable (wa_handler s)) = Some (rs, t) \<longrightarrow>
           routes_of_type any_ports RouteRegistrationEvent rs \<subseteq> U))"

definition calm_step ::
  "bbs_models \<Rightarrow> ('w \<Rightarrow> routing_key range_order) \<Rightarrow> 'w bbs_client \<Rightarrow> route set \<Rightarrow> 'w watcher \<Rightarrow> 'w watcher \<Rightarrow> bool" where
  "calm_step bbs ord client U s s' \<longleftrightarrow> watcher_step bbs ord client s s' \<and> calm bbs U s s'"

text \<open>Asking the BBS does not change what the routing API holds.\<close>

definition bbs_keeps :: "('w \<Rightarrow> 'm set) \<Rightarrow> 'w bbs_client \<Rightarrow> bool" where
  "bbs_keeps held client \<longleftrightarrow>
     (\<forall>w. held (snd (ActualLRPGroups client w)) = held w) \<and>
     (\<forall>w. held (snd (DesiredLRPSchedulingInfos client w)) = held w)"

definition delivered ::
  "'m mapping_maker \<Rightarrow> ('w \<Rightarrow> endpoint_key range_order) \<Rightarrow> ('m, 'w) tcp_emitter \<Rightarrow> ('w \<Rightarrow> 'm set) \<Rightarrow> route set \<Rightarrow>
   'w routing_table_handler \<Rightarrow> 'w \<Rightarrow> bool" where
  "delivered mk ord em held U h w \<longleftrightarrow>
     h_emitter h = Some (Emit mk ord em) \<and> \<not> h_syncing h \<and>
     table_routes any_ports (h_routingTable h) \<subseteq> U \<and>
     mapping_of mk (te_ttl em) ` table_routes zero_free (h_routingTable h) \<subseteq> held w"

lemma fetch_keeps:
  assumes "bbs_keeps held client" "sync_fetch bbs client af w = Some (a, d, w1)"
  shows "held w1 = held w"
  using assms
  by (auto simp: sync_fetch_def fetch_actual_def fetch_desired_def bbs_keeps_def bind_eq_Some_conv
      split: if_splits prod.splits sum.splits) (metis snd_conv)+

lemma event_delivered:
  assumes "lawful_clients held em" "only_tokens_expire em" "separate mk (te_ttl em) U"
    and inv: "delivered mk ord em held U h w" and step: "HandleEvent bbs e h w = Some (h', w')"
    and "\<not> event_shrinks bbs e (h_routingTable h)"
    and "\<And>rs t. on_table bbs e (h_routingTable h) = Some (rs, t) \<Longrightarrow>
      routes_of_type any_ports RouteRegistrationEvent rs \<subseteq> U"
  shows "delivered mk ord em held U h' w'"
proof -
  from inv have "\<not> h_syncing h" by (simp add: delivered_def)
  with step obtain rs t where on: "on_table bbs e (h_routingTable h) = Some (rs, t)"
    and h': "h' = h\<lparr>h_routingTable := t\<rparr>" and w': "w' = handler_emit rs h w"
    by (auto simp: HandleEvent_def handleEvent_eq step_result_def)
  from inv have em: "h_emitter h = Some (Emit mk ord em)" and sub: "table_routes any_ports (h_routingTable h) \<subseteq> U"
    and held: "mapping_of mk (te_ttl em) ` table_routes zero_free (h_routingTable h) \<subseteq> held w"
    by (simp_all add: delivered_def)
  from event_announces [OF assms(1,2) em on assms(6,3) sub assms(7) [OF on] held] inv show ?thesis
    by (simp add: delivered_def h' w')
qed

lemma sync_delivered:
  assumes "lawful_clients held em" "only_tokens_expire em" "separate mk (te_ttl em) U" "bbs_keeps held client"
    and inv: "delivered mk ord em held U h w" and step: "Sync bbs sord client af h w = Some (h', w')"
    and U: "table_routes any_ports (h_routingTable h') \<subseteq> U"
  shows "delivered mk ord em held U h' w'"
proof -
  have plain: "sync_begin h = sync_begin h\<lparr>h_cachedEvents := []\<rparr>" by (simp add: sync_begin_def)
  from step obtain a d w1 temp where fetch: "sync_fetch bbs client af w = Some (a, d, w1)"
    and fin: "sync_end bbs (sord w1) temp (sync_begin h\<lparr>h_cachedEvents := []\<rparr>) w1 = Some (h', w')"
    unfolding plain [symmetric] by (auto simp: Sync_def bind_eq_Some_conv)
  note held = fetch_keeps [OF assms(4) fetch]
  show ?thesis
  proof (cases "temp = None \<or> temp = Some (NewTable None)")
    case True
    from fin inv held show ?thesis
      by (auto simp: sync_end_replay [OF True] delivered_def)
  next
    case False
    then obtain n where "temp = Some n" and n: "n \<noteq> NewTable None" by auto
    with fin have h': "h' = h\<lparr>h_routingTable := n, h_cachedEvents := [], h_syncing := False\<rparr>"
      and w': "w' = handler_emit (fst (Swap (sord w1) (IsRoutingTable n) (h_routingTable h))) h w1"
      by (auto simp: sync_end_swap [OF n])
    from inv U swap_announces [OF assms(1,2) _ assms(3)] show ?thesis
      by (simp add: delivered_def h' w')
  qed
qed

lemma calm_step_delivered:
  assumes "lawful_clients held em" "only_tokens_expire em" "separate mk (te_ttl em) U" "bbs_keeps held client"
    and step: "calm_step bbs sord client U s s'" and inv: "delivered mk ord em held U (wa_handler s) (wa_world s)"
  shows "delivered mk ord em held U (wa_handler s') (wa_world s')"
proof -
  from step have "watcher_step bbs sord client s s'" and calm: "calm bbs U s s'"
    by (simp_all add: calm_step_def)
  then show ?thesis
  proof (cases rule: watcher_step.cases)
    case (handle cs es e cs')
    then obtain h w where "HandleEvent bbs e (wa_handler s) (wa_world s) = Some (h, w)"
      and "wa_handler s' = h" "wa_world s' = w" "wa_handled s' = wa_handled s @ [e]"
      by (auto simp: on_event_def)
    with event_delivered [OF assms(1-3) inv] calm show ?thesis by (auto simp: calm_def)
  next
    case (sync af)
    with sync_delivered [OF assms(1-4) inv] calm show ?thesis by (auto simp: on_sync_def calm_def)
  qed (use inv in \<open>simp_all add: on_resubscribe_def on_signal_def Let_def\<close>)
qed

lemma calm_steps_delivered:
  assumes "lawful_clients held em" "only_tokens_expire em" "separate mk (te_ttl em) U" "bbs_keeps held client"
    and "(calm_step bbs sord client U)\<^sup>*\<^sup>* s s'" and "delivered mk ord em held U (wa_handler s) (wa_world s)"
  shows "delivered mk ord em held U (wa_handler s') (wa_world s')"
  using assms(5,6)
  by (induction rule: rtranclp_induct) (auto intro: calm_step_delivered [OF assms(1-4)])

lemma start_delivered:
  "delivered mk ord em held U (NewRoutingTableHandler (NewTable None) (Some (Emit mk ord em))) w"
  by (simp add: delivered_def NewRoutingTableHandler_def)

lemma delivered_mappings:
  "delivered mk ord em held U h w \<Longrightarrow> table_mappings mk (te_ttl em) (h_routingTable h) \<subseteq> held w"
  by (simp add: delivered_def table_mappings_routes)

subsection \<open>Runs of the system\<close>

text \<open>A step of the system that is calm for the watcher it stands for.\<close>

definition calm_system_step ::
  "bbs_models \<Rightarrow> ('w \<Rightarrow> routing_key range_order) \<Rightarrow> 'w bbs_client \<Rightarrow> route set \<Rightarrow> 'w system \<Rightarrow> 'w system \<Rightarrow> bool" where
  "calm_system_step bbs ord client U s s' \<longleftrightarrow> system_step bbs ord client s s' \<and>
     (\<forall>wa wb. settled bbs s = Some wa \<and> settled bbs s' = Some wb \<longrightarrow> calm bbs U wa wb)"

lemma calm_system_refines:
  assumes "(calm_system_step bbs ord client U)\<^sup>*\<^sup>* (system_start clk h w interval) s" and "settled bbs s = Some wa"
  shows "(calm_step bbs ord client U)\<^sup>*\<^sup>* (watcher_start h w) wa \<and> system_ok s"
  using assms
proof (induction arbitrary: wa rule: rtranclp_induct)
  case base
  then show ?case by (simp add: settled_start system_ok_start)
next
  case (step s s')
  from step.hyps(2) have one: "system_step bbs ord client s s'"
    and calm: "\<And>wa wb. settled bbs s = Some wa \<Longrightarrow> settled bbs s' = Some wb \<Longrightarrow> calm bbs U wa wb"
    by (simp_all add: calm_system_step_def)
  have ok: "system_ok s"
  proof -
    have "(system_step bbs ord client)\<^sup>*\<^sup>* (system_start clk h w interval) s"
      using step.hyps(1) by (rule rtranclp_mono [THEN predicate2D, rotated]) (auto simp: calm_system_step_def)
    then show ?thesis by (rule system_ok_steps) (rule system_ok_start)
  qed
  from settled_step [OF one ok step.prems] obtain wb
    where wb: "settled bbs s = Some wb" "wa = wb \<or> watcher_step bbs ord client wb wa" by blast
  from step.IH [OF wb(1)] have "(calm_step bbs ord client U)\<^sup>*\<^sup>* (watcher_start h w) wb" by blast
  moreover have "wa = wb \<or> calm_step bbs ord client U wb wa"
    using wb calm [OF wb(1) step.prems] by (auto simp: calm_step_def)
  ultimately show ?case
    using system_ok_step [OF one ok] by (auto intro: rtranclp.rtrancl_into_rtrancl)
qed

subsection \<open>Properties\<close>

text \<open>
  C3: Every route of the table is a mapping of the routing API. The clients are such that only tokens
  expire: tokens can be fetched, with a fresh one the routing API accepts every request, and it drops no
  mapping on its own, so a TTL that runs out is not modelled; the BBS's answers leave it alone. Then in
  every settled state of the system of watcher and syncer (a call of the handler in progress does not
  panic and counts as done) the API holds a mapping for each external endpoint and backend of each
  entry of the handler's table, entries with an external port 0 apart: through events and syncs in any
  order, failed fetches included, provided the run neither has an event that merely takes ports away
  nor two routes that share a mapping.
\<close>

theorem table_always_delivered:
  assumes "lawful_clients held em" and "only_tokens_expire em" and "bbs_keeps held client"
    and "separate mk (te_ttl em) U"
    and "(calm_system_step bbs sord client U)\<^sup>*\<^sup>*
      (system_start clk (NewRoutingTableHandler (NewTable None) (Some (Emit mk ord em))) w interval) s"
    and "settled bbs s = Some wa"
  shows "table_mappings mk (te_ttl em) (h_routingTable (wa_handler wa)) \<subseteq> held (wa_world wa)"
proof -
  let ?h = "NewRoutingTableHandler (NewTable None) (Some (Emit mk ord em))"
  have "delivered mk ord em held U (wa_handler (watcher_start ?h w)) (wa_world (watcher_start ?h w))"
    by (simp add: watcher_start_def start_delivered)
  from calm_steps_delivered [OF assms(1,2,4,3) conjunct1 [OF calm_system_refines [OF assms(5,6)]] this]
  show ?thesis by (rule delivered_mappings)
qed

subsection \<open>Witness\<close>

text \<open>A BBS with the sample's desired LRP and its instance; a run up to the end of the first sync.\<close>

definition full_client :: "(bool \<times> (string \<times> uint16 \<times> string \<times> uint16 \<times> int) set) bbs_client" where
  "full_client =
     \<lparr>ActualLRPGroups = \<lambda>w. (Inr [sample_group ''i'' 1], w),
      DesiredLRPSchedulingInfos = \<lambda>w. (Inr [sample_info ''ABCB'' 1], w)\<rparr>"

abbreviation new_sample_handler ::
  "(bool \<times> (string \<times> uint16 \<times> string \<times> uint16 \<times> int) set) routing_table_handler" where
  "new_sample_handler \<equiv>
     NewRoutingTableHandler (NewTable None) (Some (Emit sample_mapping (\<lambda>_. sorted_order) sample_emitter))"

lemma full_sync:
  "\<exists>w'. Sync sample_bbs (\<lambda>_. sorted_order) full_client True new_sample_handler w =
     Some (new_sample_handler\<lparr>h_routingTable := sample_table, h_cachedEvents := [], h_syncing := False\<rparr>, w')"
proof -
  have fetch: "sync_fetch sample_bbs full_client True w = Some (Inr [sample_group ''i'' 1], Inr [sample_info ''ABCB'' 1], w)"
    by (simp add: sync_fetch_def fetch_actual_def fetch_desired_def full_client_def sample_group_def sample_lrp_def)
  have build: "build_table sample_bbs (Inr [sample_group ''i'' 1]) (Inr [sample_info ''ABCB'' 1]) = Some (Some sample_table)"
    by (simp add: build_table_def sample_AddRoutes sample_AddEndpoint_routed)
  have plain: "sync_begin new_sample_handler = sync_begin new_sample_handler\<lparr>h_cachedEvents := []\<rparr>"
    by (simp add: sync_begin_def)
  show ?thesis
    unfolding Sync_def Let_def fetch
    by (subst plain) (simp add: build sync_end_swap [OF sample_table_not_empty] del: sync_begin_simps)
qed

lemma full_client_keeps: "bbs_keeps snd full_client"
  by (simp add: bbs_keeps_def full_client_def)

text \<open>A step from and to a table of the sample, without an event.\<close>

lemma sample_calm_step:
  assumes "member_step sample_bbs ord client s s'" and "\<not> sys_crashed s"
    and "\<nexists>e. sys_position s = InEvent e" "\<nexists>e. sys_position s' = InEvent e"
    and "wa_handled (sys_watcher s') = wa_handled (sys_watcher s)"
    and "h_routingTable (wa_handler (sys_watcher s')) \<in> {NewTable None, sample_table}"
  shows "calm_system_step sample_bbs ord client (entry_routes any_ports sample_key sample_entry) s s'"
proof -
  have "calm sample_bbs (entry_routes any_ports sample_key sample_entry) (sys_watcher s) (sys_watcher s')"
    using assms(5,6) by (auto simp: calm_def sample_table_routes)
  with assms(1,2) settled_outside_events [OF assms(3)] settled_outside_events [OF assms(4)] show ?thesis
    by (auto simp: calm_system_step_def intro: system_step.member)
qed

lemma table_always_delivered_witness:
  "\<exists>s wa. (calm_system_step sample_bbs (\<lambda>_. sorted_order) full_client
        (entry_routes any_ports sample_key sample_entry))\<^sup>*\<^sup>*
       (system_start real_clock new_sample_handler (False, {}) 20) s \<and>
     settled sample_bbs s = Some wa \<and> h_routingTable (wa_handler wa) = sample_table \<and>
     (''rg'', 65, ''10.0.0.1'', 9000, 120) \<in> snd (wa_world wa)"
proof -
  let ?U = "entry_routes any_ports sample_key sample_entry" and ?w = "(False, {})"
  let ?step = "calm_system_step sample_bbs (\<lambda>_. sorted_order) full_client ?U"
  let ?a = "system_start real_clock new_sample_handler ?w 20"
  let ?y = "(syncer_New real_clock 20)\<lparr>sy_phase := Starting\<rparr>"
  let ?z = "?y\<lparr>sy_phase := MakingTicker, sy_sent := 1\<rparr>"
  let ?b = "?a\<lparr>sys_position := Entering\<rparr>"
  let ?c = "?b\<lparr>sys_position := Waiting\<rparr>"
  let ?d = "?c\<lparr>sys_syncer := ?y\<rparr>"
  let ?e = "?d\<lparr>sys_syncer := ?z, sys_position := InSync\<rparr>"
  obtain w' where sync: "Sync sample_bbs (\<lambda>_. sorted_order) full_client True new_sample_handler ?w =
     Some (new_sample_handler\<lparr>h_routingTable := sample_table, h_cachedEvents := [], h_syncing := False\<rparr>, w')"
    using full_sync by blast
  let ?wa = "(watcher_start new_sample_handler ?w)\<lparr>wa_handler :=
    new_sample_handler\<lparr>h_routingTable := sample_table, h_cachedEvents := [], h_syncing := False\<rparr>, wa_world := w'\<rparr>"
  let ?f = "?e\<lparr>sys_watcher := ?wa, sys_position := Entering, sys_syncs := 1\<rparr>"
  note defs = system_start_def syncer_New_def syncer_defs receiver_waits_def
  have start: "\<not> sys_crashed ?a" "wa_handled (sys_watcher ?a) = []" "sys_position ?a = BeforeReady"
    "h_routingTable (wa_handler (sys_watcher ?a)) = NewTable None"
    by (simp_all add: system_start_def watcher_start_def NewRoutingTableHandler_def)
  have "?step ?a ?b" by (rule sample_calm_step, rule member_step.ready) (simp_all add: start)
  moreover have "?step ?b ?c" by (rule sample_calm_step, rule member_step.enter) (simp_all add: start)
  moreover have "?step ?c ?d"
    by (rule sample_calm_step, rule member_step.start_syncer) (simp_all add: start, simp_all add: defs)
  moreover have "?step ?d ?e"
  proof (rule sample_calm_step)
    show "member_step sample_bbs (\<lambda>_. sorted_order) full_client ?d ?e"
      using member_step.request [where s = ?d and y = ?z] by (simp add: defs)
  qed (simp_all add: start)
  moreover have "?step ?e ?f"
  proof (rule sample_calm_step)
    have "on_sync sample_bbs (\<lambda>_. sorted_order) full_client True (sys_watcher ?e) = Some ?wa"
      using sync by (simp add: on_sync_def system_start_def watcher_start_def)
    from member_step.sync_done [OF _ this]
    show "member_step sample_bbs (\<lambda>_. sorted_order) full_client ?e ?f" by (simp add: system_start_def)
  qed (simp_all add: start, simp add: watcher_start_def)
  ultimately have run: "?step\<^sup>*\<^sup>* ?a ?f"
    by (meson converse_rtranclp_into_rtranclp rtranclp.rtrancl_refl)
  have sep: "separate sample_mapping (te_ttl sample_emitter) ?U" using sample_separate by simp
  have "settled sample_bbs ?f = Some ?wa" by (simp add: settled_def)
  from table_always_delivered [OF sample_emitter_lawful sample_emitter_expires full_client_keeps sep run this]
  have "table_mappings sample_mapping 120 sample_table \<subseteq> snd w'" by simp
  with sample_table_mapping run show ?thesis
    by (intro exI [of _ ?f] exI [of _ ?wa]) (auto simp: settled_def)
qed

end
