(* ===== verification/Fakes.thy ===== *)
theory Fakes
  imports Handler_Sync
begin

text \<open>
  The test doubles of \<open>emitter\<close>, \<open>routing_table\<close> and \<open>schema\<close>. They are generated by counterfeiter, and every
  method of them is made the same way: a call appends its arguments to a list, then answers with the
  stub if there is one and else with a fixed result. Here one method is a record \<open>fake_method\<close>, a fake is
  a record of them, and each function of the Go files is one definition. A stub passes a world along; it
  does not touch the fake itself.

  What a test may conclude from them is a theorem at the end: the batches a fake emitter has recorded
  are what any other emitter would have been told.
\<close>

subsection \<open>One method\<close>

record ('a, 'r, 'w) fake_method =
  fm_Stub :: "('a \<Rightarrow> 'w \<Rightarrow> 'r \<times> 'w) option"
  fm_ArgsForCall :: "'a list"
  fm_Returns :: 'r

definition fake_call ::
  "'a \<Rightarrow> ('a, 'r, 'w) fake_method \<Rightarrow> 'w \<Rightarrow> 'r \<times> ('a, 'r, 'w) fake_method \<times> 'w" where
  "fake_call a m w =
     (let m1 = m\<lparr>fm_ArgsForCall := fm_ArgsForCall m @ [a]\<rparr> in
      case fm_Stub m1 of
        Some stub \<Rightarrow> (case stub a w of (r, w1) \<Rightarrow> (r, m1, w1))
      | None \<Rightarrow> (fm_Returns m1, m1, w))"

definition returning :: "'r \<Rightarrow> ('a, 'r, 'w) fake_method \<Rightarrow> ('a, 'r, 'w) fake_method" where
  "returning result1 m = m\<lparr>fm_Stub := None, fm_Returns := result1\<rparr>"

lemma fake_call_args: "fake_call a m w = (r, m1, w1) \<Longrightarrow> fm_ArgsForCall m1 = fm_ArgsForCall m @ [a]"
  by (auto simp: fake_call_def Let_def split: option.splits prod.splits)

lemma fake_call_returning [simp]:
  "fake_call a (returning r m) w = (r, returning r (m\<lparr>fm_ArgsForCall := fm_ArgsForCall m @ [a]\<rparr>), w)"
  by (simp add: fake_call_def returning_def)

lemma returning_twice [simp]: "returning r (returning r' m) = returning r m"
  by (simp add: returning_def)

text \<open>Indexing a slice; \<open>None\<close> is the panic.\<close>

definition go_index :: "'a list \<Rightarrow> int \<Rightarrow> 'a option" where
  "go_index xs i = (if 0 \<le> i \<and> i < int (length xs) then Some (xs ! nat i) else None)"

subsection \<open>FakeEmitter\<close>

text \<open>\<open>emitter/fakes/fake_emitter.go\<close>.\<close>

record 'w fake_emitter =
  fe_Emit :: "(routing_event list, go_error option, 'w) fake_method"

definition fake_Emit :: "routing_event list \<Rightarrow> 'w fake_emitter \<Rightarrow> 'w \<Rightarrow> go_error option \<times> 'w fake_emitter \<times> 'w" where
  "fake_Emit a fake w =
     (case fake_call a (fe_Emit fake) w of (r, m, w1) \<Rightarrow> (r, fake\<lparr>fe_Emit := m\<rparr>, w1))"

definition EmitCallCount :: "'w fake_emitter \<Rightarrow> nat" where
  "EmitCallCount fake = length (fm_ArgsForCall (fe_Emit fake))"

definition EmitArgsForCall :: "int \<Rightarrow> 'w fake_emitter \<Rightarrow> routing_event list option" where
  "EmitArgsForCall i fake = go_index (fm_ArgsForCall (fe_Emit fake)) i"

definition EmitReturns :: "go_error option \<Rightarrow> 'w fake_emitter \<Rightarrow> 'w fake_emitter" where
  "EmitReturns result1 fake = fake\<lparr>fe_Emit := returning result1 (fe_Emit fake)\<rparr>"

subsection \<open>FakeRoutingTableHandler\<close>

text \<open>\<open>routing_table/fakes/fake_routing_table_handler.go\<close>.\<close>

record 'w fake_routing_table_handler =
  fh_HandleEvent :: "(bbs_event, unit, 'w) fake_method"
  fh_Sync :: "(unit, unit, 'w) fake_method"
  fh_Syncing :: "(unit, bool, 'w) fake_method"

definition fake_HandleEvent :: "bbs_event \<Rightarrow> 'w fake_routing_table_handler \<Rightarrow> 'w \<Rightarrow> unit \<times> 'w fake_routing_table_handler \<times> 'w" where
  "fake_HandleEvent a fake w =
     (case fake_call a (fh_HandleEvent fake) w of (r, m, w1) \<Rightarrow> (r, fake\<lparr>fh_HandleEvent := m\<rparr>, w1))"

definition HandleEventCallCount :: "'w fake_routing_table_handler \<Rightarrow> nat" where
  "HandleEventCallCount fake = length (fm_ArgsForCall (fh_HandleEvent fake))"

definition HandleEventArgsForCall :: "int \<Rightarrow> 'w fake_routing_table_handler \<Rightarrow> bbs_event option" where
  "HandleEventArgsForCall i fake = go_index (fm_ArgsForCall (fh_HandleEvent fake)) i"

definition fake_Sync :: "'w fake_routing_table_handler \<Rightarrow> 'w \<Rightarrow> unit \<times> 'w fake_routing_table_handler \<times> 'w" where
  "fake_Sync fake w =
     (case fake_call () (fh_Sync fake) w of (r, m, w1) \<Rightarrow> (r, fake\<lparr>fh_Sync := m\<rparr>, w1))"

definition SyncCallCount :: "'w fake_routing_table_handler \<Rightarrow> nat" where
  "SyncCallCount fake = length (fm_ArgsForCall (fh_Sync fake))"

definition fake_Syncing :: "'w fake_routing_table_handler \<Rightarrow> 'w \<Rightarrow> bool \<times> 'w fake_routing_table_handler \<times> 'w" where
  "fake_Syncing fake w =
     (case fake_call () (fh_Syncing fake) w of (r, m, w1) \<Rightarrow> (r, fake\<lparr>fh_Syncing := m\<rparr>, w1))"

definition SyncingCallCount :: "'w fake_routing_table_handler \<Rightarrow> nat" where
  "SyncingCallCount fake = length (fm_ArgsForCall (fh_Syncing fake))"

definition SyncingReturns :: "bool \<Rightarrow> 'w fake_routing_table_handler \<Rightarrow> 'w fake_routing_table_handler" where
  "SyncingReturns result1 fake = fake\<lparr>fh_Syncing := returning result1 (fh_Syncing fake)\<rparr>"

subsection \<open>FakeRoutingTable\<close>

text \<open>\<open>routing_table/schema/fakes/fake_routing_table.go\<close>.\<close>

record 'w fake_routing_table =
  ft_RouteCount :: "(unit, int, 'w) fake_method"
  ft_AddRoutes :: "(scheduling_info, routing_event list, 'w) fake_method"
  ft_UpdateRoutes :: "(scheduling_info \<times> scheduling_info, routing_event list, 'w) fake_method"
  ft_RemoveRoutes :: "(scheduling_info, routing_event list, 'w) fake_method"
  ft_AddEndpoint :: "(actual_lrp_group, routing_event list, 'w) fake_method"
  ft_RemoveEndpoint :: "(actual_lrp_group, routing_event list, 'w) fake_method"
  ft_Swap :: "(routing_table_value, routing_event list, 'w) fake_method"
  ft_GetRoutingEvents :: "(unit, routing_event list, 'w) fake_method"

definition fake_RouteCount :: "'w fake_routing_table \<Rightarrow> 'w \<Rightarrow> int \<times> 'w fake_routing_table \<times> 'w" where
  "fake_RouteCount fake w =
     (case fake_call () (ft_RouteCount fake) w of (r, m, w1) \<Rightarrow> (r, fake\<lparr>ft_RouteCount := m\<rparr>, w1))"

definition RouteCountCallCount :: "'w fake_routing_table \<Rightarrow> nat" where
  "RouteCountCallCount fake = length (fm_ArgsForCall (ft_RouteCount fake))"

definition RouteCountReturns :: "int \<Rightarrow> 'w fake_routing_table \<Rightarrow> 'w fake_routing_table" where
  "RouteCountReturns result1 fake = fake\<lparr>ft_RouteCount := returning result1 (ft_RouteCount fake)\<rparr>"

definition fake_AddRoutes :: "scheduling_info \<Rightarrow> 'w fake_routing_table \<Rightarrow> 'w \<Rightarrow> routing_event list \<times> 'w fake_routing_table \<times> 'w" where
  "fake_AddRoutes a fake w =
     (case fake_call a (ft_AddRoutes fake) w of (r, m, w1) \<Rightarrow> (r, fake\<lparr>ft_AddRoutes := m\<rparr>, w1))"

definition AddRoutesCallCount :: "'w fake_routing_table \<Rightarrow> nat" where
  "AddRoutesCallCount fake = length (fm_ArgsForCall (ft_AddRoutes fake))"

definition AddRoutesArgsForCall :: "int \<Rightarrow> 'w fake_routing_table \<Rightarrow> scheduling_info option" where
  "AddRoutesArgsForCall i fake = go_index (fm_ArgsForCall (ft_AddRoutes fake)) i"

definition AddRoutesReturns :: "routing_event list \<Rightarrow> 'w fake_routing_table \<Rightarrow> 'w fake_routing_table" where
  "AddRoutesReturns result1 fake = fake\<lparr>ft_AddRoutes := returning result1 (ft_AddRoutes fake)\<rparr>"

definition fake_UpdateRoutes :: "(scheduling_info \<times> scheduling_info) \<Rightarrow> 'w fake_routing_table \<Rightarrow> 'w \<Rightarrow> routing_event list \<times> 'w fake_routing_table \<times> 'w" where
  "fake_UpdateRoutes a fake w =
     (case fake_call a (ft_UpdateRoutes fake) w of (r, m, w1) \<Rightarrow> (r, fake\<lparr>ft_UpdateRoutes := m\<rparr>, w1))"

definition UpdateRoutesCallCount :: "'w fake_routing_table \<Rightarrow> nat" where
  "UpdateRoutesCallCount fake = length (fm_ArgsForCall (ft_UpdateRoutes fake))"

definition UpdateRoutesArgsForCall :: "int \<Rightarrow> 'w fake_routing_table \<Rightarrow> (scheduling_info \<times> scheduling_info) option" where
  "UpdateRoutesArgsForCall i fake = go_index (fm_ArgsForCall (ft_UpdateRoutes fake)) i"

definition UpdateRoutesReturns :: "routing_event list \<Rightarrow> 'w fake_routing_table \<Rightarrow> 'w fake_routing_table" where
  "UpdateRoutesReturns result1 fake = fake\<lparr>ft_UpdateRoutes := returning result1 (ft_UpdateRoutes fake)\<rparr>"

definition fake_RemoveRoutes :: "scheduling_info \<Rightarrow> 'w fake_routing_table \<Rightarrow> 'w \<Rightarrow> routing_event list \<times> 'w fake_routing_table \<times> 'w" where
  "fake_RemoveRoutes a fake w =
     (case fake_call a (ft_RemoveRoutes fake) w of (r, m, w1) \<Rightarrow> (r, fake\<lparr>ft_RemoveRoutes := m\<rparr>, w1))"

definition RemoveRoutesCallCount :: "'w fake_routing_table \<Rightarrow> nat" where
  "RemoveRoutesCallCount fake = length (fm_ArgsForCall (ft_RemoveRoutes fake))"

definition RemoveRoutesArgsForCall :: "int \<Rightarrow> 'w fake_routing_table \<Rightarrow> scheduling_info option" where
  "RemoveRoutesArgsForCall i fake = go_index (fm_ArgsForCall (ft_RemoveRoutes fake)) i"

definition RemoveRoutesReturns :: "routing_event list \<Rightarrow> 'w fake_routing_table \<Rightarrow> 'w fake_routing_table" where
  "RemoveRoutesReturns result1 fake = fake\<lparr>ft_RemoveRoutes := returning result1 (ft_RemoveRoutes fake)\<rparr>"

definition fake_AddEndpoint :: "actual_lrp_group \<Rightarrow> 'w fake_routing_table \<Rightarrow> 'w \<Rightarrow> routing_event list \<times> 'w fake_routing_table \<times> 'w" where
  "fake_AddEndpoint a fake w =
     (case fake_call a (ft_AddEndpoint fake) w of (r, m, w1) \<Rightarrow> (r, fake\<lparr>ft_AddEndpoint := m\<rparr>, w1))"

definition AddEndpointCallCount :: "'w fake_routing_table \<Rightarrow> nat" where
  "AddEndpointCallCount fake = length (fm_ArgsForCall (ft_AddEndpoint fake))"

definition AddEndpointArgsForCall :: "int \<Rightarrow> 'w fake_routing_table \<Rightarrow> actual_lrp_group option" where
  "AddEndpointArgsForCall i fake = go_index (fm_ArgsForCall (ft_AddEndpoint fake)) i"

definition AddEndpointReturns :: "routing_event list \<Rightarrow> 'w fake_routing_table \<Rightarrow> 'w fake_routing_table" where
  "AddEndpointReturns result1 fake = fake\<lparr>ft_AddEndpoint := returning result1 (ft_AddEndpoint fake)\<rparr>"

definition fake_RemoveEndpoint :: "actual_lrp_group \<Rightarrow> 'w fake_routing_table \<Rightarrow> 'w \<Rightarrow> routing_event list \<times> 'w fake_routing_table \<times> 'w" where
  "fake_RemoveEndpoint a fake w =
     (case fake_call a (ft_RemoveEndpoint fake) w of (r, m, w1) \<Rightarrow> (r, fake\<lparr>ft_RemoveEndpoint := m\<rparr>, w1))"

definition RemoveEndpointCallCount :: "'w fake_routing_table \<Rightarrow> nat" where
  "RemoveEndpointCallCount fake = length (fm_ArgsForCall (ft_RemoveEndpoint fake))"

definition RemoveEndpointArgsForCall :: "int \<Rightarrow> 'w fake_routing_table \<Rightarrow> actual_lrp_group option" where
  "RemoveEndpointArgsForCall i fake = go_index (fm_ArgsForCall (ft_RemoveEndpoint fake)) i"

definition RemoveEndpointReturns :: "routing_event list \<Rightarrow> 'w fake_routing_table \<Rightarrow> 'w fake_routing_table" where
  "RemoveEndpointReturns result1 fake = fake\<lparr>ft_RemoveEndpoint := returning result1 (ft_RemoveEndpoint fake)\<rparr>"

definition fake_Swap :: "routing_table_value \<Rightarrow> 'w fake_routing_table \<Rightarrow> 'w \<Rightarrow> routing_event list \<times> 'w fake_routing_table \<times> 'w" where
  "fake_Swap a fake w =
     (case fake_call a (ft_Swap fake) w of (r, m, w1) \<Rightarrow> (r, fake\<lparr>ft_Swap := m\<rparr>, w1))"

definition SwapCallCount :: "'w fake_routing_table \<Rightarrow> nat" where
  "SwapCallCount fake = length (fm_ArgsForCall (ft_Swap fake))"

definition SwapArgsForCall :: "int \<Rightarrow> 'w fake_routing_table \<Rightarrow> routing_table_value option" where
  "SwapArgsForCall i fake = go_index (fm_ArgsForCall (ft_Swap fake)) i"

definition SwapReturns :: "routing_event list \<Rightarrow> 'w fake_routing_table \<Rightarrow> 'w fake_routing_table" where
  "SwapReturns result1 fake = fake\<lparr>ft_Swap := returning result1 (ft_Swap fake)\<rparr>"

definition fake_GetRoutingEvents :: "'w fake_routing_table \<Rightarrow> 'w \<Rightarrow> routing_event list \<times> 'w fake_routing_table \<times> 'w" where
  "fake_GetRoutingEvents fake w =
     (case fake_call () (ft_GetRoutingEvents fake) w of (r, m, w1) \<Rightarrow> (r, fake\<lparr>ft_GetRoutingEvents := m\<rparr>, w1))"

definition GetRoutingEventsCallCount :: "'w fake_routing_table \<Rightarrow> nat" where
  "GetRoutingEventsCallCount fake = length (fm_ArgsForCall (ft_GetRoutingEvents fake))"

definition GetRoutingEventsReturns :: "routing_event list \<Rightarrow> 'w fake_routing_table \<Rightarrow> 'w fake_routing_table" where
  "GetRoutingEventsReturns result1 fake = fake\<lparr>ft_GetRoutingEvents := returning result1 (ft_GetRoutingEvents fake)\<rparr>"

lemmas fake_defs =
  go_index_def
  fake_Emit_def EmitCallCount_def EmitArgsForCall_def EmitReturns_def fake_HandleEvent_def
  HandleEventCallCount_def HandleEventArgsForCall_def fake_Sync_def SyncCallCount_def fake_Syncing_def
  SyncingCallCount_def SyncingReturns_def fake_RouteCount_def RouteCountCallCount_def
  RouteCountReturns_def fake_AddRoutes_def AddRoutesCallCount_def AddRoutesArgsForCall_def
  AddRoutesReturns_def fake_UpdateRoutes_def UpdateRoutesCallCount_def UpdateRoutesArgsForCall_def
  UpdateRoutesReturns_def fake_RemoveRoutes_def RemoveRoutesCallCount_def RemoveRoutesArgsForCall_def
  RemoveRoutesReturns_def fake_AddEndpoint_def AddEndpointCallCount_def AddEndpointArgsForCall_def
  AddEndpointReturns_def fake_RemoveEndpoint_def RemoveEndpointCallCount_def
  RemoveEndpointArgsForCall_def RemoveEndpointReturns_def fake_Swap_def SwapCallCount_def
  SwapArgsForCall_def SwapReturns_def fake_GetRoutingEvents_def GetRoutingEventsCallCount_def
  GetRoutingEventsReturns_def

subsection \<open>What a test relies on\<close>

text \<open>Calls of a method one after the other.\<close>

primrec invoke_all :: "('a \<Rightarrow> 'f \<Rightarrow> 'w \<Rightarrow> 'r \<times> 'f \<times> 'w) \<Rightarrow> 'a list \<Rightarrow> 'f \<Rightarrow> 'w \<Rightarrow> 'f \<times> 'w" where
  "invoke_all invoke [] f w = (f, w)"
| "invoke_all invoke (a # as) f w = (case invoke a f w of (r, f1, w1) \<Rightarrow> invoke_all invoke as f1 w1)"

locale counter =
  fixes invoke :: "'a \<Rightarrow> 'f \<Rightarrow> 'w \<Rightarrow> 'r \<times> 'f \<times> 'w"
    and call_count :: "'f \<Rightarrow> nat"
  assumes count_invoke: "invoke a f w = (r, f1, w1) \<Longrightarrow> call_count f1 = Suc (call_count f)"
begin

lemma count_all: "call_count (fst (invoke_all invoke as f w)) = call_count f + length as"
  by (induction as arbitrary: f w) (auto simp: count_invoke split: prod.splits)

end

locale recorder = counter invoke call_count
  for invoke :: "'a \<Rightarrow> 'f \<Rightarrow> 'w \<Rightarrow> 'r \<times> 'f \<times> 'w" and call_count +
  fixes args_for_call :: "int \<Rightarrow> 'f \<Rightarrow> 'a option"
  assumes args_new: "invoke a f w = (r, f1, w1) \<Longrightarrow> args_for_call (int (call_count f)) f1 = Some a"
    and args_old: "invoke a f w = (r, f1, w1) \<Longrightarrow> i < int (call_count f) \<Longrightarrow>
      args_for_call i f1 = args_for_call i f"
    and args_panic: "args_for_call i f = None \<longleftrightarrow> i < 0 \<or> int (call_count f) \<le> i"
begin

lemma args_all_old:
  "i < int (call_count f) \<Longrightarrow> args_for_call i (fst (invoke_all invoke as f w)) = args_for_call i f"
proof (induction as arbitrary: f w)
  case (Cons a as)
  obtain r f1 w1 where step: "invoke a f w = (r, f1, w1)" by (cases "invoke a f w") auto
  with Cons.prems have "i < int (call_count f1)" by (simp add: count_invoke)
  from Cons.IH [OF this] args_old [OF step Cons.prems] step show ?case by simp
qed simp

lemma args_all:
  "i < length as \<Longrightarrow>
   args_for_call (int (call_count f + i)) (fst (invoke_all invoke as f w)) = Some (as ! i)"
proof (induction as arbitrary: f w i)
  case (Cons a as)
  obtain r f1 w1 where step: "invoke a f w = (r, f1, w1)" by (cases "invoke a f w") auto
  show ?case
  proof (cases i)
    case 0
    then show ?thesis
      using args_all_old [of "int (call_count f)" f1 as w1] args_new [OF step] count_invoke [OF step] step by simp
  next
    case (Suc j)
    then show ?thesis
      using Cons.IH [of j f1 w1] Cons.prems count_invoke [OF step] step by simp
  qed
qed simp

text \<open>All arguments recorded, in the order of the calls.\<close>

lemma recorded_all:
  assumes "call_count f = 0"
  shows "map (\<lambda>i. the (args_for_call (int i) (fst (invoke_all invoke as f w))))
     [0..<call_count (fst (invoke_all invoke as f w))] = as"
proof (rule nth_equalityI)
  show "length (map (\<lambda>i. the (args_for_call (int i) (fst (invoke_all invoke as f w))))
     [0..<call_count (fst (invoke_all invoke as f w))]) = length as"
    by (simp add: count_all assms)
next
  fix i assume "i < length (map (\<lambda>i. the (args_for_call (int i) (fst (invoke_all invoke as f w))))
     [0..<call_count (fst (invoke_all invoke as f w))])"
  then show "map (\<lambda>i. the (args_for_call (int i) (fst (invoke_all invoke as f w))))
     [0..<call_count (fst (invoke_all invoke as f w))] ! i = as ! i"
    using args_all [of i as f w] assms by (simp add: count_all)
qed

end

text \<open>A method with a fixed result gives it, leaves the world alone, and still records the call.\<close>

locale returner =
  fixes invoke :: "'a \<Rightarrow> 'f \<Rightarrow> 'w \<Rightarrow> 'r \<times> 'f \<times> 'w"
    and returns :: "'r \<Rightarrow> 'f \<Rightarrow> 'f"
  assumes returns_result: "invoke a (returns r f) w = (r', f1, w1) \<Longrightarrow> r' = r \<and> w1 = w"
    and returns_stays: "invoke a (returns r f) w = (r', f1, w1) \<Longrightarrow> returns r f1 = f1"
begin

lemma returns_all: "returns r f = f \<Longrightarrow> snd (invoke_all invoke as f w) = w"
proof (induction as arbitrary: f)
  case (Cons a as)
  obtain r' f1 w1 where step: "invoke a (returns r f) w = (r', f1, w1)" by (cases "invoke a (returns r f) w") auto
  from Cons.IH [OF returns_stays [OF step]] returns_result [OF step] step Cons.prems show ?case by simp
qed simp

end

interpretation emit: recorder fake_Emit EmitCallCount EmitArgsForCall
  by unfold_locales (auto simp: fake_defs nth_append nat_less_iff split: prod.splits if_splits dest: fake_call_args)

interpretation emit_stub: returner fake_Emit EmitReturns
  by unfold_locales (auto simp: fake_defs)

interpretation handle_event: recorder fake_HandleEvent HandleEventCallCount HandleEventArgsForCall
  by unfold_locales (auto simp: fake_defs nth_append nat_less_iff split: prod.splits if_splits dest: fake_call_args)

interpretation sync: counter "\<lambda>_. fake_Sync" SyncCallCount
  by unfold_locales (auto simp: fake_defs split: prod.splits dest: fake_call_args)

interpretation syncing: counter "\<lambda>_. fake_Syncing" SyncingCallCount
  by unfold_locales (auto simp: fake_defs split: prod.splits dest: fake_call_args)

interpretation syncing_stub: returner "\<lambda>_. fake_Syncing" SyncingReturns
  by unfold_locales (auto simp: fake_defs)

interpretation route_count: counter "\<lambda>_. fake_RouteCount" RouteCountCallCount
  by unfold_locales (auto simp: fake_defs split: prod.splits dest: fake_call_args)

interpretation route_count_stub: returner "\<lambda>_. fake_RouteCount" RouteCountReturns
  by unfold_locales (auto simp: fake_defs)

interpretation add_routes: recorder fake_AddRoutes AddRoutesCallCount AddRoutesArgsForCall
  by unfold_locales (auto simp: fake_defs nth_append nat_less_iff split: prod.splits if_splits dest: fake_call_args)

interpretation add_routes_stub: returner fake_AddRoutes AddRoutesReturns
  by unfold_locales (auto simp: fake_defs)

interpretation update_routes: recorder fake_UpdateRoutes UpdateRoutesCallCount UpdateRoutesArgsForCall
  by unfold_locales (auto simp: fake_defs nth_append nat_less_iff split: prod.splits if_splits dest: fake_call_args)

interpretation update_routes_stub: returner fake_UpdateRoutes UpdateRoutesReturns
  by unfold_locales (auto simp: fake_defs)

interpretation remove_routes: recorder fake_RemoveRoutes RemoveRoutesCallCount RemoveRoutesArgsForCall
  by unfold_locales (auto simp: fake_defs nth_append nat_less_iff split: prod.splits if_splits dest: fake_call_args)

interpretation remove_routes_stub: returner fake_RemoveRoutes RemoveRoutesReturns
  by unfold_locales (auto simp: fake_defs)

interpretation add_endpoint: recorder fake_AddEndpoint AddEndpointCallCount AddEndpointArgsForCall
  by unfold_locales (auto simp: fake_defs nth_append nat_less_iff split: prod.splits if_splits dest: fake_call_args)

interpretation add_endpoint_stub: returner fake_AddEndpoint AddEndpointReturns
  by unfold_locales (auto simp: fake_defs)

interpretation remove_endpoint: recorder fake_RemoveEndpoint RemoveEndpointCallCount RemoveEndpointArgsForCall
  by unfold_locales (auto simp: fake_defs nth_append nat_less_iff split: prod.splits if_splits dest: fake_call_args)

interpretation remove_endpoint_stub: returner fake_RemoveEndpoint RemoveEndpointReturns
  by unfold_locales (auto simp: fake_defs)

interpretation swap: recorder fake_Swap SwapCallCount SwapArgsForCall
  by unfold_locales (auto simp: fake_defs nth_append nat_less_iff split: prod.splits if_splits dest: fake_call_args)

interpretation swap_stub: returner fake_Swap SwapReturns
  by unfold_locales (auto simp: fake_defs)

interpretation get_routing_events: counter "\<lambda>_. fake_GetRoutingEvents" GetRoutingEventsCallCount
  by unfold_locales (auto simp: fake_defs split: prod.splits dest: fake_call_args)

interpretation get_routing_events_stub: returner "\<lambda>_. fake_GetRoutingEvents" GetRoutingEventsReturns
  by unfold_locales (auto simp: fake_defs)

subsection \<open>The fake emitter behind the handler\<close>

text \<open>A fake emitter as the emitter of a handler whose world it is part of.\<close>

definition emitter_of_fake :: "('w fake_emitter \<times> 'w) emitter" where
  "emitter_of_fake routingEvents s =
     (case s of (fake, w) \<Rightarrow> case fake_Emit routingEvents fake w of (err, fake1, w1) \<Rightarrow> (err, (fake1, w1)))"

text \<open>What a test reads off a fake emitter.\<close>

definition emitted :: "'w fake_emitter \<Rightarrow> routing_event list list" where
  "emitted fake = map (\<lambda>i. the (EmitArgsForCall (int i) fake)) [0..<EmitCallCount fake]"

text \<open>The batches of events the table returns, one for each BBS event.\<close>

primrec event_batches ::
  "bbs_models \<Rightarrow> bbs_event list \<Rightarrow> routing_table \<Rightarrow> (routing_event list list \<times> routing_table) option" where
  "event_batches bbs [] t = Some ([], t)"
| "event_batches bbs (e # es) t =
     (case on_table bbs e t of
        None \<Rightarrow> None
      | Some (rs, t1) \<Rightarrow> map_option (\<lambda>(bs, t2). (rs # bs, t2)) (event_batches bbs es t1))"

definition tell :: "'w emitter \<Rightarrow> routing_event list list \<Rightarrow> 'w \<Rightarrow> 'w" where
  "tell emitter bs w = fold (\<lambda>rs w. snd (emitter rs w)) bs w"

lemma handle_all_tells:
  "h_emitter h = Some em \<Longrightarrow>
   handle_all bbs es h w = map_option (\<lambda>(bs, t). (h\<lparr>h_routingTable := t\<rparr>, tell em (filter (\<lambda>rs. rs \<noteq> []) bs) w))
     (event_batches bbs es (h_routingTable h))"
proof (induction es arbitrary: h w)
  case (Cons e es)
  show ?case
  proof (cases "on_table bbs e (h_routingTable h)")
    case (Some r)
    obtain rs t where r: "r = (rs, t)" by (cases r)
    from Cons.IH [of "h\<lparr>h_routingTable := t\<rparr>" "handler_emit rs h w"] Cons.prems Some r show ?thesis
      by (cases "event_batches bbs es t") (auto simp: handleEvent_eq handler_emit_def tell_def)
  qed (simp add: handleEvent_eq)
qed (simp add: tell_def)

lemma new_handler_tells:
  "HandleEvents bbs es (NewRoutingTableHandler t (Some em)) w =
     map_option (\<lambda>(bs, t'). ((NewRoutingTableHandler t (Some em))\<lparr>h_routingTable := t'\<rparr>,
         tell em (filter (\<lambda>rs. rs \<noteq> []) bs) w)) (event_batches bbs es t)"
  by (simp add: HandleEvents_idle handle_all_tells NewRoutingTableHandler_def)

lemma tell_fake: "tell emitter_of_fake bs (fake, w) = invoke_all fake_Emit bs fake w"
proof (induction bs arbitrary: fake w)
  case (Cons b bs)
  obtain err fake1 w1 where "fake_Emit b fake w = (err, fake1, w1)" by (cases "fake_Emit b fake w") auto
  with Cons.IH [of fake1 w1] show ?case by (simp add: tell_def emitter_of_fake_def)
qed (simp add: tell_def)

lemma emitted_tell:
  "EmitCallCount fake = 0 \<Longrightarrow> emitted (fst (tell emitter_of_fake bs (fake, w))) = bs"
  unfolding emitted_def tell_fake by (rule emit.recorded_all)

subsection \<open>Properties\<close>

text \<open>
  C40: A test sees through the fake emitter what any emitter would get. Let a handler with a fake emitter
  that has not been called handle any events. The same handler with any other emitter, in any world,
  handles them to the same table, and tells that emitter exactly the batches the test reads off the
  fake with \<open>EmitCallCount\<close> and \<open>EmitArgsForCall\<close>, in their order, whatever the fake and the emitter answer.
\<close>

theorem fake_emitter_faithful:
  assumes "HandleEvents bbs es (NewRoutingTableHandler t (Some emitter_of_fake)) (fake, w) = Some (h, (fake', w'))"
    and "EmitCallCount fake = 0"
  shows "\<exists>h'. HandleEvents bbs es (NewRoutingTableHandler t (Some em)) v = Some (h', tell em (emitted fake') v) \<and>
    h_routingTable h' = h_routingTable h"
proof -
  from assms(1) obtain bs t' where bs: "event_batches bbs es t = Some (bs, t')"
    and h: "h_routingTable h = t'"
    and fake': "(fake', w') = tell emitter_of_fake (filter (\<lambda>rs. rs \<noteq> []) bs) (fake, w)"
    by (auto simp: new_handler_tells)
  have "emitted fake' = filter (\<lambda>rs. rs \<noteq> []) bs"
    using emitted_tell [OF assms(2), of "filter (\<lambda>rs. rs \<noteq> []) bs" w] by (simp add: fake' [symmetric])
  with bs h show ?thesis by (simp add: new_handler_tells)
qed

subsection \<open>Witness\<close>

text \<open>A fake that answers every call with an error, behind the sample's handler.\<close>

definition failing_fake :: "unit fake_emitter" where
  "failing_fake = EmitReturns (Some ''no'')
     \<lparr>fe_Emit = \<lparr>fm_Stub = None, fm_ArgsForCall = [], fm_Returns = None\<rparr>\<rparr>"

lemma fake_emitter_faithful_witness:
  "\<exists>h h' fake' w'. HandleEvents sample_bbs sample_events
       (NewRoutingTableHandler (NewTable None) (Some emitter_of_fake)) (failing_fake, ()) = Some (h, (fake', w')) \<and>
     HandleEvents sample_bbs sample_events
       (NewRoutingTableHandler (NewTable None) (Some registry_emitter)) {} =
     Some (h', tell registry_emitter (emitted fake') {}) \<and> h_routingTable h' = h_routingTable h"
proof -
  obtain h fake' w' where run: "HandleEvents sample_bbs sample_events
       (NewRoutingTableHandler (NewTable None) (Some emitter_of_fake)) (failing_fake, ()) = Some (h, (fake', w'))"
    using handle_all_runs [of sample_bbs sample_events "NewRoutingTableHandler (NewTable None) (Some emitter_of_fake)"
        _ _ "(failing_fake, ())"] sample_events_run
    by (fastforce simp: HandleEvents_idle NewRoutingTableHandler_def)
  have "EmitCallCount failing_fake = 0"
    by (simp add: failing_fake_def EmitReturns_def EmitCallCount_def returning_def)
  from fake_emitter_faithful [OF run this, of registry_emitter "{}"] run show ?thesis by blast
qed

end
