(* ===== verification/Spec2Isabelle.thy ===== *)
theory Spec2Isabelle
  imports Program Sync_Progress Delivery Fakes
begin

text \<open>
  A verification development for the TCP emitter (Go). The program watches the BBS of Diego for
  events on desired and actual LRPs, keeps a table of which external TCP port leads to which
  instances, and tells the routing API which mappings to upsert and which to delete.

  \<^bold>\<open>How the program works\<close>

  \<^item> \<open>cmd/tcp-emitter/main.go\<close> reads the flags, builds the clients and runs the lock, the watcher and the
    syncer as an ordered group.
  \<^item> \<open>watcher/watcher.go\<close> receives BBS events and sync requests and calls \<open>HandleEvent\<close> and \<open>Sync\<close> of
    the handler; \<open>syncer/syncer.go\<close> sends a sync request at every tick.
  \<^item> \<open>routing_table/routing_table_handler.go\<close> turns an event into one call of the routing table and
    emits the routing events the call returns. \<open>Sync\<close> fetches everything from the BBS, builds a new
    table, applies the events that arrived meanwhile and swaps the new table in.
  \<^item> \<open>routing_table/schema/routing_table.go\<close> is the table: a map from routing keys (process and
    container port) to entries (external ports, instances, modification tag). Its operations return
    registration and unregistration events.
  \<^item> \<open>routing_table/schema/event/event.go\<close> translates routing events to requests of the routing API;
    \<open>emitter/emitter.go\<close> sends them, with one retry if the token has expired.

  \<^bold>\<open>The theories\<close>

  \<^item> \<open>Tcp_Prelude\<close>: Go maps and their iteration orders, the loop combinators, and the contracts of
    loop bodies as locales (\<open>event_step\<close>, \<open>tracked_step\<close>, \<open>keyed_step\<close>).
  \<^item> \<open>Bbs_Models\<close>: the data received from the BBS, and the record \<open>bbs_models\<close> of the functions of
    other packages the code calls on them; a sample instance for witnesses.
  \<^item> \<open>Endpoint\<close> models \<open>endpoint.go\<close>; \<open>Routing_Event\<close> models \<open>event.go\<close>; \<open>Routing_Table\<close> models
    \<open>routing_table.go\<close>, each function under its own name. \<open>Routing_Table\<close> also has the invariant
    \<open>wf_table\<close> and the reachable tables.
  \<^item> \<open>Table_Laws\<close>: what each operation of the table does, entry by entry, and exactly which events it
    emits, error and no-op branches included.
  \<^item> \<open>Route_Registry\<close>: the abstract specification. A table stands for a set of routes (routing key,
    external port, instance); events add routes to a registry or take them away. The theorems compare
    what the events of an operation do to the registry with what the operation does to the table;
    the locale \<open>route_provider\<close> states the contract of the table that its client, the handler,
    relies on, with its lemmas about sequences of calls.
  \<^item> \<open>Emitter\<close> models \<open>emitter.go\<close> over clients that pass a world along. The theorems give what \<open>Emit\<close>
    returns, which calls it makes in which order, and what the routing API holds afterwards.
  \<^item> \<open>Lrp_Utils\<close> models \<open>util/lrp_utils.go\<close>; \<open>Routing_Table_Handler\<close> models
    \<open>routing_table_handler.go\<close>.
  \<^item> \<open>Handler_Laws\<close>: events as calls of the table, panics, the end of a sync after failure and after
    success, and the registry behind an emitter that delivers.
  \<^item> \<open>Handler_Sync\<close>: the table a sync builds, the interleavings of a sync with events as a labelled
    step relation and their reduction to an atomic sync, and the invariant of the reachable states.
  \<^item> \<open>Watcher\<close> models \<open>watcher.go\<close>: the cases of the select loop and the goroutine \<open>checkForEvents\<close> as a
    step relation on top of the handler; one goroutine at a time, events in order, and what is left
    behind after the signal.
  \<^item> \<open>Sync_Progress\<close>: when a sync can end. In the middle of any run it can, unless a cached event lacks
    data, on which its last critical section panics; then no continuation ends it.
  \<^item> \<open>Announcement\<close>: handler, table and emitter together, down to the mappings the routing API holds. The
    locale \<open>announcing_step\<close> states what a call of the table has to promise, and is interpreted on
    the four calls that events make; the theorems say that events and syncs announce every route, and that events leave
    no mapping behind that is not the table's.
  \<^item> \<open>Syncer\<close> models \<open>syncer.go\<close>, one function per statement other goroutines can see. \<open>System\<close> puts
    syncer, sync channel, event goroutine and a watcher that is busy or waits in its select into one
    step relation, in which a panic ends the process; it refines the watcher of \<open>Watcher\<close>, and the
    requests of the syncer are counted. \<open>Crash\<close> says exactly when the next step can be a panic.
  \<^item> \<open>Delivery\<close>: the theorem of \<open>Announcement\<close> for the whole system: the routing API holds every route of
    the table in every state, through events and syncs in any order.
  \<^item> \<open>Startup\<close> models \<open>config.go\<close> and the functions and checks of \<open>main.go\<close> between the flags and the
    point where the members run.
  \<^item> \<open>Go_Time\<close> and \<open>Command_Line\<close>: what the program uses of Go's \<open>time\<close>, \<open>strconv\<close> and \<open>flag\<close> (Go 1.7),
    the flags \<open>main.go\<close> declares, \<open>main\<close> from its arguments, and the arguments of
    \<open>testrunner/runner.go\<close>. The lemmas show that a printed duration is parsed back, the theorems which
    defaults and types the flags have and what becomes of right and wrong command lines.
  \<^item> \<open>Fakes\<close> models the three generated test doubles over one record for a method; the locales \<open>counter\<close>,
    \<open>recorder\<close> and \<open>returner\<close> state what tests rely on and are interpreted on every method. The theorem
    says that a fake emitter shows a test what any emitter would get.
  \<^item> \<open>Program\<close>: lines 220 to 225 of \<open>main.go\<close>, which join all of it, the invariant of the running
    program, and the exit status, that of a panic of a running member included.

  \<^bold>\<open>How the model relates to the code\<close>

  \<^item> Structs are records, the two structs used as map keys are datatypes, \<open>uint32\<close> and \<open>uint16\<close> are
    words, \<open>int\<close> is \<open>int\<close>. Go maps are finite maps. The order of a \<open>range\<close> loop over a map is an
    argument of type \<open>range_order\<close>, which holds exactly the orders Go may take; a loop whose result
    does not depend on the order uses \<open>range_any\<close>, and a theorem shows the independence.
  \<^item> A panic is the result \<open>None\<close>. Errors of clients are strings in a sum or an option. The pointers in
    events may be nil (\<open>None\<close>), on which the handlers panic; the elements of the slices the BBS client
    returns are not nil.
  \<^item> The state is passed explicitly. The temporary table of a sync is shared by pointer between the
    handler and \<open>Swap\<close>; the model passes on the table as it is after the cached events.
  \<^item> Critical sections are single steps. Loops over slices are structural recursions; the loop of
    \<open>Emit\<close> with its counter terminates by a measure, and so do the printing of numbers, the parsing of
    durations and that of arguments, by the length of what is left. No definition uses fuel; the
    select loops of watcher and syncer, which may run for ever, are step relations in which the clock
    may tick and signals may arrive at any time.
  \<^item> In \<open>Watcher\<close> a call of the handler is one step; in \<open>System\<close> it begins and ends, and the others go on
    meanwhile. The fields \<open>wa_read\<close>, \<open>wa_handled\<close>, \<open>sys_syncs\<close> and the counters of the syncer are history
    and decide nothing.
  \<^item> Durations are nanoseconds as \<open>int\<close>, within 64 bits after parsing. The float \<open>Seconds()\<close> is modelled
    exactly, which it is for TTLs between minus \<open>2 ^ 22\<close> seconds and the accepted maximum.

  \<^bold>\<open>What is not modelled\<close>

  Loggers (but the panics of computing logged data and the data of \<open>logRoutingEvents\<close>
  are); the mutexes as objects; the methods of other packages (parameters: \<open>Resolve\<close>,
  \<open>SucceededBy\<close>, \<open>Equal\<close>, \<open>TCPRoutesFromRoutingInfo\<close>,
  \<open>NewTcpRouteMapping\<close>, the BBS, UAA, Consul and routing API clients, dropsonde, url,
  uuid and YAML, the flags of debugserver and lagerflags); the running of the ifrit group, of the
  lock and of the debug server, which are other packages' code: in which states the group ends and
  what it sends then is an argument of \<open>program_exit\<close>; panics of those packages are left out. Of the clock, also another package's, the model knows
  for which intervals \<open>NewTicker\<close> returns; Go's panics unless the interval is positive,
  which is a hypothesis where it matters (\<open>real_clock\<close> in the witnesses). The struct
  \<open>syncEndEvent\<close> of \<open>watcher.go\<close> is used nowhere and has no counterpart.

  \<^bold>\<open>What modelling showed\<close>

  \<^item> An update of a desired LRP that only takes ports away is emitted but not recorded in the table
    (\<open>AddRoutes_entries\<close>), so the next endpoint brings the ports back (\<open>dropped_port_comes_back\<close>);
    without such updates table and registry agree exactly (\<open>registry_exact_without_shrinking\<close>).
  \<^item> \<open>Swap\<close> does not unregister instances that are gone while their key and port stay
    (\<open>Swap_registry\<close>).
  \<^item> A successful sync of a BBS without routes is treated like a failed one (\<open>sync_failed_replays\<close>).
  \<^item> A negative route TTL is accepted, and the number of token retries is taken modulo \<open>2 ^ 32\<close>
    (\<open>flags_unchecked\<close>).
  \<^item> External ports are cut to 16 bits (\<open>external_port_truncated\<close>).
  \<^item> After the signal the event goroutine may block for good, and an event source it subscribes to
    then is never closed (\<open>watcher_stopped\<close>, \<open>late_subscription_leaks\<close>). The cache of the handler is
    never used by this watcher, which calls \<open>HandleEvent\<close> and \<open>Sync\<close> one after the other
    (\<open>watcher_sound\<close>).
  \<^item> The first sync can be lost: the watcher is ready before it waits, and the syncer's send does not
    block (\<open>initial_sync_can_be_lost\<close>).
  \<^item> A sync interval that is not positive passes \<open>main\<close> and crashes the program when the syncer makes its
    ticker (\<open>nonpositive_interval_crashes\<close>).
  \<^item> A desired LRP that moves its ports to another router group is not noticed
    (\<open>router_group_change_ignored\<close>).
  \<^item> An external port 0 in an entry hides its other ports from the routing API
    (\<open>zero_port_hides_entry\<close>); \<open>table_always_delivered\<close> leaves such entries out.
  \<^item> Arguments after the first that is no flag are ignored without an error (\<open>command_line_errors\<close>); the
    flag \<open>sessionName\<close> has no effect (\<open>flags_unchecked\<close>), and neither has the field \<open>LockRetryInterval\<close>
    of the test runner (\<open>runner_flags_read_back\<close>).
  \<^item> \<open>Emit\<close> drops every error but that of the token fetch (\<open>Emit_outcome\<close>), so a registration it could
    not send is missing until the next sync: the theorems about delivery assume that only tokens expire.
\<close>

end
